theory Spec2Isabelle
  imports Complex_Main
begin

section \<open>Values read from and written to the spreadsheet\<close>

text \<open>
  The program (src/app.py) keeps every table in a worksheet of one Google spreadsheet.
  A worksheet cell reaches the Python code as \<open>None\<close>, an \<open>int\<close>, a \<open>float\<close> or a
  \<open>str\<close>. Python strings are modelled as \<open>string\<close>; a literal outside ASCII stands for
  its UTF-8 bytes, which keeps equality and the substring test of the source exact.
  A finite float is modelled by the rational number it denotes.
\<close>

datatype cell = CNone | CInt int | CFloat rat | CStr string

text \<open>Exceptions carry the text that \<open>str(e)\<close> returns.\<close>

datatype exn =
    KeyError string
  | ValueError string
  | TypeError string
  | WorksheetNotFound string
  | APIError string
  | Exception string

fun str_exn :: "exn \<Rightarrow> string" where
  "str_exn (KeyError s) = s"
| "str_exn (ValueError s) = s"
| "str_exn (TypeError s) = s"
| "str_exn (WorksheetNotFound s) = s"
| "str_exn (APIError s) = s"
| "str_exn (Exception s) = s"

fun is_WorksheetNotFound :: "exn \<Rightarrow> bool" where
  "is_WorksheetNotFound (WorksheetNotFound s) = True"
| "is_WorksheetNotFound e = False"

text \<open>What a page shows: \<open>st.error\<close>, \<open>st.info\<close> and \<open>st.success\<close>.\<close>

datatype ui_msg = StError string | StInfo string | StSuccess string

text \<open>A record of \<open>get_all_records\<close> is a dict from column name to cell.\<close>

type_synonym row = "string \<rightharpoonup> cell"

definition dict_getitem :: "row \<Rightarrow> string \<Rightarrow> exn + cell" where
  \<comment> \<open>\<open>m[k]\<close>: raises KeyError when the key is missing.\<close>
  "dict_getitem m k = (case m k of None \<Rightarrow> Inl (KeyError k) | Some v \<Rightarrow> Inr v)"

definition dict_get :: "row \<Rightarrow> string \<Rightarrow> cell \<Rightarrow> cell" where
  \<comment> \<open>\<open>m.get(k, d)\<close>.\<close>
  "dict_get m k d = (case m k of None \<Rightarrow> d | Some v \<Rightarrow> v)"

fun dict_getitems :: "row \<Rightarrow> string list \<Rightarrow> exn + cell list" where
  \<comment> \<open>\<open>[m[k1], m[k2], ...]\<close>, evaluated from the left.\<close>
  "dict_getitems m [] = Inr []"
| "dict_getitems m (k # ks) =
     (case dict_getitem m k of
        Inl e \<Rightarrow> Inl e
      | Inr v \<Rightarrow> (case dict_getitems m ks of Inl e \<Rightarrow> Inl e | Inr vs \<Rightarrow> Inr (v # vs)))"

fun mapE :: "('a \<Rightarrow> exn + 'b) \<Rightarrow> 'a list \<Rightarrow> exn + 'b list" where
  \<comment> \<open>A loop that appends one result per element and stops at the first exception.\<close>
  "mapE f [] = Inr []"
| "mapE f (x # xs) =
     (case f x of
        Inl e \<Rightarrow> Inl e
      | Inr y \<Rightarrow> (case mapE f xs of Inl e \<Rightarrow> Inl e | Inr ys \<Rightarrow> Inr (y # ys)))"

definition truthy :: "cell \<Rightarrow> bool" where
  \<comment> \<open>The truth value Python gives a cell in \<open>if x\<close>.\<close>
  "truthy c = (case c of CNone \<Rightarrow> False | CInt i \<Rightarrow> i \<noteq> 0 | CFloat r \<Rightarrow> r \<noteq> 0 | CStr s \<Rightarrow> s \<noteq> [])"

subsection \<open>The string literals of the source outside ASCII\<close>

definition zh_pending :: string where
  \<comment> \<open>lines 300, 533: U+5F85 U+78BA U+8A8D, the pending value\<close>
  "zh_pending = [CHR 0xE5, CHR 0xBE, CHR 0x85, CHR 0xE7, CHR 0xA2, CHR 0xBA, CHR 0xE8,
     CHR 0xAA, CHR 0x8D]"

definition zh_approved :: string where
  \<comment> \<open>lines 636, 751: U+5DF2 U+901A U+904E, the approved value\<close>
  "zh_approved = [CHR 0xE5, CHR 0xB7, CHR 0xB2, CHR 0xE9, CHR 0x80, CHR 0x9A, CHR 0xE9,
     CHR 0x81, CHR 0x8E]"

definition zh_understood :: string where
  \<comment> \<open>line 479: U+5DF2 U+7406 U+89E3, the understood value\<close>
  "zh_understood = [CHR 0xE5, CHR 0xB7, CHR 0xB2, CHR 0xE7, CHR 0x90, CHR 0x86, CHR 0xE8,
     CHR 0xA7, CHR 0xA3]"

definition zh_need_more :: string where
  \<comment> \<open>line 479: the needs-more-information value\<close>
  "zh_need_more = [CHR 0xE9, CHR 0x9C, CHR 0x80, CHR 0xE8, CHR 0xA6, CHR 0x81, CHR 0xE6,
     CHR 0x9B, CHR 0xB4, CHR 0xE5, CHR 0xA4, CHR 0x9A, CHR 0xE8, CHR 0xB3, CHR 0x87,
     CHR 0xE6, CHR 0x96, CHR 0x99]"

definition zh_in_progress :: string where
  \<comment> \<open>line 532: U+9032 U+884C U+4E2D, the in-progress value\<close>
  "zh_in_progress = [CHR 0xE9, CHR 0x80, CHR 0xB2, CHR 0xE8, CHR 0xA1, CHR 0x8C, CHR 0xE4,
     CHR 0xB8, CHR 0xAD]"

definition zh_waiting :: string where
  \<comment> \<open>line 532: the waiting-for-information value\<close>
  "zh_waiting = [CHR 0xE7, CHR 0xAD, CHR 0x89, CHR 0xE5, CHR 0xBE, CHR 0x85, CHR 0xE8,
     CHR 0xB3, CHR 0x87, CHR 0xE6, CHR 0x96, CHR 0x99]"

definition zh_done :: string where
  \<comment> \<open>lines 816, 885: U+5DF2 U+5B8C U+6210, the completion marker\<close>
  "zh_done = [CHR 0xE5, CHR 0xB7, CHR 0xB2, CHR 0xE5, CHR 0xAE, CHR 0x8C, CHR 0xE6,
     CHR 0x88, CHR 0x90]"

definition zh_overdue :: string where
  \<comment> \<open>line 887: the overdue flag shown on the dashboard\<close>
  "zh_overdue = [CHR 0xE2, CHR 0x9A, CHR 0xA0] @ '' '' @ [CHR 0xE9, CHR 0x80, CHR 0xBE,
     CHR 0xE6, CHR 0x9C, CHR 0x9F]"

definition zh_field_name :: string where
  \<comment> \<open>line 58: the key column of an Overview worksheet\<close>
  "zh_field_name = [CHR 0xE6, CHR 0xAC, CHR 0x84, CHR 0xE4, CHR 0xBD, CHR 0x8D, CHR 0xE5,
     CHR 0x90, CHR 0x8D, CHR 0xE7, CHR 0xA8, CHR 0xB1]"

definition zh_field_value :: string where
  \<comment> \<open>line 58: the value column of an Overview worksheet\<close>
  "zh_field_value = [CHR 0xE5, CHR 0x80, CHR 0xBC]"

definition zh_review_status :: string where
  \<comment> \<open>lines 358, 666: the Overview key of the review status\<close>
  "zh_review_status = [CHR 0xE5, CHR 0xAF, CHR 0xA9, CHR 0xE6, CHR 0xA0, CHR 0xB8,
     CHR 0xE7, CHR 0x8B, CHR 0x80, CHR 0xE6, CHR 0x85, CHR 0x8B]"

definition zh_review_comment :: string where
  \<comment> \<open>lines 359, 668: the Overview key of the client's review comment\<close>
  "zh_review_comment = [CHR 0xE5, CHR 0xAF, CHR 0xA9, CHR 0xE6, CHR 0xA0, CHR 0xB8,
     CHR 0xE6, CHR 0x84, CHR 0x8F, CHR 0xE8, CHR 0xA6, CHR 0x8B, CHR 0xEF, CHR 0xBC,
     CHR 0x88, CHR 0xE6, CHR 0xA5, CHR 0xAD, CHR 0xE4, CHR 0xB8, CHR 0xBB, CHR 0xEF,
     CHR 0xBC, CHR 0x89]"

definition zh_no_subtask :: string where
  \<comment> \<open>line 474: the only option offered when no subtask is listed\<close>
  "zh_no_subtask = [CHR 0xEF, CHR 0xBC, CHR 0x88, CHR 0xE5, CHR 0xB0, CHR 0x9A, CHR 0xE7,
     CHR 0x84, CHR 0xA1, CHR 0xE5, CHR 0xAD, CHR 0x90, CHR 0xE4, CHR 0xBB, CHR 0xBB,
     CHR 0xE5, CHR 0x8B, CHR 0x99, CHR 0xEF, CHR 0xBC, CHR 0x8C, CHR 0xE8, CHR 0xAB,
     CHR 0x8B] @ '' PM '' @ [CHR 0xE5, CHR 0xBB, CHR 0xBA, CHR 0xE7, CHR 0xAB, CHR 0x8B,
     CHR 0xEF, CHR 0xBC, CHR 0x89]"

definition msg_retry_exhausted :: string where
  \<comment> \<open>line 124\<close>
  "msg_retry_exhausted = ''Google API '' @ [CHR 0xE9, CHR 0x80, CHR 0xA3, CHR 0xE7,
     CHR 0xB7, CHR 0x9A, CHR 0xE5, CHR 0xA4, CHR 0x9A, CHR 0xE6, CHR 0xAC, CHR 0xA1,
     CHR 0xE5, CHR 0xA4, CHR 0xB1, CHR 0xE6, CHR 0x95, CHR 0x97, CHR 0xEF, CHR 0xBC,
     CHR 0x8C, CHR 0xE8, CHR 0xAB, CHR 0x8B, CHR 0xE7, CHR 0xA8, CHR 0x8D, CHR 0xE5,
     CHR 0xBE, CHR 0x8C, CHR 0xE5, CHR 0x86, CHR 0x8D, CHR 0xE8, CHR 0xA9, CHR 0xA6,
     CHR 0xE3, CHR 0x80, CHR 0x82]"

definition msg_srs_title_required :: string where
  \<comment> \<open>line 279\<close>
  "msg_srs_title_required = ''SRS '' @ [CHR 0xE5, CHR 0x8A, CHR 0x9F, CHR 0xE8, CHR 0x83,
     CHR 0xBD, CHR 0xE5, CHR 0x90, CHR 0x8D, CHR 0xE7, CHR 0xA8, CHR 0xB1, CHR 0xE7,
     CHR 0x82, CHR 0xBA, CHR 0xE5, CHR 0xBF, CHR 0x85, CHR 0xE5, CHR 0xA1, CHR 0xAB]"

definition msg_no_pm_subtasks :: string where
  \<comment> \<open>line 449\<close>
  "msg_no_pm_subtasks = [CHR 0xE6, CHR 0xAD, CHR 0xA4] @ '' SRS '' @ [CHR 0xE5, CHR 0xB0,
     CHR 0x9A, CHR 0xE7, CHR 0x84, CHR 0xA1] @ '' PM '' @ [CHR 0xE6, CHR 0x8B, CHR 0x86,
     CHR 0xE8, CHR 0xA7, CHR 0xA3, CHR 0xE5, CHR 0xAD, CHR 0x90, CHR 0xE4, CHR 0xBB,
     CHR 0xBB, CHR 0xE5, CHR 0x8B, CHR 0x99]"

definition msg_no_pm_sheet :: string where
  \<comment> \<open>line 456\<close>
  "msg_no_pm_sheet = [CHR 0xE5, CHR 0xB0, CHR 0x9A, CHR 0xE6, CHR 0x9C, CHR 0xAA, CHR 0xE5,
     CHR 0xBB, CHR 0xBA, CHR 0xE7, CHR 0xAB, CHR 0x8B] @ '' PM '' @ [CHR 0xE5, CHR 0xAD,
     CHR 0x90, CHR 0xE4, CHR 0xBB, CHR 0xBB, CHR 0xE5, CHR 0x8B, CHR 0x99, CHR 0xE8,
     CHR 0xA1, CHR 0xA8]"

definition msg_reported :: string where
  \<comment> \<open>line 548\<close>
  "msg_reported = [CHR 0xE5, CHR 0xB7, CHR 0xB2, CHR 0xE6, CHR 0x88, CHR 0x90, CHR 0xE5,
     CHR 0x8A, CHR 0x9F, CHR 0xE5, CHR 0x9B, CHR 0x9E, CHR 0xE5, CHR 0xA0, CHR 0xB1,
     CHR 0xEF, CHR 0xBC, CHR 0x81] @ ''Dashboard '' @ [CHR 0xE5, CHR 0xB7, CHR 0xB2,
     CHR 0xE5, CHR 0x90, CHR 0x8C, CHR 0xE6, CHR 0xAD, CHR 0xA5, CHR 0xE6, CHR 0x9B,
     CHR 0xB4, CHR 0xE6, CHR 0x96, CHR 0xB0, CHR 0xE3, CHR 0x80, CHR 0x82]"

definition msg_review_saved :: string where
  \<comment> \<open>line 677\<close>
  "msg_review_saved = ''SRS '' @ [CHR 0xE5, CHR 0xAF, CHR 0xA9, CHR 0xE6, CHR 0xA0,
     CHR 0xB8, CHR 0xE7, CHR 0xB5, CHR 0x90, CHR 0xE6, CHR 0x9E, CHR 0x9C, CHR 0xE5,
     CHR 0xB7, CHR 0xB2, CHR 0xE6, CHR 0x9B, CHR 0xB4, CHR 0xE6, CHR 0x96, CHR 0xB0,
     CHR 0xEF, CHR 0xBC, CHR 0x81] @ ''Dashboard '' @ [CHR 0xE5, CHR 0xB7, CHR 0xB2,
     CHR 0xE5, CHR 0x90, CHR 0x8C, CHR 0xE6, CHR 0xAD, CHR 0xA5, CHR 0xE3, CHR 0x80,
     CHR 0x82]"

definition msg_task_review_saved :: string where
  \<comment> \<open>line 772\<close>
  "msg_task_review_saved = [CHR 0xE4, CHR 0xBB, CHR 0xBB, CHR 0xE5, CHR 0x8B, CHR 0x99,
     CHR 0xE6, CHR 0x88, CHR 0x90, CHR 0xE6, CHR 0x9E, CHR 0x9C, CHR 0xE5, CHR 0xAF,
     CHR 0xA9, CHR 0xE6, CHR 0xA0, CHR 0xB8, CHR 0xE6, CHR 0x88, CHR 0x90, CHR 0xE5,
     CHR 0x8A, CHR 0x9F, CHR 0xEF, CHR 0xBC, CHR 0x8C] @ ''Dashboard '' @ [CHR 0xE5,
     CHR 0xB7, CHR 0xB2, CHR 0xE5, CHR 0x90, CHR 0x8C, CHR 0xE6, CHR 0xAD, CHR 0xA5,
     CHR 0xE6, CHR 0x9B, CHR 0xB4, CHR 0xE6, CHR 0x96, CHR 0xB0, CHR 0xEF, CHR 0xBC,
     CHR 0x81]"

definition msg_no_tasks :: string where
  \<comment> \<open>line 708\<close>
  "msg_no_tasks = [CHR 0xE6, CHR 0xAD, CHR 0xA4] @ '' SRS '' @ [CHR 0xE5, CHR 0xB0,
     CHR 0x9A, CHR 0xE7, CHR 0x84, CHR 0xA1, CHR 0xE5, CHR 0xB7, CHR 0xA5, CHR 0xE7,
     CHR 0xA8, CHR 0x8B, CHR 0xE5, CHR 0xB8, CHR 0xAB, CHR 0xE4, CHR 0xBB, CHR 0xBB,
     CHR 0xE5, CHR 0x8B, CHR 0x99]"

subsection \<open>Python's \<open>int(x)\<close>, \<open>str(n)\<close>, \<open>in\<close>, \<open>join\<close> and \<open>strip\<close>\<close>

definition is_digit :: "char \<Rightarrow> bool" where
  "is_digit c = (48 \<le> (of_char c :: nat) \<and> (of_char c :: nat) \<le> 57)"

definition digit_val :: "char \<Rightarrow> nat" where
  "digit_val c = of_char c - 48"

definition ascii_space :: "char \<Rightarrow> bool" where
  "ascii_space c = ((of_char c :: nat) \<in> {9, 10, 11, 12, 13, 28, 29, 30, 31, 32})"

definition ascii_strip :: "string \<Rightarrow> string" where
  "ascii_strip s = rev (dropWhile ascii_space (rev (dropWhile ascii_space s)))"

fun digits_value :: "nat \<Rightarrow> string \<Rightarrow> nat option" where
  \<comment> \<open>The digits after the first one; a single underscore may stand between two digits.\<close>
  "digits_value acc [] = Some acc"
| "digits_value acc (c # cs) =
     (if is_digit c then digits_value (acc * 10 + digit_val c) cs
      else if c = CHR ''_'' then
        (case cs of
           [] \<Rightarrow> None
         | d # ds \<Rightarrow> if is_digit d then digits_value (acc * 10 + digit_val d) ds else None)
      else None)"

definition parse_decimal :: "string \<Rightarrow> int option" where
  \<comment> \<open>\<open>int(s)\<close> for a string in base 10: surrounding whitespace, an optional sign,
      decimal digits. Only the ASCII forms are modelled (Python also reads the decimal
      digits of other scripts).\<close>
  "parse_decimal s =
     (let t = ascii_strip s;
          neg = (case t of [] \<Rightarrow> False | c # _ \<Rightarrow> c = CHR ''-'');
          u = (case t of [] \<Rightarrow> [] | c # r \<Rightarrow> if c = CHR ''-'' \<or> c = CHR ''+'' then r else t)
      in case u of
           [] \<Rightarrow> None
         | c # r \<Rightarrow>
             if is_digit c
             then map_option (\<lambda>n. if neg then - int n else int n) (digits_value (digit_val c) r)
             else None)"

definition truncate_rat :: "rat \<Rightarrow> int" where
  \<comment> \<open>\<open>int(f)\<close> for a float rounds towards zero.\<close>
  "truncate_rat r = (if 0 \<le> r then \<lfloor>r\<rfloor> else \<lceil>r\<rceil>)"

fun py_int :: "cell \<Rightarrow> exn + int" where
  "py_int (CInt i) = Inr i"
| "py_int (CFloat r) = Inr (truncate_rat r)"
| "py_int (CStr s) =
     (case parse_decimal s of
        None \<Rightarrow> Inl (ValueError (''invalid literal for int() with base 10: '' @ s))
      | Some i \<Rightarrow> Inr i)"
| "py_int CNone = Inl (TypeError ''int() argument must be a string, a bytes-like object or a real number'')"

definition digit_char :: "nat \<Rightarrow> char" where
  "digit_char d = ''0123456789'' ! d"

fun str_nat :: "nat \<Rightarrow> string" where
  "str_nat n = (if n < 10 then [digit_char n] else str_nat (n div 10) @ [digit_char (n mod 10)])"

declare str_nat.simps [simp del]

definition str_int :: "int \<Rightarrow> string" where
  \<comment> \<open>\<open>str(i)\<close>, which an f-string applies to an int.\<close>
  "str_int i = (if i < 0 then ''-'' @ str_nat (nat (- i)) else str_nat (nat i))"

fun starts_with :: "string \<Rightarrow> string \<Rightarrow> bool" where
  "starts_with s [] = True"
| "starts_with [] (p # ps) = False"
| "starts_with (c # cs) (p # ps) = (c = p \<and> starts_with cs ps)"

fun str_contains :: "string \<Rightarrow> string \<Rightarrow> bool" where
  \<comment> \<open>\<open>sub in s\<close>.\<close>
  "str_contains sub [] = (sub = [])"
| "str_contains sub (c # cs) = (starts_with (c # cs) sub \<or> str_contains sub cs)"

fun py_join :: "string \<Rightarrow> string list \<Rightarrow> string" where
  "py_join sep [] = []"
| "py_join sep [x] = x"
| "py_join sep (x # y # ys) = x @ sep @ py_join sep (y # ys)"

definition space_len :: "nat list \<Rightarrow> nat" where
  \<comment> \<open>The number of bytes of the whitespace character that starts the UTF-8 text, 0 when
      it starts with none. Python's whitespace: U+0009..U+000D, U+001C..U+0020, U+0085,
      U+00A0, U+1680, U+2000..U+200A, U+2028, U+2029, U+202F, U+205F, U+3000.\<close>
  "space_len bs =
     (case bs of
        [] \<Rightarrow> 0
      | a # _ \<Rightarrow>
          if (9 \<le> a \<and> a \<le> 13) \<or> (28 \<le> a \<and> a \<le> 32) then 1
          else if take 2 bs = [0xC2, 0x85] \<or> take 2 bs = [0xC2, 0xA0] then 2
          else if take 3 bs = [0xE1, 0x9A, 0x80] \<or> take 3 bs = [0xE2, 0x81, 0x9F]
                  \<or> take 3 bs = [0xE3, 0x80, 0x80]
                  \<or> (take 2 bs = [0xE2, 0x80] \<and> length bs \<ge> 3
                      \<and> ((0x80 \<le> bs ! 2 \<and> bs ! 2 \<le> 0x8A) \<or> bs ! 2 \<in> {0xA8, 0xA9, 0xAF}))
          then 3
          else 0)"

function all_space :: "nat list \<Rightarrow> bool" where
  "all_space bs =
     (if bs = [] then True
      else if space_len bs = 0 then False
      else all_space (drop (space_len bs) bs))"
  by pat_completeness auto
termination
  by (relation "measure length") auto

declare all_space.simps [simp del]

definition py_blank :: "string \<Rightarrow> bool" where
  \<comment> \<open>\<open>not s.strip()\<close>: the string holds whitespace only.\<close>
  "py_blank s = all_space (map of_char s)"

definition st_selectbox :: "'a list \<Rightarrow> nat \<Rightarrow> 'a" where
  \<comment> \<open>\<open>st.selectbox(label, options)\<close> and \<open>st.radio(label, options)\<close> return the option
      the user picked, the first one by default. \<open>pick\<close> is the position picked; the
      source passes a list that is never empty.\<close>
  "st_selectbox options pick = options ! (if pick < length options then pick else 0)"

subsection \<open>Dates\<close>

datatype date = Date (year: nat) (month: nat) (day: nat)

definition date_lt :: "date \<Rightarrow> date \<Rightarrow> bool" where
  \<comment> \<open>\<open>a < b\<close> on \<open>datetime.date\<close>.\<close>
  "date_lt a b =
     (year a < year b \<or> (year a = year b \<and> (month a < month b \<or> (month a = month b \<and> day a < day b))))"

definition zfill :: "nat \<Rightarrow> string \<Rightarrow> string" where
  "zfill n s = replicate (n - length s) (CHR ''0'') @ s"

definition isoformat :: "date \<Rightarrow> string" where
  \<comment> \<open>\<open>d.isoformat()\<close>: \<open>YYYY-MM-DD\<close>.\<close>
  "isoformat d =
     zfill 4 (str_nat (year d)) @ ''-'' @ zfill 2 (str_nat (month d)) @ ''-'' @ zfill 2 (str_nat (day d))"

definition is_leap :: "nat \<Rightarrow> bool" where
  "is_leap y = (y mod 4 = 0 \<and> (y mod 100 \<noteq> 0 \<or> y mod 400 = 0))"

definition days_in_month :: "nat \<Rightarrow> nat \<Rightarrow> nat" where
  "days_in_month y m =
     (if m = 2 then (if is_leap y then 29 else 28)
      else if m = 4 \<or> m = 6 \<or> m = 9 \<or> m = 11 then 30 else 31)"

fun digits_only :: "string \<Rightarrow> nat option" where
  "digits_only [] = None"
| "digits_only (c # cs) =
     (if list_all is_digit (c # cs) then Some (fold (\<lambda>d acc. acc * 10 + digit_val d) (c # cs) 0)
      else None)"

fun date_fromisoformat :: "cell \<Rightarrow> exn + date" where
  \<comment> \<open>\<open>datetime.date.fromisoformat(x)\<close> on the format \<open>isoformat\<close> writes, \<open>YYYY-MM-DD\<close>;
      an argument that is not a string raises TypeError.\<close>
  "date_fromisoformat (CStr s) =
     (if length s = 10 \<and> s ! 4 = CHR ''-'' \<and> s ! 7 = CHR ''-'' then
        (case (digits_only (take 4 s), digits_only (take 2 (drop 5 s)), digits_only (drop 8 s)) of
           (Some y, Some m, Some d) \<Rightarrow>
             if 1 \<le> y \<and> 1 \<le> m \<and> m \<le> 12 \<and> 1 \<le> d \<and> d \<le> days_in_month y m
             then Inr (Date y m d)
             else Inl (ValueError (''Invalid isoformat string: '' @ s))
         | _ \<Rightarrow> Inl (ValueError (''Invalid isoformat string: '' @ s)))
      else Inl (ValueError (''Invalid isoformat string: '' @ s)))"
| "date_fromisoformat c = Inl (TypeError ''fromisoformat: argument must be str'')"

section \<open>The Record Store and the program's effects\<close>

text \<open>
  Modelled from the spec: the Record Store adapter of section 6 is the gspread client,
  which is not part of the repository. A worksheet holds a header row and body rows;
  \<open>read_all\<close> is the header-row-to-keys projection of the body rows in order, and a
  rewrite clears the worksheet, writes the header and writes the body rows in the given
  order. A worksheet handle is the worksheet's title.
\<close>

record worksheet =
  ws_header :: "string list"
  ws_body :: "cell list list"

type_synonym book = "string \<rightharpoonup> worksheet"

text \<open>
  The world of a page run: the spreadsheet, the outcome of each coming call of the
  spreadsheet API (\<open>Some e\<close>: the call raises \<open>e\<close> and changes nothing, as a rate limit
  or a network failure does; \<open>None\<close>, or no entry left: the call goes through), and the
  delays passed to \<open>time.sleep\<close> so far.
\<close>

record world =
  sheets :: book
  faults :: "exn option list"
  slept :: "rat list"

type_synonym 'a io = "world \<Rightarrow> (exn + 'a) \<times> world"

type_synonym 'a call = "book \<Rightarrow> exn + ('a \<times> book)"

definition returnE :: "'a \<Rightarrow> 'a io" where
  "returnE x w = (Inr x, w)"

definition liftE :: "exn + 'a \<Rightarrow> 'a io" where
  \<comment> \<open>A computation without effect that returns or raises.\<close>
  "liftE r w = (r, w)"

definition bindE :: "'a io \<Rightarrow> ('a \<Rightarrow> 'b io) \<Rightarrow> 'b io" where
  \<comment> \<open>Sequencing: an exception of the first part skips the second.\<close>
  "bindE m f w = (case m w of (Inl e, w') \<Rightarrow> (Inl e, w') | (Inr x, w') \<Rightarrow> f x w')"

definition try_except :: "'a io \<Rightarrow> (exn \<Rightarrow> bool) \<Rightarrow> 'a io \<Rightarrow> 'a io" where
  \<comment> \<open>\<open>try: body except <class>: handler\<close>; a bare \<open>except:\<close> handles every exception.\<close>
  "try_except body handles handler w =
     (case body w of
        (Inl e, w') \<Rightarrow> if handles e then handler w' else (Inl e, w')
      | (Inr x, w') \<Rightarrow> (Inr x, w'))"

definition time_sleep :: "rat \<Rightarrow> world \<Rightarrow> world" where
  "time_sleep d w = w\<lparr>slept := slept w @ [d]\<rparr>"

definition api_call :: "'a call \<Rightarrow> 'a io" where
  \<comment> \<open>Modelled from the spec: one call of the spreadsheet API.\<close>
  "api_call op w =
     (case faults w of
        Some e # fs \<Rightarrow> (Inl e, w\<lparr>faults := fs\<rparr>)
      | _ \<Rightarrow>
          (case op (sheets w) of
             Inl e \<Rightarrow> (Inl e, w\<lparr>faults := tl (faults w)\<rparr>)
           | Inr (x, b) \<Rightarrow> (Inr x, w\<lparr>sheets := b, faults := tl (faults w)\<rparr>)))"

definition gs_worksheet :: "string \<Rightarrow> string call" where
  \<comment> \<open>Modelled from the spec: \<open>sh.worksheet(title)\<close>.\<close>
  "gs_worksheet title b =
     (case b title of None \<Rightarrow> Inl (WorksheetNotFound title) | Some s \<Rightarrow> Inr (title, b))"

definition gs_add_worksheet :: "string \<Rightarrow> string call" where
  \<comment> \<open>Modelled from the spec: \<open>sh.add_worksheet(title, rows, cols)\<close>.\<close>
  "gs_add_worksheet title b =
     (case b title of
        None \<Rightarrow> Inr (title, b(title \<mapsto> \<lparr>ws_header = [], ws_body = []\<rparr>))
      | Some s \<Rightarrow> Inl (APIError (''A sheet with this name already exists: '' @ title)))"

definition on_sheet :: "string \<Rightarrow> (worksheet \<Rightarrow> 'a \<times> worksheet) \<Rightarrow> 'a call" where
  \<comment> \<open>Modelled from the spec: a call on a worksheet handle.\<close>
  "on_sheet ws f b =
     (case b ws of
        None \<Rightarrow> Inl (APIError (''Requested entity was not found: '' @ ws))
      | Some s \<Rightarrow> Inr (fst (f s), b(ws \<mapsto> snd (f s))))"

definition overlay :: "'a list \<Rightarrow> 'a list \<Rightarrow> 'a list" where
  \<comment> \<open>Writing cells over a row leaves the cells to their right as they were.\<close>
  "overlay new old = new @ drop (length new) old"

fun overlay_rows :: "cell list list \<Rightarrow> cell list list \<Rightarrow> cell list list" where
  "overlay_rows [] old = old"
| "overlay_rows (r # rs) [] = r # rs"
| "overlay_rows (r # rs) (x # xs) = overlay r x # overlay_rows rs xs"

definition records_of :: "worksheet \<Rightarrow> row list" where
  \<comment> \<open>Modelled from the spec: the header-row-to-keys projection of the body rows. A row
      shorter than the header reads as padded with empty strings; of two columns with
      one name the right one wins, as in \<open>dict(zip(keys, row))\<close>.\<close>
  "records_of s =
     map (\<lambda>r. Map.empty(ws_header s [\<mapsto>] r @ replicate (length (ws_header s) - length r) (CStr '''')))
       (ws_body s)"

definition well_formed :: "string list \<Rightarrow> worksheet \<Rightarrow> bool" where
  \<comment> \<open>The worksheet has the given header row and every body row fills exactly its columns.\<close>
  "well_formed headers s =
     (ws_header s = headers \<and> list_all (\<lambda>r. length r = length headers) (ws_body s))"

definition values_of :: "worksheet \<Rightarrow> cell list list" where
  \<comment> \<open>Modelled from the spec: every row, the header row first.\<close>
  "values_of s =
     (if ws_header s = [] \<and> ws_body s = [] then [] else map CStr (ws_header s) # ws_body s)"

definition ws_row_values_1 :: "string \<Rightarrow> string list io" where
  \<comment> \<open>\<open>ws.row_values(1)\<close>\<close>
  "ws_row_values_1 ws = api_call (on_sheet ws (\<lambda>s. (ws_header s, s)))"

definition ws_clear :: "string \<Rightarrow> unit io" where
  \<comment> \<open>\<open>ws.clear()\<close>\<close>
  "ws_clear ws = api_call (on_sheet ws (\<lambda>s. ((), \<lparr>ws_header = [], ws_body = []\<rparr>)))"

definition ws_update_A1 :: "string \<Rightarrow> string list \<Rightarrow> unit io" where
  \<comment> \<open>\<open>ws.update("A1", [headers])\<close>\<close>
  "ws_update_A1 ws headers =
     api_call (on_sheet ws (\<lambda>s. ((), s\<lparr>ws_header := overlay headers (ws_header s)\<rparr>)))"

definition ws_update_A2 :: "string \<Rightarrow> cell list list \<Rightarrow> unit io" where
  \<comment> \<open>\<open>ws.update("A2", rows)\<close>\<close>
  "ws_update_A2 ws rows =
     api_call (on_sheet ws (\<lambda>s. ((), s\<lparr>ws_body := overlay_rows rows (ws_body s)\<rparr>)))"

definition ws_get_all_records :: "string \<Rightarrow> row list io" where
  \<comment> \<open>\<open>ws.get_all_records()\<close>\<close>
  "ws_get_all_records ws = api_call (on_sheet ws (\<lambda>s. (records_of s, s)))"

definition ws_get_all_values :: "string \<Rightarrow> cell list list io" where
  \<comment> \<open>\<open>ws.get_all_values()\<close>\<close>
  "ws_get_all_values ws = api_call (on_sheet ws (\<lambda>s. (values_of s, s)))"

definition sh_worksheet :: "string \<Rightarrow> string io" where
  \<comment> \<open>\<open>sh.worksheet(title)\<close>\<close>
  "sh_worksheet title = api_call (gs_worksheet title)"

definition sh_add_worksheet :: "string \<Rightarrow> string io" where
  \<comment> \<open>\<open>sh.add_worksheet(title=title, rows=..., cols=...)\<close>\<close>
  "sh_add_worksheet title = api_call (gs_add_worksheet title)"

subsection \<open>The retry wrapper (lines 114-124)\<close>

definition rate_limit_signal :: "exn \<Rightarrow> bool" where
  \<comment> \<open>\<open>"429" in str(e) or "Quota exceeded" in str(e)\<close>\<close>
  "rate_limit_signal e = (str_contains ''429'' (str_exn e) \<or> str_contains ''Quota exceeded'' (str_exn e))"

definition retry_delay :: "nat \<Rightarrow> rat" where
  \<comment> \<open>\<open>1.2 + i\<close> seconds\<close>
  "retry_delay i = 12 / 10 + of_nat i"

fun with_retry_loop :: "nat list \<Rightarrow> 'a io \<Rightarrow> 'a io" where
  \<comment> \<open>The \<open>for\<close> loop over the attempt numbers that are left.\<close>
  "with_retry_loop [] func w = (Inl (Exception msg_retry_exhausted), w)"
| "with_retry_loop (i # rest) func w =
     (case func w of
        (Inr v, w') \<Rightarrow> (Inr v, w')
      | (Inl e, w') \<Rightarrow>
          if rate_limit_signal e
          then with_retry_loop rest func (time_sleep (retry_delay i) w')
          else (Inl e, w'))"

definition with_retry :: "'a io \<Rightarrow> 'a io" where
  "with_retry func = with_retry_loop [0..<5] func"

subsection \<open>The table helpers (lines 130-154)\<close>

definition ensure_worksheet :: "string \<Rightarrow> string list \<Rightarrow> string io" where
  "ensure_worksheet title headers =
     try_except
       (bindE (with_retry (sh_worksheet title)) (\<lambda>ws.
          if headers \<noteq> [] then
            bindE (ws_row_values_1 ws) (\<lambda>existing.
              if existing = [] then bindE (with_retry (ws_update_A1 ws headers)) (\<lambda>_. returnE ws)
              else returnE ws)
          else returnE ws))
       is_WorksheetNotFound
       (bindE (with_retry (sh_add_worksheet title)) (\<lambda>ws.
          if headers \<noteq> [] then bindE (with_retry (ws_update_A1 ws headers)) (\<lambda>_. returnE ws)
          else returnE ws))"

definition read_all :: "string \<Rightarrow> row list io" where
  "read_all ws = with_retry (ws_get_all_records ws)"

definition rewrite_sheet :: "string \<Rightarrow> string list \<Rightarrow> cell list list \<Rightarrow> unit io" where
  "rewrite_sheet ws headers rows =
     bindE (with_retry (ws_clear ws)) (\<lambda>_.
     bindE (with_retry (ws_update_A1 ws headers)) (\<lambda>_.
     if rows \<noteq> [] then with_retry (ws_update_A2 ws rows) else returnE ()))"

subsection \<open>The table schemas (lines 26-58)\<close>

definition SRS_INDEX_HEADERS :: "string list" where
  "SRS_INDEX_HEADERS =
     [''id'', ''meeting_id'', ''title'', ''desc'', ''problem'', ''goal'', ''ui_location'',
      ''ui_image_name'', ''version'', ''change_note'', ''created_at'', ''status'', ''review_comment'']"

definition TASK_HEADERS :: "string list" where
  "TASK_HEADERS =
     [''id'', ''name'', ''description'', ''engineer'', ''estimated_hours'', ''start_date'',
      ''end_date'', ''engineer_understand_status'', ''done_status'', ''client_status'', ''result_url'']"

definition SRS_OVERVIEW_HEADERS :: "string list" where
  "SRS_OVERVIEW_HEADERS = [zh_field_name, zh_field_value]"

definition srs_overview_title :: "int \<Rightarrow> string" where
  \<comment> \<open>\<open>f"SRS_OVERVIEW_{srs_id}"\<close>\<close>
  "srs_overview_title srs_id = ''SRS_OVERVIEW_'' @ str_int srs_id"

definition srs_tasks_title :: "int \<Rightarrow> string" where
  \<comment> \<open>\<open>f"SRS_TASKS_{srs_id}"\<close>\<close>
  "srs_tasks_title srs_id = ''SRS_TASKS_'' @ str_int srs_id"

definition pm_tasks_title :: "int \<Rightarrow> string" where
  \<comment> \<open>\<open>f"PM_TASKS_{srs_id}"\<close>\<close>
  "pm_tasks_title srs_id = ''PM_TASKS_'' @ str_int srs_id"

definition field :: "string list \<Rightarrow> string \<Rightarrow> cell list \<Rightarrow> cell option" where
  \<comment> \<open>The cell of a written row that stands in the column of the given name.\<close>
  "field headers name r = map_of (zip headers r) name"

section \<open>Identifier allocation\<close>

text \<open>
  The expression \<open>(max([int(m["id"]) for m in existing]) + 1) if existing else 1\<close>
  stands at every create (lines 212, 282 and 501). The list comprehension stops at the
  first record whose id is missing or does not convert.
\<close>

fun row_ids :: "row list \<Rightarrow> exn + int list" where
  "row_ids [] = Inr []"
| "row_ids (m # ms) =
     (case dict_getitem m ''id'' of
        Inl e \<Rightarrow> Inl e
      | Inr c \<Rightarrow>
          (case py_int c of
             Inl e \<Rightarrow> Inl e
           | Inr i \<Rightarrow> (case row_ids ms of Inl e \<Rightarrow> Inl e | Inr js \<Rightarrow> Inr (i # js))))"

fun py_max :: "int list \<Rightarrow> exn + int" where
  "py_max [] = Inl (ValueError ''max() arg is an empty sequence'')"
| "py_max (x # xs) = Inr (fold max xs x)"

definition allocate_id :: "row list \<Rightarrow> exn + int" where
  "allocate_id existing =
     (if existing \<noteq> [] then
        (case row_ids existing of
           Inl e \<Rightarrow> Inl e
         | Inr ids \<Rightarrow> (case py_max ids of Inl e \<Rightarrow> Inl e | Inr m \<Rightarrow> Inr (m + 1)))
      else Inr 1)"

section \<open>RequirementSpec creation (page_pm_meeting_srs, lines 277-315)\<close>

text \<open>
  The handler of the form "create SRS" for the meeting selected on the page. The worksheet
  \<open>srs_index\<close> was ensured when the page opened (line 193). The model ends with the
  rewrite of \<open>srs_index\<close>; the provisioning of the child worksheets that follows
  (lines 317-334) writes other worksheets.
\<close>

record srs_form =
  srs_title :: string
  srs_desc :: string
  srs_goal :: string
  srs_ui_loc :: string
  srs_ui_img_url :: string
  srs_version :: string
  srs_change_note :: string

definition srs_index_row :: "row \<Rightarrow> exn + cell list" where
  \<comment> \<open>The serialisation of a record of \<open>srs_index\<close> (lines 307-312 and 649-655).\<close>
  "srs_index_row s =
     (case dict_getitems s [''id'', ''meeting_id'', ''title'', ''desc'', ''problem'', ''goal'',
             ''ui_location'', ''ui_image_name'', ''version'', ''change_note'', ''created_at''] of
        Inl e \<Rightarrow> Inl e
      | Inr vs \<Rightarrow>
          Inr (vs @ [dict_get s ''status'' (CStr zh_pending), dict_get s ''review_comment'' (CStr '''')]))"

definition srs_new_row :: "int \<Rightarrow> int \<Rightarrow> srs_form \<Rightarrow> cell \<Rightarrow> string \<Rightarrow> cell list" where
  "srs_new_row new_id meeting_id f problem created =
     [CInt new_id, CInt meeting_id, CStr (srs_title f), CStr (srs_desc f), problem,
      CStr (srs_goal f), CStr (srs_ui_loc f), CStr (srs_ui_img_url f), CStr (srs_version f),
      CStr (srs_change_note f), CStr created, CStr zh_pending, CStr '''']"

datatype 'a outcome = Rejected ui_msg | Written 'a

definition srs_form_submit :: "row \<Rightarrow> srs_form \<Rightarrow> string \<Rightarrow> (cell list) outcome io" where
  \<comment> \<open>\<open>created\<close> is the clock reading \<open>now().strftime("%Y-%m-%d %H:%M:%S")\<close>. The result is
      the row appended to \<open>srs_index\<close>.\<close>
  "srs_form_submit sel_meeting f created =
     (if py_blank (srs_title f) then returnE (Rejected (StError msg_srs_title_required))
      else
        bindE (read_all ''srs_index'') (\<lambda>exist.
        bindE (liftE (allocate_id exist)) (\<lambda>new_id.
        bindE (liftE (dict_getitem sel_meeting ''raw_requirement'')) (\<lambda>problem.
        bindE (liftE (dict_getitem sel_meeting ''id'')) (\<lambda>mid.
        bindE (liftE (py_int mid)) (\<lambda>meeting_id.
        bindE (liftE (mapE srs_index_row exist)) (\<lambda>rows.
        bindE (rewrite_sheet ''srs_index'' SRS_INDEX_HEADERS
                 (rows @ [srs_new_row new_id meeting_id f problem created])) (\<lambda>_.
        returnE (Written (srs_new_row new_id meeting_id f problem created))))))))))"

section \<open>Task (engineer report) creation (page_engineer, lines 442-548)\<close>

text \<open>
  The page run for the RequirementSpec \<open>srs_id\<close> selected on the page, from the reading
  of its PM-Subtask worksheet to the success message. The Blob Store upload
  \<open>upload_to_dropbox(path, bytes)\<close> (lines 86-109) calls the Dropbox client, which is
  not part of the repository; it is a parameter that returns a URL or raises, and it
  does not touch the spreadsheet.
\<close>

type_synonym dataframe = "cell list \<times> cell list list"

definition df_empty :: "dataframe \<Rightarrow> bool" where
  \<comment> \<open>\<open>df.empty\<close>: no column or no row.\<close>
  "df_empty df = (fst df = [] \<or> snd df = [])"

definition first_cell :: "cell list \<Rightarrow> cell" where
  \<comment> \<open>pandas pads a short row with missing values.\<close>
  "first_cell r = (case r of [] \<Rightarrow> CNone | c # _ \<Rightarrow> c)"

definition load_pm_subtasks :: "int \<Rightarrow> (ui_msg list \<times> dataframe) io" where
  \<comment> \<open>Lines 442-457: the messages shown and \<open>df_pm\<close>.\<close>
  "load_pm_subtasks srs_id =
     try_except
       (bindE (sh_worksheet (pm_tasks_title srs_id)) (\<lambda>ws_pm.
        bindE (ws_get_all_values ws_pm) (\<lambda>pm_values.
          case pm_values of
            columns # r # rs \<Rightarrow> returnE ([], (columns, r # rs))
          | _ \<Rightarrow> returnE ([StInfo msg_no_pm_subtasks], ([], [])))))
       is_WorksheetNotFound
       (returnE ([StInfo msg_no_pm_sheet], ([], [])))"

definition pm_subtasks_of :: "dataframe \<Rightarrow> cell list" where
  \<comment> \<open>Line 469: \<open>df_pm.iloc[:, 0].tolist() if not df_pm.empty else []\<close>\<close>
  "pm_subtasks_of df_pm = (if \<not> df_empty df_pm then map first_cell (snd df_pm) else [])"

record report_form =
  pick_subtask :: nat
  pick_understand :: nat
  est_hours :: rat
  start_date :: date
  end_date :: date
  result_files :: "(string \<times> string \<times> int) list"
  submitted :: bool

definition subtask_options :: "cell list \<Rightarrow> cell list" where
  \<comment> \<open>Line 474: \<open>pm_subtasks if pm_subtasks else [placeholder]\<close>\<close>
  "subtask_options pm_subtasks = (if pm_subtasks \<noteq> [] then pm_subtasks else [CStr zh_no_subtask])"

primrec upload_results ::
  "(string \<Rightarrow> string \<Rightarrow> exn + string) \<Rightarrow> int \<Rightarrow> int \<Rightarrow> (string \<times> string \<times> int) list
     \<Rightarrow> exn + string list"
where
  \<comment> \<open>Lines 509-516. A file is its name, its content and the clock reading
      \<open>int(now().timestamp())\<close> taken when it is uploaded.\<close>
  "upload_results upload_to_dropbox srs_id new_id [] = Inr []"
| "upload_results upload_to_dropbox srs_id new_id (f # fs) =
     (case upload_to_dropbox
             (''/pm_system/srs_result/SRS_'' @ str_int srs_id @ ''/''
                @ str_int new_id @ ''_'' @ str_int (snd (snd f)) @ ''_'' @ fst f)
             (fst (snd f)) of
        Inl e \<Rightarrow> Inl e
      | Inr url \<Rightarrow>
          (case upload_results upload_to_dropbox srs_id new_id fs of
             Inl e \<Rightarrow> Inl e
           | Inr urls \<Rightarrow> Inr (url # urls)))"

definition result_url_of :: "string list \<Rightarrow> string" where
  \<comment> \<open>Line 518: the URLs joined by newlines.\<close>
  "result_url_of upload_urls = (if upload_urls \<noteq> [] then py_join [CHR 0x0A] upload_urls else [])"

definition report_new_row :: "int \<Rightarrow> cell \<Rightarrow> string \<Rightarrow> report_form \<Rightarrow> string \<Rightarrow> cell list" where
  \<comment> \<open>Lines 523-535.\<close>
  "report_new_row new_id subtask_name understand_status f result_url =
     [CInt new_id,
      subtask_name,
      CStr '''',
      CStr ''Engineer'',
      CFloat (est_hours f),
      CStr (isoformat (start_date f)),
      CStr (isoformat (end_date f)),
      CStr understand_status,
      CStr (if understand_status = zh_understood then zh_in_progress else zh_waiting),
      CStr zh_pending,
      CStr result_url]"

definition task_row :: "row \<Rightarrow> exn + cell list" where
  \<comment> \<open>Lines 539-544: the serialisation of an existing task.\<close>
  "task_row t =
     dict_getitems t [''id'', ''name'', ''description'', ''engineer'', ''estimated_hours'',
       ''start_date'', ''end_date'', ''engineer_understand_status'', ''done_status'',
       ''client_status'', ''result_url'']"

definition submit_report ::
  "(string \<Rightarrow> string \<Rightarrow> exn + string) \<Rightarrow> int \<Rightarrow> string \<Rightarrow> row list \<Rightarrow> cell \<Rightarrow> string \<Rightarrow> report_form
     \<Rightarrow> unit io"
where
  \<comment> \<open>Lines 501-547, the body of \<open>if submitted\<close>.\<close>
  "submit_report upload_to_dropbox srs_id ws_engineer existing_tasks subtask_name understand_status f =
     bindE (liftE (allocate_id existing_tasks)) (\<lambda>new_id.
     bindE (liftE (upload_results upload_to_dropbox srs_id new_id (result_files f))) (\<lambda>upload_urls.
     bindE (liftE (mapE task_row existing_tasks)) (\<lambda>rows.
     rewrite_sheet ws_engineer TASK_HEADERS
       (rows @ [report_new_row new_id subtask_name understand_status f (result_url_of upload_urls)]))))"

definition page_engineer_report ::
  "(string \<Rightarrow> string \<Rightarrow> exn + string) \<Rightarrow> int \<Rightarrow> report_form \<Rightarrow> ui_msg list io"
where
  "page_engineer_report upload_to_dropbox srs_id f =
     bindE (load_pm_subtasks srs_id) (\<lambda>pm.
     bindE (ensure_worksheet (srs_tasks_title srs_id) TASK_HEADERS) (\<lambda>ws_engineer.
     bindE (read_all ws_engineer) (\<lambda>existing_tasks.
       if submitted f then
         bindE (submit_report upload_to_dropbox srs_id ws_engineer existing_tasks
                  (st_selectbox (subtask_options (pm_subtasks_of (snd pm))) (pick_subtask f))
                  (st_selectbox [zh_understood, zh_need_more] (pick_understand f)) f) (\<lambda>_.
         returnE (fst pm @ [StSuccess msg_reported]))
       else returnE (fst pm))))"

section \<open>Spec review (page_client_srs_review, lines 641-677)\<close>

text \<open>
  The handler of the button that saves a review of the RequirementSpec \<open>srs_id\<close> selected
  on the page. \<open>pick_status\<close> is the position picked in the radio of line 634.
\<close>

definition review_row :: "int \<Rightarrow> string \<Rightarrow> string \<Rightarrow> row \<Rightarrow> exn + cell list" where
  \<comment> \<open>Lines 646-655, the body of the loop.\<close>
  "review_row srs_id new_status new_comment x =
     (case dict_getitem x ''id'' of
        Inl e \<Rightarrow> Inl e
      | Inr c \<Rightarrow>
          (case py_int c of
             Inl e \<Rightarrow> Inl e
           | Inr i \<Rightarrow>
               srs_index_row
                 (if i = srs_id
                  then x(''status'' \<mapsto> CStr new_status, ''review_comment'' \<mapsto> CStr new_comment)
                  else x)))"

definition overview_row :: "string \<Rightarrow> string \<Rightarrow> row \<Rightarrow> cell list" where
  \<comment> \<open>Lines 665-671, the body of the loop.\<close>
  "overview_row new_status new_comment r =
     (let k = dict_get r zh_field_name CNone in
      if k = CStr zh_review_status then [k, CStr new_status]
      else if k = CStr zh_review_comment then [k, CStr new_comment]
      else [k, dict_get r zh_field_value CNone])"

definition mirror_overview_body :: "int \<Rightarrow> string \<Rightarrow> string \<Rightarrow> unit io" where
  \<comment> \<open>Lines 660-673, the \<open>try\<close> block.\<close>
  "mirror_overview_body srs_id new_status new_comment =
     bindE (sh_worksheet (srs_overview_title srs_id)) (\<lambda>ws_over.
     bindE (read_all ws_over) (\<lambda>ov.
     rewrite_sheet ws_over SRS_OVERVIEW_HEADERS (map (overview_row new_status new_comment) ov)))"

definition mirror_overview :: "int \<Rightarrow> string \<Rightarrow> string \<Rightarrow> unit io" where
  \<comment> \<open>Lines 659-675: \<open>try: ... except: pass\<close>.\<close>
  "mirror_overview srs_id new_status new_comment =
     try_except (mirror_overview_body srs_id new_status new_comment) (\<lambda>e. True) (returnE ())"

definition srs_review_save :: "int \<Rightarrow> nat \<Rightarrow> string \<Rightarrow> ui_msg io" where
  "srs_review_save srs_id pick_status new_comment =
     bindE (read_all ''srs_index'') (\<lambda>srs_list.
     bindE (liftE (mapE (review_row srs_id (st_selectbox [zh_pending, zh_approved] pick_status)
                           new_comment) srs_list)) (\<lambda>updated_rows.
     bindE (rewrite_sheet ''srs_index'' SRS_INDEX_HEADERS updated_rows) (\<lambda>_.
     bindE (mirror_overview srs_id (st_selectbox [zh_pending, zh_approved] pick_status) new_comment) (\<lambda>_.
     returnE (StSuccess msg_review_saved)))))"

section \<open>Task review (page_client_task_review, lines 702-772)\<close>

definition task_review_row :: "(int \<Rightarrow> nat) \<Rightarrow> row \<Rightarrow> exn + cell list" where
  \<comment> \<open>Lines 726-768. \<open>pick tid\<close> is the position picked in the selectbox of task \<open>tid\<close>.\<close>
  "task_review_row pick t =
     (case dict_getitem t ''id'' of
        Inl e \<Rightarrow> Inl e
      | Inr c \<Rightarrow>
          (case py_int c of
             Inl e \<Rightarrow> Inl e
           | Inr tid \<Rightarrow>
               Inr [CInt tid,
                    dict_get t ''name'' (CStr ''''),
                    dict_get t ''description'' (CStr ''''),
                    dict_get t ''engineer'' (CStr ''''),
                    dict_get t ''estimated_hours'' (CStr ''''),
                    dict_get t ''start_date'' (CStr ''''),
                    dict_get t ''end_date'' (CStr ''''),
                    dict_get t ''engineer_understand_status'' (CStr ''''),
                    dict_get t ''done_status'' (CStr ''''),
                    CStr (st_selectbox [zh_pending, zh_approved] (pick tid)),
                    dict_get t ''result_url'' (CStr '''')]))"

definition page_client_task_review :: "int \<Rightarrow> (int \<Rightarrow> nat) \<Rightarrow> bool \<Rightarrow> ui_msg list io" where
  \<comment> \<open>\<open>save\<close>: the button that saves all reviews was pressed.\<close>
  "page_client_task_review srs_id pick save =
     bindE (try_except
              (bindE (sh_worksheet (srs_tasks_title srs_id)) (\<lambda>ws_tasks.
               bindE (read_all ws_tasks) (\<lambda>tasks. returnE (Some (ws_tasks, tasks)))))
              is_WorksheetNotFound
              (returnE None)) (\<lambda>found.
       case found of
         None \<Rightarrow> returnE [StInfo msg_no_tasks]
       | Some (ws_tasks, tasks) \<Rightarrow>
           bindE (liftE (mapE (task_review_row pick) tasks)) (\<lambda>updated_rows.
             if save then
               bindE (rewrite_sheet ws_tasks TASK_HEADERS updated_rows) (\<lambda>_.
               returnE [StSuccess msg_task_review_saved])
             else returnE []))"

section \<open>Overdue flag (page_dashboard, lines 879-889)\<close>

definition task_overdue :: "(cell \<Rightarrow> exn + date) \<Rightarrow> date \<Rightarrow> row \<Rightarrow> string" where
  \<comment> \<open>The parameters are \<open>datetime.date.fromisoformat\<close> and \<open>datetime.date.today()\<close>;
      every exception of the comparison is swallowed by the bare \<open>except\<close>.\<close>
  "task_overdue fromisoformat today t =
     (let end_d = dict_get t ''end_date'' CNone;
          done_status = dict_get t ''done_status'' (CStr '''')
      in if truthy end_d \<and> done_status \<noteq> CStr zh_done then
           (case fromisoformat end_d of
              Inl e \<Rightarrow> ''''
            | Inr d \<Rightarrow> if date_lt d today then zh_overdue else '''')
         else '''')"


section \<open>Example tables\<close>

text \<open>
  One spreadsheet with a RequirementSpec, its Overview, its PM-Subtask list and one
  reviewed task, and the inputs of one run of each operation. The theorems below are
  instantiated on them.
\<close>

definition demo_index :: worksheet where
  "demo_index =
     \<lparr>ws_header = SRS_INDEX_HEADERS,
      ws_body = [[CInt 1, CInt 1, CStr ''Export CSV'', CStr '''', CStr ''Need a report export feature'',
                  CStr '''', CStr '''', CStr '''', CStr ''v0.1'', CStr '''', CStr ''2024-01-02 10:00:00'',
                  CStr zh_pending, CStr '''']]\<rparr>"

definition demo_overview :: worksheet where
  "demo_overview =
     \<lparr>ws_header = SRS_OVERVIEW_HEADERS,
      ws_body = [[CStr ''SRS ID'', CInt 1],
                 [CStr zh_review_status, CStr zh_pending],
                 [CStr zh_review_comment, CStr '''']]\<rparr>"

definition demo_pm :: worksheet where
  "demo_pm = \<lparr>ws_header = [''subtask''], ws_body = [[CStr ''Design API'']]\<rparr>"

definition demo_tasks :: worksheet where
  "demo_tasks =
     \<lparr>ws_header = TASK_HEADERS,
      ws_body = [[CInt 1, CStr ''Design API'', CStr '''', CStr ''Engineer'', CFloat 2,
                  CStr ''2020-01-01'', CStr ''2020-01-05'', CStr zh_need_more, CStr zh_waiting,
                  CStr zh_approved, CStr ''https://dl.example/a.png?raw=1'']]\<rparr>"

definition demo_world :: world where
  "demo_world =
     \<lparr>sheets = [''srs_index'' \<mapsto> demo_index, srs_overview_title 1 \<mapsto> demo_overview,
                 pm_tasks_title 1 \<mapsto> demo_pm, srs_tasks_title 1 \<mapsto> demo_tasks],
      faults = [], slept = []\<rparr>"

definition demo_meeting :: row where
  "demo_meeting =
     [''id'' \<mapsto> CInt 1, ''date'' \<mapsto> CStr ''2024-01-01'', ''title'' \<mapsto> CStr ''Kickoff'',
      ''raw_requirement'' \<mapsto> CStr ''Need a report export feature'']"

definition demo_srs_form :: srs_form where
  "demo_srs_form =
     \<lparr>srs_title = ''Export PDF'', srs_desc = '''', srs_goal = '''', srs_ui_loc = '''',
      srs_ui_img_url = '''', srs_version = ''v0.1'', srs_change_note = ''''\<rparr>"

definition demo_report :: report_form where
  "demo_report =
     \<lparr>pick_subtask = 0, pick_understand = 0, est_hours = 3 / 2,
      start_date = Date 2024 3 1, end_date = Date 2024 3 8,
      result_files = [(''out.csv'', ''a,b'', 1700000000)], submitted = True\<rparr>"

definition demo_upload :: "string \<Rightarrow> string \<Rightarrow> exn + string" where
  "demo_upload path content = Inr (''https://dl.example'' @ path @ ''?raw=1'')"

definition demo_world_no_subtasks :: world where
  \<comment> \<open>The example spreadsheet before any subtask is listed: the PM-Subtask worksheet
      holds its header row only.\<close>
  "demo_world_no_subtasks =
     \<lparr>sheets = [''srs_index'' \<mapsto> demo_index, srs_overview_title 1 \<mapsto> demo_overview,
                 pm_tasks_title 1 \<mapsto> \<lparr>ws_header = [''subtask''], ws_body = []\<rparr>,
                 srs_tasks_title 1 \<mapsto> demo_tasks],
      faults = [], slept = []\<rparr>"

section \<open>Sequencing, the spreadsheet API and the retry wrapper: basic facts\<close>

lemma bindE_Inr:
  "bindE m f w = (Inr y, w') \<longleftrightarrow> (\<exists>x w1. m w = (Inr x, w1) \<and> f x w1 = (Inr y, w'))"
  by (auto simp: bindE_def split: prod.splits sum.splits)

lemma bindE_ok: "m w = (Inr x, w1) \<Longrightarrow> bindE m f w = f x w1"
  by (simp add: bindE_def)

lemma bindE_fail: "m w = (Inl e, w1) \<Longrightarrow> bindE m f w = (Inl e, w1)"
  by (simp add: bindE_def)

lemma liftE_Inr: "liftE r w = (Inr x, w') \<longleftrightarrow> r = Inr x \<and> w' = w"
  by (auto simp: liftE_def)

lemma returnE_Inr: "returnE x w = (Inr y, w') \<longleftrightarrow> y = x \<and> w' = w"
  by (auto simp: returnE_def)

lemma time_sleep_fields [simp]:
  "sheets (time_sleep d w) = sheets w" "faults (time_sleep d w) = faults w"
  "slept (time_sleep d w) = slept w @ [d]"
  by (simp_all add: time_sleep_def)

lemma api_call_Inr:
  "api_call op w = (Inr x, w') \<Longrightarrow> op (sheets w) = Inr (x, sheets w')"
  by (auto simp: api_call_def split: list.splits option.splits sum.splits prod.splits)

lemma api_call_Inl:
  "api_call op w = (Inl e, w') \<Longrightarrow> sheets w' = sheets w"
  by (auto simp: api_call_def split: list.splits option.splits sum.splits prod.splits)

lemma with_retry_loop_Inr:
  "with_retry_loop js (api_call op) w = (Inr x, w') \<Longrightarrow> op (sheets w) = Inr (x, sheets w')"
proof (induction js arbitrary: w)
  case Nil
  then show ?case by simp
next
  case (Cons j js)
  show ?case
  proof (cases "api_call op w")
    case (Pair r w1)
    show ?thesis
    proof (cases r)
      case (Inr v)
      with Pair Cons.prems show ?thesis
        by (simp add: api_call_Inr)
    next
      case (Inl e)
      with Pair have s: "sheets w1 = sheets w"
        by (simp add: api_call_Inl)
      from Inl Pair Cons.prems
      have "with_retry_loop js (api_call op) (time_sleep (retry_delay j) w1) = (Inr x, w')"
        by (simp split: if_splits)
      from Cons.IH [OF this] s show ?thesis by simp
    qed
  qed
qed

lemma with_retry_loop_Inl:
  "with_retry_loop js (api_call op) w = (Inl e, w') \<Longrightarrow> sheets w' = sheets w"
proof (induction js arbitrary: w)
  case Nil
  then show ?case by simp
next
  case (Cons j js)
  show ?case
  proof (cases "api_call op w")
    case (Pair r w1)
    show ?thesis
    proof (cases r)
      case (Inr v)
      with Pair Cons.prems show ?thesis by simp
    next
      case (Inl e1)
      with Pair have s: "sheets w1 = sheets w"
        by (simp add: api_call_Inl)
      show ?thesis
      proof (cases "rate_limit_signal e1")
        case True
        with Inl Pair Cons.prems
        have "with_retry_loop js (api_call op) (time_sleep (retry_delay j) w1) = (Inl e, w')"
          by simp
        from Cons.IH [OF this] s show ?thesis by simp
      next
        case False
        with Inl Pair Cons.prems s show ?thesis by simp
      qed
    qed
  qed
qed

lemma with_retry_Inr:
  "with_retry (api_call op) w = (Inr x, w') \<Longrightarrow> op (sheets w) = Inr (x, sheets w')"
  unfolding with_retry_def by (rule with_retry_loop_Inr)

lemma with_retry_Inl:
  "with_retry (api_call op) w = (Inl e, w') \<Longrightarrow> sheets w' = sheets w"
  unfolding with_retry_def by (rule with_retry_loop_Inl)

lemma upt_5: "[0..<5] = [0, 1, 2, 3, 4]"
  by (simp add: upt_rec)

lemma with_retry_first:
  assumes "func w = (r, w1)" and "case r of Inl e \<Rightarrow> \<not> rate_limit_signal e | Inr v \<Rightarrow> True"
  shows "with_retry func w = (r, w1)"
  using assms by (cases r) (simp_all add: with_retry_def upt_5)

lemma api_call_clear:
  "faults w = [] \<Longrightarrow>
   api_call op w = (case op (sheets w) of Inl e \<Rightarrow> (Inl e, w) | Inr (x, b) \<Rightarrow> (Inr x, w\<lparr>sheets := b\<rparr>))"
  by (simp add: api_call_def split: sum.splits prod.splits)

lemma on_sheet_Some: "b ws = Some s \<Longrightarrow> on_sheet ws f b = Inr (fst (f s), b(ws \<mapsto> snd (f s)))"
  by (simp add: on_sheet_def)

lemma on_sheet_Inr:
  "on_sheet ws f b = Inr (x, b') \<Longrightarrow> \<exists>s. b ws = Some s \<and> x = fst (f s) \<and> b' = b(ws \<mapsto> snd (f s))"
  by (auto simp: on_sheet_def split: option.splits)

lemma read_all_Inr:
  assumes "read_all ws w = (Inr rs, w')"
  shows "sheets w' = sheets w \<and> (\<exists>s. sheets w ws = Some s \<and> rs = records_of s)"
proof -
  from assms have "on_sheet ws (\<lambda>s. (records_of s, s)) (sheets w) = Inr (rs, sheets w')"
    unfolding read_all_def ws_get_all_records_def by (rule with_retry_Inr)
  from on_sheet_Inr [OF this] show ?thesis
    by (auto simp: fun_upd_idem)
qed

lemma overlay_Nil [simp]: "overlay xs [] = xs"
  by (simp add: overlay_def)

lemma overlay_rows_Nil [simp]: "overlay_rows rows [] = rows"
  by (cases rows) simp_all

lemma rewrite_sheet_Inr:
  assumes "rewrite_sheet ws headers rows w = (Inr u, w')"
  shows "sheets w ws \<noteq> None \<and> sheets w' = (sheets w)(ws \<mapsto> \<lparr>ws_header = headers, ws_body = rows\<rparr>)"
proof -
  from assms obtain w1 w2 where
    c: "with_retry (ws_clear ws) w = (Inr (), w1)" and
    h: "with_retry (ws_update_A1 ws headers) w1 = (Inr (), w2)" and
    b: "(if rows \<noteq> [] then with_retry (ws_update_A2 ws rows) else returnE ()) w2 = (Inr u, w')"
    unfolding rewrite_sheet_def by (auto simp: bindE_Inr)
  from c have "on_sheet ws (\<lambda>s. ((), \<lparr>ws_header = [], ws_body = []\<rparr>)) (sheets w) = Inr ((), sheets w1)"
    unfolding ws_clear_def by (rule with_retry_Inr)
  from on_sheet_Inr [OF this]
  have s0: "sheets w ws \<noteq> None" and s1: "sheets w1 = (sheets w)(ws \<mapsto> \<lparr>ws_header = [], ws_body = []\<rparr>)"
    by auto
  from h have "on_sheet ws (\<lambda>s. ((), s\<lparr>ws_header := overlay headers (ws_header s)\<rparr>)) (sheets w1)
      = Inr ((), sheets w2)"
    unfolding ws_update_A1_def by (rule with_retry_Inr)
  from on_sheet_Inr [OF this] s1
  have s2: "sheets w2 = (sheets w)(ws \<mapsto> \<lparr>ws_header = headers, ws_body = []\<rparr>)"
    by auto
  show ?thesis
  proof (cases "rows = []")
    case True
    with b s2 s0 show ?thesis by (simp add: returnE_def)
  next
    case False
    with b have "on_sheet ws (\<lambda>s. ((), s\<lparr>ws_body := overlay_rows rows (ws_body s)\<rparr>)) (sheets w2)
        = Inr (u, sheets w')"
      unfolding ws_update_A2_def by (simp add: with_retry_Inr)
    from on_sheet_Inr [OF this] s2 s0 show ?thesis
      by auto
  qed
qed

lemma read_all_clear:
  assumes "faults w = []" and "sheets w ws = Some s"
  shows "read_all ws w = (Inr (records_of s), w)"
proof -
  have "ws_get_all_records ws w = (Inr (records_of s), w)"
    using assms by (simp add: ws_get_all_records_def api_call_clear on_sheet_Some fun_upd_idem)
  then show ?thesis
    unfolding read_all_def by (simp add: with_retry_first)
qed

lemma rewrite_sheet_clear:
  assumes "faults w = []" and "sheets w ws = Some s"
  shows "rewrite_sheet ws headers rows w
    = (Inr (), w\<lparr>sheets := (sheets w)(ws \<mapsto> \<lparr>ws_header = headers, ws_body = rows\<rparr>)\<rparr>)"
proof -
  let ?w1 = "w\<lparr>sheets := (sheets w)(ws \<mapsto> \<lparr>ws_header = [], ws_body = []\<rparr>)\<rparr>"
  let ?w2 = "w\<lparr>sheets := (sheets w)(ws \<mapsto> \<lparr>ws_header = headers, ws_body = []\<rparr>)\<rparr>"
  let ?w3 = "w\<lparr>sheets := (sheets w)(ws \<mapsto> \<lparr>ws_header = headers, ws_body = rows\<rparr>)\<rparr>"
  have "ws_clear ws w = (Inr (), ?w1)"
    using assms by (simp add: ws_clear_def api_call_clear on_sheet_Some)
  then have c: "with_retry (ws_clear ws) w = (Inr (), ?w1)"
    by (simp add: with_retry_first)
  have "ws_update_A1 ws headers ?w1 = (Inr (), ?w2)"
    using assms by (simp add: ws_update_A1_def api_call_clear on_sheet_Some)
  then have h: "with_retry (ws_update_A1 ws headers) ?w1 = (Inr (), ?w2)"
    by (simp add: with_retry_first)
  have "ws_update_A2 ws rows ?w2 = (Inr (), ?w3)"
    using assms by (simp add: ws_update_A2_def api_call_clear on_sheet_Some)
  then have b: "with_retry (ws_update_A2 ws rows) ?w2 = (Inr (), ?w3)"
    by (simp add: with_retry_first)
  show ?thesis
    unfolding rewrite_sheet_def
    by (cases "rows = []") (simp_all add: bindE_def c h b returnE_def)
qed

section \<open>Records and rows\<close>

lemma dict_getitems_nth:
  "length ks = length vs \<Longrightarrow> (\<And>i. i < length ks \<Longrightarrow> m (ks ! i) = Some (vs ! i))
   \<Longrightarrow> dict_getitems m ks = Inr vs"
proof (induction ks arbitrary: vs)
  case Nil
  then show ?case by simp
next
  case (Cons k ks)
  then obtain v vs' where vs: "vs = v # vs'" by (cases vs) auto
  from Cons.prems(2) [of 0] vs have k: "m k = Some v" by simp
  have "dict_getitems m ks = Inr vs'"
  proof (rule Cons.IH)
    show "length ks = length vs'" using Cons.prems(1) vs by simp
  next
    fix i assume "i < length ks"
    then show "m (ks ! i) = Some (vs' ! i)"
      using Cons.prems(2) [of "Suc i"] vs by simp
  qed
  with k vs show ?case by (simp add: dict_getitem_def)
qed

lemma map_upds_nth:
  "distinct ks \<Longrightarrow> length ks = length vs \<Longrightarrow> i < length ks
   \<Longrightarrow> (m(ks [\<mapsto>] vs)) (ks ! i) = Some (vs ! i)"
proof (induction ks arbitrary: vs i m)
  case Nil
  then show ?case by simp
next
  case (Cons k ks)
  then obtain v vs' where vs: "vs = v # vs'" by (cases vs) auto
  show ?case
  proof (cases i)
    case 0
    with Cons.prems vs show ?thesis by (simp add: map_upds_apply_nontin)
  next
    case (Suc j)
    have "(m(k # ks [\<mapsto>] v # vs')) (ks ! j) = ((m(k \<mapsto> v))(ks [\<mapsto>] vs')) (ks ! j)"
      by (simp only: map_upds_Cons)
    also have "\<dots> = Some (vs' ! j)"
      using Cons.prems vs Suc by (intro Cons.IH) simp_all
    finally show ?thesis using vs Suc by simp
  qed
qed

lemma record_roundtrip:
  assumes "distinct hs" and "length r = length hs"
  shows "dict_getitems (Map.empty(hs [\<mapsto>] r @ replicate (length hs - length r) (CStr ''''))) hs = Inr r"
  using assms by (intro dict_getitems_nth) (simp_all add: map_upds_nth)

lemma mapE_map:
  "(\<And>x. x \<in> set xs \<Longrightarrow> f (g x) = Inr x) \<Longrightarrow> mapE f (map g xs) = Inr xs"
  by (induction xs) simp_all

lemma mapE_length: "mapE f xs = Inr ys \<Longrightarrow> length ys = length xs"
  by (induction xs arbitrary: ys) (auto split: sum.splits)

lemma mapE_nth: "mapE f xs = Inr ys \<Longrightarrow> i < length xs \<Longrightarrow> f (xs ! i) = Inr (ys ! i)"
proof (induction xs arbitrary: ys i)
  case Nil
  then show ?case by simp
next
  case (Cons x xs)
  then show ?case by (cases i) (auto split: sum.splits)
qed

lemma distinct_TASK_HEADERS: "distinct TASK_HEADERS" "length TASK_HEADERS = 11"
  by (simp_all add: TASK_HEADERS_def)

lemma distinct_SRS_INDEX_HEADERS: "distinct SRS_INDEX_HEADERS" "length SRS_INDEX_HEADERS = 13"
  by (simp_all add: SRS_INDEX_HEADERS_def)

lemma task_row_headers: "task_row t = dict_getitems t TASK_HEADERS"
  by (simp add: task_row_def TASK_HEADERS_def)

lemma task_rows_roundtrip:
  assumes "well_formed TASK_HEADERS s"
  shows "mapE task_row (records_of s) = Inr (ws_body s)"
  unfolding records_of_def
proof (rule mapE_map)
  fix r assume "r \<in> set (ws_body s)"
  with assms have "length r = length TASK_HEADERS" and "ws_header s = TASK_HEADERS"
    by (simp_all add: well_formed_def list_all_iff)
  then show "task_row (Map.empty(ws_header s [\<mapsto>] r @ replicate (length (ws_header s) - length r) (CStr ''''))) = Inr r"
    using record_roundtrip [OF distinct_TASK_HEADERS(1), of r] by (simp only: task_row_headers)
qed

lemma dict_getitems_append:
  "dict_getitems m (ks @ ks') =
     (case dict_getitems m ks of
        Inl e \<Rightarrow> Inl e
      | Inr vs \<Rightarrow> (case dict_getitems m ks' of Inl e \<Rightarrow> Inl e | Inr vs' \<Rightarrow> Inr (vs @ vs')))"
  by (induction ks) (auto split: sum.splits)

lemma SRS_INDEX_HEADERS_split:
  "SRS_INDEX_HEADERS =
     [''id'', ''meeting_id'', ''title'', ''desc'', ''problem'', ''goal'', ''ui_location'',
      ''ui_image_name'', ''version'', ''change_note'', ''created_at'']
     @ [''status'', ''review_comment'']"
  by (simp add: SRS_INDEX_HEADERS_def)

lemma srs_index_row_full:
  assumes "dict_getitems x SRS_INDEX_HEADERS = Inr r"
  shows "srs_index_row x = Inr r"
proof -
  let ?ks = "[''id'', ''meeting_id'', ''title'', ''desc'', ''problem'', ''goal'', ''ui_location'',
      ''ui_image_name'', ''version'', ''change_note'', ''created_at'']"
  from assms obtain vs vs' where
    vs: "dict_getitems x ?ks = Inr vs" and
    vs': "dict_getitems x [''status'', ''review_comment''] = Inr vs'" and r: "r = vs @ vs'"
    unfolding SRS_INDEX_HEADERS_split dict_getitems_append
    by (auto split: sum.splits)
  from vs' have "vs' = [dict_get x ''status'' (CStr zh_pending), dict_get x ''review_comment'' (CStr [])]"
    by (auto simp: dict_getitem_def dict_get_def split: option.splits)
  with vs r show ?thesis
    unfolding srs_index_row_def by simp
qed

lemma srs_rows_roundtrip:
  assumes "well_formed SRS_INDEX_HEADERS s"
  shows "mapE srs_index_row (records_of s) = Inr (ws_body s)"
  unfolding records_of_def
proof (rule mapE_map)
  fix r assume "r \<in> set (ws_body s)"
  with assms have "length r = length SRS_INDEX_HEADERS" and "ws_header s = SRS_INDEX_HEADERS"
    by (simp_all add: well_formed_def list_all_iff)
  then show "srs_index_row (Map.empty(ws_header s [\<mapsto>] r @ replicate (length (ws_header s) - length r) (CStr ''''))) = Inr r"
    using record_roundtrip [OF distinct_SRS_INDEX_HEADERS(1), of r] by (simp only: srs_index_row_full)
qed

section \<open>The engineer report without backend failures\<close>

lemma task_row_cells:
  assumes "task_row t = Inr r"
  shows "r = map (\<lambda>h. the (t h)) TASK_HEADERS \<and> list_all (\<lambda>h. t h \<noteq> None) TASK_HEADERS"
proof -
  have g: "dict_getitems t ks = Inr vs \<Longrightarrow> vs = map (\<lambda>h. the (t h)) ks \<and> list_all (\<lambda>h. t h \<noteq> None) ks"
    for ks vs
    by (induction ks arbitrary: vs) (auto simp: dict_getitem_def split: sum.splits option.splits)
  from assms show ?thesis
    unfolding task_row_headers by (rule g)
qed

lemma field_map:
  "distinct hs \<Longrightarrow> h \<in> set hs \<Longrightarrow> field hs h (map g hs) = Some (g h)"
  unfolding field_def by (induction hs) auto

lemma task_row_field:
  assumes "task_row t = Inr r" and "h \<in> set TASK_HEADERS"
  shows "field TASK_HEADERS h r = t h"
proof -
  from task_row_cells [OF assms(1)]
  have r: "r = map (\<lambda>h. the (t h)) TASK_HEADERS" and "list_all (\<lambda>h. t h \<noteq> None) TASK_HEADERS"
    by simp_all
  with assms(2) have "t h \<noteq> None" by (simp add: list_all_iff)
  then show ?thesis
    unfolding r using field_map [OF distinct_TASK_HEADERS(1) assms(2)] by auto
qed

lemma submit_report_writes:
  assumes "submit_report up srs_id ws existing name us f w = (Inr u, w')"
  shows "\<exists>new_id urls rows.
           allocate_id existing = Inr new_id
         \<and> upload_results up srs_id new_id (result_files f) = Inr urls
         \<and> mapE task_row existing = Inr rows
         \<and> sheets w ws \<noteq> None
         \<and> sheets w' = (sheets w)(ws \<mapsto>
              \<lparr>ws_header = TASK_HEADERS,
               ws_body = rows @ [report_new_row new_id name us f (result_url_of urls)]\<rparr>)"
proof -
  from assms obtain new_id urls rows where
    a: "allocate_id existing = Inr new_id" and
    b: "upload_results up srs_id new_id (result_files f) = Inr urls" and
    c: "mapE task_row existing = Inr rows" and
    d: "rewrite_sheet ws TASK_HEADERS
          (rows @ [report_new_row new_id name us f (result_url_of urls)]) w = (Inr u, w')"
    unfolding submit_report_def by (auto simp: bindE_Inr liftE_Inr)
  from rewrite_sheet_Inr [OF d] a b c show ?thesis by blast
qed

lemma submit_report_clear:
  assumes "faults w = []" and "sheets w ws = Some s"
    and "allocate_id existing = Inr new_id"
    and "upload_results up srs_id new_id (result_files f) = Inr urls"
    and "mapE task_row existing = Inr rows"
  shows "submit_report up srs_id ws existing name us f w
    = (Inr (), w\<lparr>sheets := (sheets w)(ws \<mapsto>
         \<lparr>ws_header = TASK_HEADERS,
          ws_body = rows @ [report_new_row new_id name us f (result_url_of urls)]\<rparr>)\<rparr>)"
  unfolding submit_report_def
  by (simp add: bindE_def liftE_def assms(3,4,5) rewrite_sheet_clear [OF assms(1,2)])

lemma sh_worksheet_clear:
  "faults w = [] \<Longrightarrow>
   sh_worksheet title w
     = (case sheets w title of None \<Rightarrow> (Inl (WorksheetNotFound title), w) | Some s \<Rightarrow> (Inr title, w))"
  by (simp add: sh_worksheet_def api_call_clear gs_worksheet_def split: option.splits)

lemma ws_get_all_values_clear:
  "faults w = [] \<Longrightarrow> sheets w ws = Some s \<Longrightarrow> ws_get_all_values ws w = (Inr (values_of s), w)"
  by (simp add: ws_get_all_values_def api_call_clear on_sheet_Some fun_upd_idem)

lemma load_pm_subtasks_missing:
  assumes "faults w = []" and "sheets w (pm_tasks_title srs_id) = None"
  shows "load_pm_subtasks srs_id w = (Inr ([StInfo msg_no_pm_sheet], ([], [])), w)"
  using assms
  by (simp add: load_pm_subtasks_def try_except_def bindE_def sh_worksheet_clear returnE_def)

lemma load_pm_subtasks_found:
  assumes "faults w = []" and "sheets w (pm_tasks_title srs_id) = Some s"
  shows "load_pm_subtasks srs_id w =
     (Inr (case values_of s of
             columns # r # rs \<Rightarrow> ([], (columns, r # rs))
           | _ \<Rightarrow> ([StInfo msg_no_pm_subtasks], ([], []))), w)"
  using assms
  by (simp add: load_pm_subtasks_def try_except_def bindE_def sh_worksheet_clear
        ws_get_all_values_clear returnE_def split: list.splits)

lemma load_pm_subtasks_clear:
  assumes "faults w = []"
  shows "\<exists>pm. load_pm_subtasks srs_id w = (Inr pm, w)"
proof (cases "sheets w (pm_tasks_title srs_id)")
  case None
  from load_pm_subtasks_missing [OF assms None] show ?thesis by blast
next
  case (Some s)
  from load_pm_subtasks_found [OF assms Some] show ?thesis by blast
qed

lemma ensure_worksheet_clear:
  assumes "faults w = []" and "sheets w title = Some s" and "ws_header s \<noteq> []"
  shows "ensure_worksheet title headers w = (Inr title, w)"
proof -
  have a: "with_retry (sh_worksheet title) w = (Inr title, w)"
    using assms by (intro with_retry_first) (simp_all add: sh_worksheet_clear)
  have b: "ws_row_values_1 title w = (Inr (ws_header s), w)"
    using assms by (simp add: ws_row_values_1_def api_call_clear on_sheet_Some fun_upd_idem)
  show ?thesis
    unfolding ensure_worksheet_def
    using assms(3) by (simp add: try_except_def bindE_def a b returnE_def)
qed

lemma page_engineer_report_clear:
  assumes "faults w = []"
    and "load_pm_subtasks srs_id w = (Inr pm, w)"
    and "sheets w (srs_tasks_title srs_id) = Some s" and "ws_header s \<noteq> []"
    and "allocate_id (records_of s) = Inr new_id"
    and "upload_results up srs_id new_id (result_files f) = Inr urls"
    and "mapE task_row (records_of s) = Inr rows"
    and "submitted f"
  shows "page_engineer_report up srs_id f w
    = (Inr (fst pm @ [StSuccess msg_reported]),
       w\<lparr>sheets := (sheets w)(srs_tasks_title srs_id \<mapsto>
         \<lparr>ws_header = TASK_HEADERS,
          ws_body = rows @ [report_new_row new_id
            (st_selectbox (subtask_options (pm_subtasks_of (snd pm))) (pick_subtask f))
            (st_selectbox [zh_understood, zh_need_more] (pick_understand f)) f
            (result_url_of urls)]\<rparr>)\<rparr>)"
  unfolding page_engineer_report_def
  by (simp add: bindE_def assms(2) ensure_worksheet_clear [OF assms(1,3,4)]
        read_all_clear [OF assms(1,3)] assms(8)
        submit_report_clear [OF assms(1,3,5,6,7)] returnE_def)

section \<open>The engineer report under any backend failures\<close>

lemma st_selectbox_mem: "options \<noteq> [] \<Longrightarrow> st_selectbox options pick \<in> set options"
  by (simp add: st_selectbox_def)

lemma ensure_worksheet_Inr:
  assumes "ensure_worksheet title headers w = (Inr ws, w')"
  shows "ws = title"
proof -
  have g: "with_retry (sh_worksheet title) v = (Inr x, v') \<Longrightarrow> x = title" for v v' x
    unfolding sh_worksheet_def
    by (drule with_retry_Inr) (auto simp: gs_worksheet_def split: option.splits)
  have a: "with_retry (sh_add_worksheet title) v = (Inr x, v') \<Longrightarrow> x = title" for v v' x
    unfolding sh_add_worksheet_def
    by (drule with_retry_Inr) (auto simp: gs_add_worksheet_def split: option.splits)
  from assms show ?thesis
    unfolding ensure_worksheet_def try_except_def
    by (auto simp: bindE_def returnE_def split: prod.splits sum.splits if_splits dest: g a)
qed

lemma page_engineer_report_writes:
  assumes "page_engineer_report up srs_id f w = (Inr msgs, w')" and "submitted f"
  shows "\<exists>pm existing new_id urls rows.
           allocate_id existing = Inr new_id
         \<and> mapE task_row existing = Inr rows
         \<and> msgs = fst pm @ [StSuccess msg_reported]
         \<and> sheets w' (srs_tasks_title srs_id) = Some
              \<lparr>ws_header = TASK_HEADERS,
               ws_body = rows @ [report_new_row new_id
                 (st_selectbox (subtask_options (pm_subtasks_of (snd pm))) (pick_subtask f))
                 (st_selectbox [zh_understood, zh_need_more] (pick_understand f)) f
                 (result_url_of urls)]\<rparr>"
proof -
  from assms obtain pm w1 ws w2 existing w3 u where
    e: "ensure_worksheet (srs_tasks_title srs_id) TASK_HEADERS w1 = (Inr ws, w2)" and
    s: "submit_report up srs_id ws existing
          (st_selectbox (subtask_options (pm_subtasks_of (snd pm))) (pick_subtask f))
          (st_selectbox [zh_understood, zh_need_more] (pick_understand f)) f w3 = (Inr u, w')" and
    m: "msgs = fst pm @ [StSuccess msg_reported]"
    unfolding page_engineer_report_def
    by (auto simp: bindE_Inr returnE_Inr)
  from ensure_worksheet_Inr [OF e] have ws: "ws = srs_tasks_title srs_id" .
  from submit_report_writes [OF s] m show ?thesis
    unfolding ws by fastforce
qed

lemma mapE_eq_map:
  "(\<And>x y. f x = Inr y \<Longrightarrow> y = g x) \<Longrightarrow> mapE f xs = Inr ys \<Longrightarrow> ys = map g xs"
  by (induction xs arbitrary: ys) (auto split: sum.splits)

lemma mapE_field:
  assumes "\<And>x y. f x = Inr y \<Longrightarrow> field hs h y = g x" and "mapE f xs = Inr ys"
  shows "map (field hs h) ys = map g xs"
  using assms(2) by (induction xs arbitrary: ys) (auto split: sum.splits dest: assms(1))

lemma report_new_row_fields:
  "field TASK_HEADERS ''id'' (report_new_row new_id name us f url) = Some (CInt new_id)"
  "field TASK_HEADERS ''name'' (report_new_row new_id name us f url) = Some name"
  "field TASK_HEADERS ''description'' (report_new_row new_id name us f url) = Some (CStr [])"
  "field TASK_HEADERS ''engineer'' (report_new_row new_id name us f url) = Some (CStr ''Engineer'')"
  "field TASK_HEADERS ''engineer_understand_status'' (report_new_row new_id name us f url) = Some (CStr us)"
  "field TASK_HEADERS ''done_status'' (report_new_row new_id name us f url)
     = Some (CStr (if us = zh_understood then zh_in_progress else zh_waiting))"
  "field TASK_HEADERS ''client_status'' (report_new_row new_id name us f url) = Some (CStr zh_pending)"
  "field TASK_HEADERS ''result_url'' (report_new_row new_id name us f url) = Some (CStr url)"
  by (simp_all add: field_def TASK_HEADERS_def report_new_row_def)

lemma task_review_row_fields:
  assumes "task_review_row pick t = Inr r"
  shows "field TASK_HEADERS ''done_status'' r = Some (dict_get t ''done_status'' (CStr []))"
    and "\<exists>tid. field TASK_HEADERS ''client_status'' r
           = Some (CStr (st_selectbox [zh_pending, zh_approved] (pick tid)))"
  using assms
  by (auto simp: task_review_row_def field_def TASK_HEADERS_def split: sum.splits)

lemma zh_distinct:
  "zh_pending \<noteq> zh_approved" "zh_understood \<noteq> zh_need_more" "zh_in_progress \<noteq> zh_waiting"
  "zh_in_progress \<noteq> zh_done" "zh_waiting \<noteq> zh_done"
  by (simp_all add: zh_pending_def zh_approved_def zh_understood_def zh_need_more_def
        zh_in_progress_def zh_waiting_def zh_done_def)

lemma selectbox_two: "st_selectbox [a, b] p = a \<or> st_selectbox [a, b] p = b"
  by (cases p) (auto simp: st_selectbox_def)

section \<open>The retry schedule\<close>

lemma api_call_fault:
  "faults w = Some e # fs \<Longrightarrow> api_call op w = (Inl e, w\<lparr>faults := fs\<rparr>)"
  by (simp add: api_call_def)

lemma api_call_through:
  "faults w = None # fs \<Longrightarrow>
   api_call op w = (case op (sheets w) of
                      Inl e \<Rightarrow> (Inl e, w\<lparr>faults := fs\<rparr>)
                    | Inr (x, b) \<Rightarrow> (Inr x, w\<lparr>sheets := b, faults := fs\<rparr>))"
  by (simp add: api_call_def split: sum.splits prod.splits)

lemma with_retry_loop_skip:
  assumes "list_all rate_limit_signal es" and "length es \<le> length js"
    and "faults w = map Some es @ rest"
  shows "with_retry_loop js (api_call op) w
    = with_retry_loop (drop (length es) js) (api_call op)
        (w\<lparr>faults := rest, slept := slept w @ map retry_delay (take (length es) js)\<rparr>)"
  using assms
proof (induction es arbitrary: js w)
  case Nil
  then have "w\<lparr>faults := rest, slept := slept w @ map retry_delay (take 0 js)\<rparr> = w"
    by simp
  then show ?case by simp
next
  case (Cons e es)
  then obtain j js' where js: "js = j # js'" by (cases js) auto
  let ?w1 = "w\<lparr>faults := map Some es @ rest\<rparr>"
  let ?w2 = "time_sleep (retry_delay j) ?w1"
  have c: "api_call op w = (Inl e, ?w1)"
    using Cons.prems(3) by (simp add: api_call_fault)
  have r: "rate_limit_signal e" using Cons.prems(1) by simp
  have "with_retry_loop js (api_call op) w = with_retry_loop js' (api_call op) ?w2"
    unfolding js by (simp add: c r)
  also have "\<dots> = with_retry_loop (drop (length es) js') (api_call op)
        (?w2\<lparr>faults := rest, slept := slept ?w2 @ map retry_delay (take (length es) js')\<rparr>)"
    using Cons.prems by (intro Cons.IH) (simp_all add: js)
  also have "?w2\<lparr>faults := rest, slept := slept ?w2 @ map retry_delay (take (length es) js')\<rparr>
      = w\<lparr>faults := rest, slept := slept w @ map retry_delay (take (length (e # es)) js)\<rparr>"
    by (simp add: js time_sleep_def)
  finally show ?case by (simp add: js)
qed

lemma take_upt_5: "k \<le> 5 \<Longrightarrow> take k [0..<5] = [0..<k]"
  by simp

lemma with_retry_success_after:
  assumes "list_all rate_limit_signal es" and "length es < 5"
    and "faults w = map Some es @ None # rest" and "op (sheets w) = Inr (x, b)"
  shows "with_retry (api_call op) w
    = (Inr x, w\<lparr>sheets := b, faults := rest, slept := slept w @ map retry_delay [0..<length es]\<rparr>)"
proof -
  let ?w1 = "w\<lparr>faults := None # rest, slept := slept w @ map retry_delay (take (length es) [0..<5])\<rparr>"
  from assms(2) obtain j js where d: "drop (length es) [0..<5] = j # js"
    by (cases "drop (length es) [0..<5]") auto
  have "with_retry (api_call op) w = with_retry_loop (drop (length es) [0..<5]) (api_call op) ?w1"
    unfolding with_retry_def using assms by (intro with_retry_loop_skip) simp_all
  also have "\<dots> = (Inr x, ?w1\<lparr>sheets := b, faults := rest\<rparr>)"
    unfolding d using assms(4) by (simp add: api_call_through)
  finally show ?thesis using assms(2) by (simp add: take_upt_5)
qed

lemma with_retry_other_failure:
  assumes "list_all rate_limit_signal es" and "length es < 5"
    and "faults w = map Some es @ Some e # rest" and "\<not> rate_limit_signal e"
  shows "with_retry (api_call op) w
    = (Inl e, w\<lparr>faults := rest, slept := slept w @ map retry_delay [0..<length es]\<rparr>)"
proof -
  let ?w1 = "w\<lparr>faults := Some e # rest, slept := slept w @ map retry_delay (take (length es) [0..<5])\<rparr>"
  from assms(2) obtain j js where d: "drop (length es) [0..<5] = j # js"
    by (cases "drop (length es) [0..<5]") auto
  have "with_retry (api_call op) w = with_retry_loop (drop (length es) [0..<5]) (api_call op) ?w1"
    unfolding with_retry_def using assms by (intro with_retry_loop_skip) simp_all
  also have "\<dots> = (Inl e, ?w1\<lparr>faults := rest\<rparr>)"
    unfolding d using assms(4) by (simp add: api_call_fault)
  finally show ?thesis using assms(2) by (simp add: take_upt_5)
qed

lemma with_retry_exhausted:
  assumes "list_all rate_limit_signal es" and "length es = 5"
    and "faults w = map Some es @ rest"
  shows "with_retry (api_call op) w
    = (Inl (Exception msg_retry_exhausted),
       w\<lparr>faults := rest, slept := slept w @ [12 / 10, 22 / 10, 32 / 10, 42 / 10, 52 / 10]\<rparr>)"
proof -
  have "with_retry (api_call op) w = with_retry_loop (drop (length es) [0..<5]) (api_call op)
      (w\<lparr>faults := rest, slept := slept w @ map retry_delay (take (length es) [0..<5])\<rparr>)"
    unfolding with_retry_def using assms by (intro with_retry_loop_skip) simp_all
  moreover have "map retry_delay [0..<5] = [12 / 10, 22 / 10, 32 / 10, 42 / 10, 52 / 10]"
    by (simp add: retry_delay_def upt_5)
  ultimately show ?thesis using assms(2) by simp
qed

section \<open>The spec review: what each step touches\<close>

lemma with_retry_on_sheet_frame:
  assumes "with_retry (api_call (on_sheet ws f)) w = (r, w')" and "t \<noteq> ws"
  shows "sheets w' t = sheets w t"
proof (cases r)
  case (Inl e)
  with assms(1) show ?thesis by (simp add: with_retry_Inl)
next
  case (Inr x)
  with assms(1) have "on_sheet ws f (sheets w) = Inr (x, sheets w')"
    by (simp add: with_retry_Inr)
  from on_sheet_Inr [OF this] assms(2) show ?thesis by auto
qed

lemma rewrite_sheet_frame:
  assumes "rewrite_sheet ws headers rows w = (r, w')" and "t \<noteq> ws"
  shows "sheets w' t = sheets w t"
proof -
  obtain r1 w1 where c: "with_retry (ws_clear ws) w = (r1, w1)" by force
  have s1: "sheets w1 t = sheets w t"
    using c assms(2) unfolding ws_clear_def by (rule with_retry_on_sheet_frame)
  show ?thesis
  proof (cases r1)
    case (Inl e)
    with c assms(1) s1 show ?thesis by (simp add: rewrite_sheet_def bindE_def)
  next
    case (Inr u1)
    obtain r2 w2 where h: "with_retry (ws_update_A1 ws headers) w1 = (r2, w2)" by force
    have s2: "sheets w2 t = sheets w1 t"
      using h assms(2) unfolding ws_update_A1_def by (rule with_retry_on_sheet_frame)
    show ?thesis
    proof (cases r2)
      case (Inl e)
      with c Inr h assms(1) s1 s2 show ?thesis by (simp add: rewrite_sheet_def bindE_def)
    next
      case (Inr u2)
      show ?thesis
      proof (cases "rows = []")
        case True
        with c \<open>r1 = Inr u1\<close> h Inr assms(1) s1 s2 show ?thesis
          by (simp add: rewrite_sheet_def bindE_def returnE_def)
      next
        case False
        with c \<open>r1 = Inr u1\<close> h Inr assms(1)
        have "with_retry (ws_update_A2 ws rows) w2 = (r, w')"
          by (simp add: rewrite_sheet_def bindE_def)
        then have "sheets w' t = sheets w2 t"
          using assms(2) unfolding ws_update_A2_def by (rule with_retry_on_sheet_frame)
        with s1 s2 show ?thesis by simp
      qed
    qed
  qed
qed

lemma sh_worksheet_result:
  assumes "sh_worksheet title w = (r, w')"
  shows "sheets w' = sheets w \<and> (\<forall>ws. r = Inr ws \<longrightarrow> ws = title \<and> sheets w title \<noteq> None)"
proof (cases r)
  case (Inl e)
  with assms show ?thesis by (simp add: sh_worksheet_def api_call_Inl)
next
  case (Inr ws)
  with assms have "gs_worksheet title (sheets w) = Inr (ws, sheets w')"
    by (simp add: sh_worksheet_def api_call_Inr)
  with Inr show ?thesis by (auto simp: gs_worksheet_def split: option.splits)
qed

lemma read_all_sheets:
  assumes "read_all ws w = (r, w')"
  shows "sheets w' = sheets w"
proof (cases r)
  case (Inl e)
  with assms show ?thesis by (simp add: read_all_def ws_get_all_records_def with_retry_Inl)
next
  case (Inr x)
  with assms show ?thesis by (simp add: read_all_Inr)
qed

lemma mirror_overview_body_frame:
  assumes "mirror_overview_body srs_id st c w = (r, w')" and "t \<noteq> srs_overview_title srs_id"
  shows "sheets w' t = sheets w t"
proof -
  obtain r1 w1 where a: "sh_worksheet (srs_overview_title srs_id) w = (r1, w1)" by force
  from sh_worksheet_result [OF a]
  have s1: "sheets w1 = sheets w" and t1: "\<And>ws. r1 = Inr ws \<Longrightarrow> ws = srs_overview_title srs_id"
    by auto
  show ?thesis
  proof (cases r1)
    case (Inl e)
    with a assms(1) s1 show ?thesis by (simp add: mirror_overview_body_def bindE_def)
  next
    case (Inr ws)
    with t1 have ws: "ws = srs_overview_title srs_id" by simp
    obtain r2 w2 where b: "read_all ws w1 = (r2, w2)" by force
    from read_all_sheets [OF b] have s2: "sheets w2 = sheets w1" .
    show ?thesis
    proof (cases r2)
      case (Inl e)
      with a \<open>r1 = Inr ws\<close> b assms(1) s1 s2 show ?thesis
        by (simp add: mirror_overview_body_def bindE_def)
    next
      case (Inr ov)
      with a \<open>r1 = Inr ws\<close> b assms(1)
      have "rewrite_sheet ws SRS_OVERVIEW_HEADERS (map (overview_row st c) ov) w2 = (r, w')"
        by (simp add: mirror_overview_body_def bindE_def)
      from rewrite_sheet_frame [OF this] assms(2) ws s1 s2 show ?thesis by simp
    qed
  qed
qed

lemma mirror_overview_swallows:
  "\<exists>w'. mirror_overview srs_id st c w = (Inr (), w')"
  unfolding mirror_overview_def try_except_def
  by (cases "mirror_overview_body srs_id st c w") (auto simp: returnE_def split: sum.splits)

lemma mirror_overview_frame:
  assumes "mirror_overview srs_id st c w = (r, w')" and "t \<noteq> srs_overview_title srs_id"
  shows "sheets w' t = sheets w t"
proof -
  obtain r1 w1 where b: "mirror_overview_body srs_id st c w = (r1, w1)" by force
  from mirror_overview_body_frame [OF b assms(2)] have "sheets w1 t = sheets w t" .
  moreover from assms(1) b have "w' = w1"
    unfolding mirror_overview_def try_except_def
    by (cases r1) (auto simp: returnE_def)
  ultimately show ?thesis by simp
qed

lemma mirror_overview_body_Inr:
  assumes "mirror_overview_body srs_id st c w = (Inr u, w')"
  shows "\<exists>ov. sheets w (srs_overview_title srs_id) = Some ov
           \<and> sheets w' = (sheets w)(srs_overview_title srs_id \<mapsto>
                \<lparr>ws_header = SRS_OVERVIEW_HEADERS,
                 ws_body = map (overview_row st c) (records_of ov)\<rparr>)"
proof -
  from assms obtain ws w1 ov w2 where
    a: "sh_worksheet (srs_overview_title srs_id) w = (Inr ws, w1)" and
    b: "read_all ws w1 = (Inr ov, w2)" and
    d: "rewrite_sheet ws SRS_OVERVIEW_HEADERS (map (overview_row st c) ov) w2 = (Inr u, w')"
    unfolding mirror_overview_body_def by (auto simp: bindE_Inr)
  from sh_worksheet_result [OF a]
  have s1: "sheets w1 = sheets w" and ws: "ws = srs_overview_title srs_id" by auto
  from read_all_Inr [OF b] s1 obtain s where
    s2: "sheets w2 = sheets w" and s: "sheets w ws = Some s" and ov: "ov = records_of s"
    by auto
  from rewrite_sheet_Inr [OF d] s2 s ov ws show ?thesis by auto
qed

lemma overview_title_not_index: "srs_overview_title srs_id \<noteq> ''srs_index''"
  by (simp add: srs_overview_title_def)

lemma srs_review_save_Inr:
  assumes "srs_review_save srs_id pick c w = (Inr msg, w')"
  shows "\<exists>s rows w2.
           sheets w ''srs_index'' = Some s
         \<and> mapE (review_row srs_id (st_selectbox [zh_pending, zh_approved] pick) c) (records_of s) = Inr rows
         \<and> sheets w2 = (sheets w)(''srs_index'' \<mapsto> \<lparr>ws_header = SRS_INDEX_HEADERS, ws_body = rows\<rparr>)
         \<and> mirror_overview srs_id (st_selectbox [zh_pending, zh_approved] pick) c w2 = (Inr (), w')
         \<and> sheets w' ''srs_index'' = Some \<lparr>ws_header = SRS_INDEX_HEADERS, ws_body = rows\<rparr>
         \<and> msg = StSuccess msg_review_saved"
proof -
  let ?st = "st_selectbox [zh_pending, zh_approved] pick"
  from assms obtain srs w1 rows u w2 where
    a: "read_all ''srs_index'' w = (Inr srs, w1)" and
    b: "mapE (review_row srs_id ?st c) srs = Inr rows" and
    d: "rewrite_sheet ''srs_index'' SRS_INDEX_HEADERS rows w1 = (Inr u, w2)" and
    e: "mirror_overview srs_id ?st c w2 = (Inr (), w')" and
    m: "msg = StSuccess msg_review_saved"
    unfolding srs_review_save_def by (auto simp: bindE_Inr liftE_Inr returnE_Inr)
  from read_all_Inr [OF a] obtain s where
    s1: "sheets w1 = sheets w" and s: "sheets w ''srs_index'' = Some s" and srs: "srs = records_of s"
    by auto
  from rewrite_sheet_Inr [OF d] s1
  have s2: "sheets w2 = (sheets w)(''srs_index'' \<mapsto> \<lparr>ws_header = SRS_INDEX_HEADERS, ws_body = rows\<rparr>)"
    by simp
  have "sheets w' ''srs_index'' = sheets w2 ''srs_index''"
    using e overview_title_not_index [of srs_id] by (intro mirror_overview_frame) auto
  with s2 s b srs e m show ?thesis by auto
qed

section \<open>The spec review on a well-formed index\<close>

lemma dict_getitems_length: "dict_getitems m ks = Inr vs \<Longrightarrow> length vs = length ks"
  by (induction ks arbitrary: vs) (auto split: sum.splits)

lemma dict_getitems_prefix:
  assumes "hs = ks @ ks'" and "dict_getitems m hs = Inr r"
  shows "dict_getitems m ks = Inr (take (length ks) r)"
proof -
  from assms obtain vs vs' where a: "dict_getitems m ks = Inr vs" and r: "r = vs @ vs'"
    unfolding assms(1) dict_getitems_append by (auto split: sum.splits)
  from dict_getitems_length [OF a] r a show ?thesis by simp
qed

lemma dict_getitems_upd:
  "k \<notin> set ks \<Longrightarrow> dict_getitems (m(k \<mapsto> v)) ks = dict_getitems m ks"
proof (induction ks)
  case Nil
  show ?case by simp
next
  case (Cons a ks)
  from Cons.prems have "dict_getitem (m(k \<mapsto> v)) a = dict_getitem m a"
    by (auto simp: dict_getitem_def)
  moreover from Cons.prems have "k \<notin> set ks" by simp
  then have "dict_getitems (m(k \<mapsto> v)) ks = dict_getitems m ks"
    by (rule Cons.IH)
  ultimately show ?case by (simp only: dict_getitems.simps)
qed

lemma srs_index_row_eq:
  assumes "dict_getitems s [''id'', ''meeting_id'', ''title'', ''desc'', ''problem'', ''goal'',
             ''ui_location'', ''ui_image_name'', ''version'', ''change_note'', ''created_at''] = Inr vs"
  shows "srs_index_row s
    = Inr (vs @ [dict_get s ''status'' (CStr zh_pending), dict_get s ''review_comment'' (CStr [])])"
  using assms by (simp add: srs_index_row_def)

lemma mapE_map2:
  "(\<And>x. x \<in> set xs \<Longrightarrow> f (g x) = Inr (h x)) \<Longrightarrow> mapE f (map g xs) = Inr (map h xs)"
  by (induction xs) simp_all

lemma review_row_wellformed:
  assumes "length r = 13" and "py_int (hd r) = Inr i"
  shows "review_row srs_id st c (Map.empty(SRS_INDEX_HEADERS [\<mapsto>] r))
    = Inr (if i = srs_id then take 11 r @ [CStr st, CStr c] else r)"
proof -
  let ?x = "Map.empty(SRS_INDEX_HEADERS [\<mapsto>] r)"
  let ?ks = "[''id'', ''meeting_id'', ''title'', ''desc'', ''problem'', ''goal'', ''ui_location'',
      ''ui_image_name'', ''version'', ''change_note'', ''created_at'']"
  have full: "dict_getitems ?x SRS_INDEX_HEADERS = Inr r"
    using record_roundtrip [OF distinct_SRS_INDEX_HEADERS(1), of r] assms(1)
    by (simp add: distinct_SRS_INDEX_HEADERS(2))
  have "?x (SRS_INDEX_HEADERS ! 0) = Some (r ! 0)"
    using assms(1) by (intro map_upds_nth) (simp_all add: distinct_SRS_INDEX_HEADERS)
  moreover have "r ! 0 = hd r" using assms(1) by (cases r) simp_all
  ultimately have id: "dict_getitem ?x ''id'' = Inr (hd r)"
    by (simp add: dict_getitem_def SRS_INDEX_HEADERS_def)
  have same: "srs_index_row ?x = Inr r"
    using full by (rule srs_index_row_full)
  have len: "length ?ks = 11" by simp
  have first: "dict_getitems ?x ?ks = Inr (take 11 r)"
    using dict_getitems_prefix [OF SRS_INDEX_HEADERS_split full] unfolding len .
  have n1: "''review_comment'' \<notin> set ?ks" and n2: "''status'' \<notin> set ?ks"
    by simp_all
  have "dict_getitems (?x(''status'' \<mapsto> CStr st, ''review_comment'' \<mapsto> CStr c)) ?ks
      = dict_getitems (?x(''status'' \<mapsto> CStr st)) ?ks"
    by (rule dict_getitems_upd [OF n1])
  also have "\<dots> = dict_getitems ?x ?ks"
    by (rule dict_getitems_upd [OF n2])
  also note first
  finally have "srs_index_row (?x(''status'' \<mapsto> CStr st, ''review_comment'' \<mapsto> CStr c))
      = Inr (take 11 r @ [dict_get (?x(''status'' \<mapsto> CStr st, ''review_comment'' \<mapsto> CStr c)) ''status'' (CStr zh_pending),
                          dict_get (?x(''status'' \<mapsto> CStr st, ''review_comment'' \<mapsto> CStr c)) ''review_comment'' (CStr [])])"
    by (rule srs_index_row_eq)
  then have upd: "srs_index_row (?x(''status'' \<mapsto> CStr st, ''review_comment'' \<mapsto> CStr c))
      = Inr (take 11 r @ [CStr st, CStr c])"
    by (simp add: dict_get_def)
  show ?thesis
    unfolding review_row_def using id assms(2) same upd by simp
qed

lemma review_rows_wellformed:
  assumes "well_formed SRS_INDEX_HEADERS s"
    and "list_all (\<lambda>r. \<exists>i. py_int (hd r) = Inr i) (ws_body s)"
  shows "mapE (review_row srs_id st c) (records_of s)
    = Inr (map (\<lambda>r. if py_int (hd r) = Inr srs_id then take 11 r @ [CStr st, CStr c] else r) (ws_body s))"
  unfolding records_of_def
proof (rule mapE_map2)
  fix r assume r: "r \<in> set (ws_body s)"
  with assms(1) have l: "length r = 13" and h: "ws_header s = SRS_INDEX_HEADERS"
    by (simp_all add: well_formed_def list_all_iff distinct_SRS_INDEX_HEADERS(2))
  from r assms(2) obtain i where i: "py_int (hd r) = Inr i"
    by (auto simp: list_all_iff)
  show "review_row srs_id st c (Map.empty(ws_header s [\<mapsto>] r @ replicate (length (ws_header s) - length r) (CStr '''')))
    = Inr (if py_int (hd r) = Inr srs_id then take 11 r @ [CStr st, CStr c] else r)"
    using review_row_wellformed [OF l i, of srs_id st c] l h i
    by (simp add: distinct_SRS_INDEX_HEADERS(2))
qed

lemma overview_key_distinct: "zh_review_status \<noteq> zh_review_comment"
  by (simp add: zh_review_status_def zh_review_comment_def)

lemma overview_headers_distinct: "zh_field_name \<noteq> zh_field_value"
  by (simp add: zh_field_name_def zh_field_value_def)

lemma overview_row_fields:
  "field SRS_OVERVIEW_HEADERS zh_field_name (overview_row st c r) = Some (dict_get r zh_field_name CNone)"
  "field SRS_OVERVIEW_HEADERS zh_field_value (overview_row st c r)
     = Some (if dict_get r zh_field_name CNone = CStr zh_review_status then CStr st
             else if dict_get r zh_field_name CNone = CStr zh_review_comment then CStr c
             else dict_get r zh_field_value CNone)"
  using overview_headers_distinct
  by (auto simp: field_def SRS_OVERVIEW_HEADERS_def overview_row_def Let_def)

lemma srs_review_save_clear:
  assumes "faults w = []" and "sheets w ''srs_index'' = Some s"
    and "mapE (review_row srs_id (st_selectbox [zh_pending, zh_approved] pick) c) (records_of s) = Inr rows"
    and "sheets w (srs_overview_title srs_id) = Some ov"
  shows "srs_review_save srs_id pick c w
    = (Inr (StSuccess msg_review_saved),
       w\<lparr>sheets := (sheets w)
          (''srs_index'' \<mapsto> \<lparr>ws_header = SRS_INDEX_HEADERS, ws_body = rows\<rparr>,
           srs_overview_title srs_id \<mapsto>
             \<lparr>ws_header = SRS_OVERVIEW_HEADERS,
              ws_body = map (overview_row (st_selectbox [zh_pending, zh_approved] pick) c) (records_of ov)\<rparr>)\<rparr>)"
proof -
  let ?st = "st_selectbox [zh_pending, zh_approved] pick"
  let ?t = "srs_overview_title srs_id"
  let ?w2 = "w\<lparr>sheets := (sheets w)(''srs_index'' \<mapsto> \<lparr>ws_header = SRS_INDEX_HEADERS, ws_body = rows\<rparr>)\<rparr>"
  have f2: "faults ?w2 = []" using assms(1) by simp
  have o2: "sheets ?w2 ?t = Some ov"
    using assms(4) overview_title_not_index [of srs_id] by simp
  have a: "read_all ''srs_index'' w = (Inr (records_of s), w)"
    using assms(1,2) by (rule read_all_clear)
  have b: "rewrite_sheet ''srs_index'' SRS_INDEX_HEADERS rows w = (Inr (), ?w2)"
    using assms(1,2) by (rule rewrite_sheet_clear)
  have m1: "sh_worksheet ?t ?w2 = (Inr ?t, ?w2)"
    using f2 o2 by (simp add: sh_worksheet_clear)
  have m2: "read_all ?t ?w2 = (Inr (records_of ov), ?w2)"
    using f2 o2 by (rule read_all_clear)
  have m3: "rewrite_sheet ?t SRS_OVERVIEW_HEADERS (map (overview_row ?st c) (records_of ov)) ?w2
    = (Inr (), ?w2\<lparr>sheets := (sheets ?w2)(?t \<mapsto>
         \<lparr>ws_header = SRS_OVERVIEW_HEADERS, ws_body = map (overview_row ?st c) (records_of ov)\<rparr>)\<rparr>)"
    using f2 o2 by (rule rewrite_sheet_clear)
  have m: "mirror_overview srs_id ?st c ?w2
    = (Inr (), ?w2\<lparr>sheets := (sheets ?w2)(?t \<mapsto>
         \<lparr>ws_header = SRS_OVERVIEW_HEADERS, ws_body = map (overview_row ?st c) (records_of ov)\<rparr>)\<rparr>)"
    unfolding mirror_overview_def mirror_overview_body_def try_except_def
    by (simp add: bindE_def m1 m2 m3)
  show ?thesis
    unfolding srs_review_save_def
    by (simp add: bindE_def liftE_def returnE_def a assms(3) b m)
qed

lemma srs_review_save_succeeds:
  assumes "read_all ''srs_index'' w = (Inr srs, w1)"
    and "mapE (review_row srs_id (st_selectbox [zh_pending, zh_approved] pick) c) srs = Inr rows"
    and "rewrite_sheet ''srs_index'' SRS_INDEX_HEADERS rows w1 = (Inr (), w2)"
  shows "\<exists>w'. srs_review_save srs_id pick c w = (Inr (StSuccess msg_review_saved), w')"
proof -
  from mirror_overview_swallows [of srs_id "st_selectbox [zh_pending, zh_approved] pick" c w2]
  obtain w' where "mirror_overview srs_id (st_selectbox [zh_pending, zh_approved] pick) c w2 = (Inr (), w')"
    by blast
  then show ?thesis
    unfolding srs_review_save_def
    by (simp add: bindE_def liftE_def returnE_def assms)
qed

section \<open>RequirementSpec creation and the overdue flag: basic facts\<close>

lemma srs_new_row_fields:
  "field SRS_INDEX_HEADERS ''id'' (srs_new_row new_id mid f problem created) = Some (CInt new_id)"
  "field SRS_INDEX_HEADERS ''meeting_id'' (srs_new_row new_id mid f problem created) = Some (CInt mid)"
  "field SRS_INDEX_HEADERS ''title'' (srs_new_row new_id mid f problem created) = Some (CStr (srs_title f))"
  "field SRS_INDEX_HEADERS ''problem'' (srs_new_row new_id mid f problem created) = Some problem"
  "field SRS_INDEX_HEADERS ''status'' (srs_new_row new_id mid f problem created) = Some (CStr zh_pending)"
  "field SRS_INDEX_HEADERS ''review_comment'' (srs_new_row new_id mid f problem created) = Some (CStr [])"
  by (simp_all add: field_def SRS_INDEX_HEADERS_def srs_new_row_def)

lemma srs_form_submit_blank:
  "py_blank (srs_title f) \<Longrightarrow>
   srs_form_submit sel_meeting f created w = (Inr (Rejected (StError msg_srs_title_required)), w)"
  by (simp add: srs_form_submit_def returnE_def)

lemma srs_form_submit_Inr:
  assumes "\<not> py_blank (srs_title f)"
    and "srs_form_submit sel_meeting f created w = (Inr out, w')"
  shows "\<exists>s new_id mid meeting_id problem rows.
           sheets w ''srs_index'' = Some s
         \<and> allocate_id (records_of s) = Inr new_id
         \<and> sel_meeting ''raw_requirement'' = Some problem
         \<and> sel_meeting ''id'' = Some mid \<and> py_int mid = Inr meeting_id
         \<and> mapE srs_index_row (records_of s) = Inr rows
         \<and> out = Written (srs_new_row new_id meeting_id f problem created)
         \<and> sheets w' = (sheets w)(''srs_index'' \<mapsto>
              \<lparr>ws_header = SRS_INDEX_HEADERS,
               ws_body = rows @ [srs_new_row new_id meeting_id f problem created]\<rparr>)"
proof -
  from assms obtain exist w1 new_id problem mid meeting_id rows u where
    a: "read_all ''srs_index'' w = (Inr exist, w1)" and
    b: "allocate_id exist = Inr new_id" and
    c: "dict_getitem sel_meeting ''raw_requirement'' = Inr problem" and
    d: "dict_getitem sel_meeting ''id'' = Inr mid" and
    e: "py_int mid = Inr meeting_id" and
    g: "mapE srs_index_row exist = Inr rows" and
    h: "rewrite_sheet ''srs_index'' SRS_INDEX_HEADERS
          (rows @ [srs_new_row new_id meeting_id f problem created]) w1 = (Inr u, w')" and
    o: "out = Written (srs_new_row new_id meeting_id f problem created)"
    unfolding srs_form_submit_def
    by (auto simp: bindE_Inr liftE_Inr returnE_Inr)
  from read_all_Inr [OF a] obtain s where
    s1: "sheets w1 = sheets w" and s: "sheets w ''srs_index'' = Some s" and ex: "exist = records_of s"
    by auto
  from c d have "sel_meeting ''raw_requirement'' = Some problem" "sel_meeting ''id'' = Some mid"
    by (auto simp: dict_getitem_def split: option.splits)
  with rewrite_sheet_Inr [OF h] s1 s ex b e g o show ?thesis
    by auto
qed

lemma srs_form_submit_clear:
  assumes "\<not> py_blank (srs_title f)"
    and "faults w = []" and "sheets w ''srs_index'' = Some s"
    and "allocate_id (records_of s) = Inr new_id"
    and "sel_meeting ''raw_requirement'' = Some problem"
    and "sel_meeting ''id'' = Some mid" and "py_int mid = Inr meeting_id"
    and "mapE srs_index_row (records_of s) = Inr rows"
  shows "srs_form_submit sel_meeting f created w
    = (Inr (Written (srs_new_row new_id meeting_id f problem created)),
       w\<lparr>sheets := (sheets w)(''srs_index'' \<mapsto>
          \<lparr>ws_header = SRS_INDEX_HEADERS,
           ws_body = rows @ [srs_new_row new_id meeting_id f problem created]\<rparr>)\<rparr>)"
  unfolding srs_form_submit_def
  using assms(1,5,6)
  by (simp add: bindE_def liftE_def returnE_def dict_getitem_def
        read_all_clear [OF assms(2,3)] assms(4,7,8) rewrite_sheet_clear [OF assms(2,3)])

lemma overdue_iff:
  assumes "\<And>c. \<not> truthy c \<Longrightarrow> \<exists>e. fromisoformat c = Inl e"
  shows "(task_overdue fromisoformat today t = zh_overdue)
     = (\<exists>d. fromisoformat (dict_get t ''end_date'' CNone) = Inr d
            \<and> dict_get t ''done_status'' (CStr []) \<noteq> CStr zh_done
            \<and> date_lt d today)"
proof -
  have nz: "zh_overdue \<noteq> []" by (simp add: zh_overdue_def)
  show ?thesis
  proof (cases "truthy (dict_get t ''end_date'' CNone)")
    case True
    then show ?thesis
      using nz by (auto simp: task_overdue_def Let_def split: sum.splits)
  next
    case False
    from assms [OF False] obtain e where "fromisoformat (dict_get t ''end_date'' CNone) = Inl e"
      by blast
    with False show ?thesis
      using nz by (auto simp: task_overdue_def Let_def)
  qed
qed

lemma overdue_total:
  "task_overdue fromisoformat today t = zh_overdue \<or> task_overdue fromisoformat today t = []"
  by (auto simp: task_overdue_def Let_def split: sum.splits)

lemma date_fromisoformat_falsy:
  "\<not> truthy c \<Longrightarrow> \<exists>e. date_fromisoformat c = Inl e"
  by (cases c) (auto simp: truthy_def)

section \<open>Page runs under any backend failures\<close>

lemma api_call_read_only:
  assumes "\<And>b x b'. op b = Inr (x, b') \<Longrightarrow> b' = b" and "api_call op w = (r, w')"
  shows "sheets w' = sheets w"
proof (cases r)
  case (Inl e)
  with assms(2) show ?thesis by (simp add: api_call_Inl)
next
  case (Inr x)
  with assms(2) have "op (sheets w) = Inr (x, sheets w')" by (simp add: api_call_Inr)
  from assms(1) [OF this] show ?thesis .
qed

lemma ws_get_all_values_sheets:
  assumes "ws_get_all_values ws w = (r, w')"
  shows "sheets w' = sheets w"
  using assms unfolding ws_get_all_values_def
  by (rule api_call_read_only [rotated]) (auto simp: on_sheet_def fun_upd_idem split: option.splits)

lemma ws_row_values_1_result:
  assumes "ws_row_values_1 ws w = (r, w')"
  shows "sheets w' = sheets w \<and> (\<forall>hs s. r = Inr hs \<and> sheets w ws = Some s \<longrightarrow> hs = ws_header s)"
proof (cases r)
  case (Inl e)
  with assms show ?thesis by (simp add: ws_row_values_1_def api_call_Inl)
next
  case (Inr hs)
  with assms have "on_sheet ws (\<lambda>s. (ws_header s, s)) (sheets w) = Inr (hs, sheets w')"
    by (simp add: ws_row_values_1_def api_call_Inr)
  from on_sheet_Inr [OF this] Inr show ?thesis by (auto simp: fun_upd_idem)
qed

lemma load_pm_subtasks_sheets:
  assumes "load_pm_subtasks srs_id w = (r, w')"
  shows "sheets w' = sheets w"
proof -
  obtain r1 w1 where a: "sh_worksheet (pm_tasks_title srs_id) w = (r1, w1)" by force
  from sh_worksheet_result [OF a] have s1: "sheets w1 = sheets w" by simp
  show ?thesis
  proof (cases r1)
    case (Inl e)
    with a assms s1 show ?thesis
      by (auto simp: load_pm_subtasks_def try_except_def bindE_def returnE_def split: if_splits)
  next
    case (Inr ws)
    obtain r2 w2 where b: "ws_get_all_values ws w1 = (r2, w2)" by force
    from ws_get_all_values_sheets [OF b] s1 have s2: "sheets w2 = sheets w" by simp
    from a Inr b assms s2 show ?thesis
      by (cases r2)
         (auto simp: load_pm_subtasks_def try_except_def bindE_def returnE_def
            split: if_splits list.splits)
  qed
qed

lemma with_retry_add_existing:
  assumes "sheets w title = Some s"
  shows "with_retry (sh_add_worksheet title) w \<noteq> (Inr x, w')"
proof
  assume "with_retry (sh_add_worksheet title) w = (Inr x, w')"
  then have "gs_add_worksheet title (sheets w) = Inr (x, sheets w')"
    unfolding sh_add_worksheet_def by (rule with_retry_Inr)
  with assms show False by (simp add: gs_add_worksheet_def)
qed

lemma ensure_worksheet_existing:
  assumes "sheets w title = Some s" and "ws_header s \<noteq> []"
    and "ensure_worksheet title headers w = (Inr ws, w')"
  shows "sheets w' = sheets w"
proof -
  let ?handler = "bindE (with_retry (sh_add_worksheet title)) (\<lambda>ws.
          if headers \<noteq> [] then bindE (with_retry (ws_update_A1 ws headers)) (\<lambda>_. returnE ws)
          else returnE ws)"
  have no_handler: "?handler v \<noteq> (Inr ws, w')" if "sheets v = sheets w" for v
  proof
    assume "?handler v = (Inr ws, w')"
    then obtain x v' where "with_retry (sh_add_worksheet title) v = (Inr x, v')"
      by (auto simp: bindE_Inr)
    moreover have "sheets v title = Some s" using that assms(1) by simp
    ultimately show False using with_retry_add_existing by blast
  qed
  obtain r1 w1 where a: "with_retry (sh_worksheet title) w = (r1, w1)" by force
  show ?thesis
  proof (cases r1)
    case (Inl e)
    with a have "sheets w1 = sheets w"
      by (simp add: sh_worksheet_def with_retry_Inl)
    from no_handler [OF this] a Inl assms(3) show ?thesis
      by (auto simp: ensure_worksheet_def try_except_def bindE_def split: if_splits)
  next
    case (Inr t)
    with a have "gs_worksheet title (sheets w) = Inr (t, sheets w1)"
      by (simp add: sh_worksheet_def with_retry_Inr)
    then have s1: "sheets w1 = sheets w" and t: "t = title"
      by (auto simp: gs_worksheet_def split: option.splits)
    show ?thesis
    proof (cases "headers = []")
      case True
      with a Inr assms(3) s1 show ?thesis
        by (simp add: ensure_worksheet_def try_except_def bindE_def returnE_def)
    next
      case False
      obtain r2 w2 where b: "ws_row_values_1 t w1 = (r2, w2)" by force
      from ws_row_values_1_result [OF b] s1 t assms(1)
      have s2: "sheets w2 = sheets w" and h: "\<And>hs. r2 = Inr hs \<Longrightarrow> hs = ws_header s"
        by auto
      show ?thesis
      proof (cases r2)
        case (Inl e)
        from no_handler [OF s2] a \<open>r1 = Inr t\<close> b Inl False assms(3) show ?thesis
          by (auto simp: ensure_worksheet_def try_except_def bindE_def split: if_splits)
      next
        case (Inr hs)
        with h have "hs \<noteq> []" using assms(2) by simp
        with a \<open>r1 = Inr t\<close> b Inr False assms(3) s2 show ?thesis
          by (simp add: ensure_worksheet_def try_except_def bindE_def returnE_def)
      qed
    qed
  qed
qed

lemma page_engineer_report_table:
  assumes "page_engineer_report up srs_id f w = (Inr msgs, w')" and "submitted f"
    and "sheets w (srs_tasks_title srs_id) = Some s" and "ws_header s \<noteq> []"
  shows "\<exists>pm new_id urls rows.
           allocate_id (records_of s) = Inr new_id
         \<and> upload_results up srs_id new_id (result_files f) = Inr urls
         \<and> mapE task_row (records_of s) = Inr rows
         \<and> msgs = fst pm @ [StSuccess msg_reported]
         \<and> sheets w' = (sheets w)(srs_tasks_title srs_id \<mapsto>
              \<lparr>ws_header = TASK_HEADERS,
               ws_body = rows @ [report_new_row new_id
                 (st_selectbox (subtask_options (pm_subtasks_of (snd pm))) (pick_subtask f))
                 (st_selectbox [zh_understood, zh_need_more] (pick_understand f)) f
                 (result_url_of urls)]\<rparr>)"
proof -
  from assms(1,2) obtain pm w1 ws w2 existing w3 u where
    l: "load_pm_subtasks srs_id w = (Inr pm, w1)" and
    e: "ensure_worksheet (srs_tasks_title srs_id) TASK_HEADERS w1 = (Inr ws, w2)" and
    r: "read_all ws w2 = (Inr existing, w3)" and
    s: "submit_report up srs_id ws existing
          (st_selectbox (subtask_options (pm_subtasks_of (snd pm))) (pick_subtask f))
          (st_selectbox [zh_understood, zh_need_more] (pick_understand f)) f w3 = (Inr u, w')" and
    m: "msgs = fst pm @ [StSuccess msg_reported]"
    unfolding page_engineer_report_def
    by (auto simp: bindE_Inr returnE_Inr)
  from load_pm_subtasks_sheets [OF l] have s1: "sheets w1 = sheets w" .
  from ensure_worksheet_Inr [OF e] have ws: "ws = srs_tasks_title srs_id" .
  have s2: "sheets w2 = sheets w"
    using ensure_worksheet_existing [OF _ assms(4) e] assms(3) s1 by simp
  from read_all_Inr [OF r] s2 ws assms(3)
  have s3: "sheets w3 = sheets w" and ex: "existing = records_of s" by auto
  from submit_report_writes [OF s] m s3 show ?thesis
    unfolding ws ex by fastforce
qed

lemma page_client_task_review_Inr:
  assumes "page_client_task_review srs_id pick True w = (Inr msgs, w')"
  shows "(msgs = [StInfo msg_no_tasks] \<and> sheets w' = sheets w)
       \<or> (\<exists>s rows. sheets w (srs_tasks_title srs_id) = Some s
            \<and> mapE (task_review_row pick) (records_of s) = Inr rows
            \<and> msgs = [StSuccess msg_task_review_saved]
            \<and> sheets w' = (sheets w)(srs_tasks_title srs_id \<mapsto>
                 \<lparr>ws_header = TASK_HEADERS, ws_body = rows\<rparr>))"
proof -
  let ?body = "bindE (sh_worksheet (srs_tasks_title srs_id)) (\<lambda>ws_tasks.
               bindE (read_all ws_tasks) (\<lambda>tasks. returnE (Some (ws_tasks, tasks))))"
  obtain r0 w0 where b: "?body w = (r0, w0)" by force
  have s0: "sheets w0 = sheets w"
  proof -
    obtain r1 w1 where a: "sh_worksheet (srs_tasks_title srs_id) w = (r1, w1)" by force
    from sh_worksheet_result [OF a] have s1: "sheets w1 = sheets w" by simp
    show ?thesis
    proof (cases r1)
      case (Inl e)
      with a b s1 show ?thesis by (simp add: bindE_def)
    next
      case (Inr ws)
      obtain r2 w2 where c: "read_all ws w1 = (r2, w2)" by force
      from read_all_sheets [OF c] s1 have "sheets w2 = sheets w" by simp
      with a Inr b c show ?thesis
        by (cases r2) (auto simp: bindE_def returnE_def)
    qed
  qed
  show ?thesis
  proof (cases r0)
    case (Inl e)
    with b assms s0 show ?thesis
      unfolding page_client_task_review_def
      by (auto simp: bindE_def try_except_def returnE_def split: if_splits)
  next
    case (Inr found)
    with b obtain ws w1 tasks where
      a: "sh_worksheet (srs_tasks_title srs_id) w = (Inr ws, w1)" and
      c: "read_all ws w1 = (Inr tasks, w0)" and f: "found = Some (ws, tasks)"
      by (auto simp: bindE_Inr returnE_Inr)
    from sh_worksheet_result [OF a]
    have s1: "sheets w1 = sheets w" and ws: "ws = srs_tasks_title srs_id" by auto
    from read_all_Inr [OF c] s1 ws obtain s where
      s: "sheets w (srs_tasks_title srs_id) = Some s" and t: "tasks = records_of s"
      by auto
    from b Inr f assms obtain rows u where
      g: "mapE (task_review_row pick) tasks = Inr rows" and
      h: "rewrite_sheet ws TASK_HEADERS rows w0 = (Inr u, w')" and
      m: "msgs = [StSuccess msg_task_review_saved]"
      unfolding page_client_task_review_def
      by (auto simp: bindE_def try_except_def returnE_def liftE_def split: sum.splits prod.splits)
    from rewrite_sheet_Inr [OF h] s0 ws s t g m show ?thesis by auto
  qed
qed

lemma row_ids_wellformed:
  assumes "well_formed hs s" and "distinct hs" and "hs \<noteq> []" and "hd hs = ''id''"
  shows "row_ids (records_of s) = mapE (\<lambda>r. py_int (hd r)) (ws_body s)"
proof -
  have l: "list_all (\<lambda>r. length r = length hs) (ws_body s)" and h: "ws_header s = hs"
    using assms(1) by (simp_all add: well_formed_def)
  have "row_ids (map (\<lambda>r. Map.empty(hs [\<mapsto>] r @ replicate (length hs - length r) (CStr ''''))) body)
      = mapE (\<lambda>r. py_int (hd r)) body" if "list_all (\<lambda>r. length r = length hs) body" for body
    using that
  proof (induction body)
    case Nil
    show ?case by simp
  next
    case (Cons r body)
    then have len: "length r = length hs" by simp
    have "(Map.empty(hs [\<mapsto>] r)) (hs ! 0) = Some (r ! 0)"
      using assms(2,3) len by (intro map_upds_nth) simp_all
    moreover have "hs ! 0 = ''id''" using assms(3,4) by (cases hs) simp_all
    moreover have "r ! 0 = hd r" using assms(3) len by (cases r) simp_all
    ultimately have "dict_getitem (Map.empty(hs [\<mapsto>] r)) ''id'' = Inr (hd r)"
      by (simp add: dict_getitem_def)
    with Cons len show ?case by (simp cong: sum.case_cong)
  qed
  from this [OF l] show ?thesis
    unfolding records_of_def h .
qed

section \<open>Identifier allocation: basic facts\<close>

lemma fold_max_Max: "fold max xs (x::int) = Max (set (x # xs))"
proof (induction xs arbitrary: x)
  case Nil
  show ?case by simp
next
  case (Cons y ys)
  have "fold max (y # ys) x = Max (set (max y x # ys))"
    using Cons.IH [of "max y x"] by simp
  also have "\<dots> = Max (set (x # y # ys))"
    by (cases "ys = []") (simp_all add: max.commute max.left_commute max.assoc)
  finally show ?case .
qed

lemma row_ids_length: "row_ids ms = Inr ids \<Longrightarrow> length ids = length ms"
  by (induction ms arbitrary: ids) (auto split: sum.splits)

lemma row_ids_member:
  "row_ids ms = Inr ids \<Longrightarrow> m \<in> set ms \<Longrightarrow> m ''id'' = Some c \<Longrightarrow> py_int c = Inr i \<Longrightarrow> i \<in> set ids"
  by (induction ms arbitrary: ids) (auto simp: dict_getitem_def split: sum.splits option.splits)

lemma row_ids_total:
  "(\<And>m. m \<in> set ms \<Longrightarrow> \<exists>c i. m ''id'' = Some c \<and> py_int c = Inr i) \<Longrightarrow> \<exists>ids. row_ids ms = Inr ids"
proof (induction ms)
  case Nil
  show ?case by simp
next
  case (Cons m ms)
  from Cons.prems [of m] obtain c i where mi: "m ''id'' = Some c" "py_int c = Inr i"
    by auto
  from Cons.IH Cons.prems obtain js where "row_ids ms = Inr js"
    by auto
  with mi show ?case
    by (simp add: dict_getitem_def)
qed

lemma allocate_id_nonempty:
  assumes "existing \<noteq> []" and "row_ids existing = Inr ids"
  shows "allocate_id existing = Inr (Max (set ids) + 1)"
proof -
  from assms row_ids_length [OF assms(2)] obtain x xs where ids: "ids = x # xs"
    by (cases ids) auto
  show ?thesis
    using assms(1) assms(2) by (simp add: allocate_id_def ids fold_max_Max)
qed

lemma allocate_id_above:
  assumes "allocate_id existing = Inr n" and "m \<in> set existing"
    and "m ''id'' = Some c" and "py_int c = Inr i"
  shows "i < n"
proof -
  from assms(2) have ne: "existing \<noteq> []" by auto
  with assms(1) obtain ids where ids: "row_ids existing = Inr ids"
    by (auto simp: allocate_id_def split: sum.splits)
  have "i \<in> set ids"
    using row_ids_member [OF ids assms(2) assms(3) assms(4)] .
  then have "i \<le> Max (set ids)" by simp
  moreover have "n = Max (set ids) + 1"
    using allocate_id_nonempty [OF ne ids] assms(1) by simp
  ultimately show ?thesis by simp
qed

lemma allocate_id_of_row_ids:
  "row_ids existing = Inr ids \<Longrightarrow> \<exists>n. allocate_id existing = Inr n"
  using allocate_id_nonempty [of existing ids]
  by (cases "existing = []") (auto simp: allocate_id_def)

lemma mapE_total:
  "list_all (\<lambda>x. \<exists>y. f x = Inr y) xs \<Longrightarrow> \<exists>ys. mapE f xs = Inr ys"
  by (induction xs) auto

lemma allocate_id_wellformed:
  assumes "well_formed hs s" and "distinct hs" and "hs \<noteq> []" and "hd hs = ''id''"
    and "list_all (\<lambda>r. \<exists>i. py_int (hd r) = Inr i) (ws_body s)"
  shows "\<exists>n. allocate_id (records_of s) = Inr n"
proof -
  from mapE_total [OF assms(5)] obtain ids where "mapE (\<lambda>r. py_int (hd r)) (ws_body s) = Inr ids"
    by blast
  then have "row_ids (records_of s) = Inr ids"
    using row_ids_wellformed [OF assms(1-4)] by simp
  then show ?thesis by (rule allocate_id_of_row_ids)
qed

lemma TASK_HEADERS_id: "TASK_HEADERS \<noteq> []" "hd TASK_HEADERS = ''id''"
  by (simp_all add: TASK_HEADERS_def)

lemma SRS_INDEX_HEADERS_id: "SRS_INDEX_HEADERS \<noteq> []" "hd SRS_INDEX_HEADERS = ''id''"
  by (simp_all add: SRS_INDEX_HEADERS_def)

lemma worksheet_body_update:
  "ws_header s = hs \<Longrightarrow> \<lparr>ws_header = hs, ws_body = b\<rparr> = s\<lparr>ws_body := b\<rparr>"
  by (cases s) simp

lemma list11:
  "length (r :: 'a list) = 11 \<Longrightarrow>
   \<exists>a0 a1 a2 a3 a4 a5 a6 a7 a8 a9 a10. r = [a0, a1, a2, a3, a4, a5, a6, a7, a8, a9, a10]"
  by (auto simp: numeral_eq_Suc length_Suc_conv)

lemma task_review_row_wellformed:
  assumes "length r = 11" and "py_int (hd r) = Inr tid"
  shows "task_review_row pick (Map.empty(TASK_HEADERS [\<mapsto>] r))
    = Inr (r[0 := CInt tid, 9 := CStr (st_selectbox [zh_pending, zh_approved] (pick tid))])"
proof -
  from list11 [OF assms(1)] obtain a0 a1 a2 a3 a4 a5 a6 a7 a8 a9 a10
    where r: "r = [a0, a1, a2, a3, a4, a5, a6, a7, a8, a9, a10]" by blast
  from assms(2) have "py_int a0 = Inr tid" by (simp add: r)
  then show ?thesis
    unfolding r task_review_row_def TASK_HEADERS_def
    by (simp add: dict_getitem_def dict_get_def)
qed

section \<open>Task review: basic facts\<close>

lemma page_client_task_review_clear:
  assumes "faults w = []" and "sheets w (srs_tasks_title srs_id) = Some s"
    and "mapE (task_review_row pick) (records_of s) = Inr rows"
  shows "page_client_task_review srs_id pick True w
    = (Inr [StSuccess msg_task_review_saved],
       w\<lparr>sheets := (sheets w)(srs_tasks_title srs_id \<mapsto> \<lparr>ws_header = TASK_HEADERS, ws_body = rows\<rparr>)\<rparr>)"
  unfolding page_client_task_review_def
  using assms(1,2)
  by (simp add: bindE_def try_except_def returnE_def liftE_def sh_worksheet_clear
        read_all_clear [OF assms(1,2)] assms(3) rewrite_sheet_clear [OF assms(1,2)])

lemma task_record_done_status:
  assumes "length r = 11"
  shows "Some (dict_get (Map.empty(TASK_HEADERS [\<mapsto>] r)) ''done_status'' d)
    = field TASK_HEADERS ''done_status'' r"
proof -
  from list11 [OF assms] obtain a0 a1 a2 a3 a4 a5 a6 a7 a8 a9 a10
    where r: "r = [a0, a1, a2, a3, a4, a5, a6, a7, a8, a9, a10]" by blast
  show ?thesis
    unfolding r TASK_HEADERS_def by (simp add: dict_get_def field_def)
qed

lemma review_keeps_done_status:
  assumes "well_formed TASK_HEADERS s"
    and "mapE (task_review_row pick) (records_of s) = Inr rows"
  shows "map (field TASK_HEADERS ''done_status'') rows
    = map (field TASK_HEADERS ''done_status'') (ws_body s)"
proof -
  have "map (field TASK_HEADERS ''done_status'') rows
      = map (\<lambda>t. Some (dict_get t ''done_status'' (CStr []))) (records_of s)"
    using assms(2) by (rule mapE_field [rotated]) (rule task_review_row_fields(1))
  also have "\<dots> = map (field TASK_HEADERS ''done_status'') (ws_body s)"
    using assms(1)
    by (auto simp: records_of_def well_formed_def list_all_iff distinct_TASK_HEADERS(2)
          task_record_done_status)
  finally show ?thesis .
qed

lemma review_client_status:
  assumes "mapE (task_review_row pick) ts = Inr rows"
  shows "list_all (\<lambda>r. field TASK_HEADERS ''client_status'' r = Some (CStr zh_pending)
                      \<or> field TASK_HEADERS ''client_status'' r = Some (CStr zh_approved)) rows"
  using assms
proof (induction ts arbitrary: rows)
  case Nil
  then show ?case by simp
next
  case (Cons t ts)
  then obtain r rs where r: "task_review_row pick t = Inr r" and rs: "mapE (task_review_row pick) ts = Inr rs"
    and rows: "rows = r # rs"
    by (auto split: sum.splits)
  from task_review_row_fields(2) [OF r] obtain tid where
    "field TASK_HEADERS ''client_status'' r = Some (CStr (st_selectbox [zh_pending, zh_approved] (pick tid)))"
    by blast
  with selectbox_two [of zh_pending zh_approved "pick tid"] Cons.IH [OF rs] rows
  show ?case by auto
qed

section \<open>The example run\<close>

lemma demo_titles:
  "srs_overview_title 1 \<noteq> ''srs_index''" "pm_tasks_title 1 \<noteq> ''srs_index''"
  "srs_tasks_title 1 \<noteq> ''srs_index''" "pm_tasks_title 1 \<noteq> srs_overview_title 1"
  "srs_tasks_title 1 \<noteq> srs_overview_title 1" "srs_tasks_title 1 \<noteq> pm_tasks_title 1"
  by (simp_all add: srs_overview_title_def pm_tasks_title_def srs_tasks_title_def)

lemma demo_sheets:
  "sheets demo_world ''srs_index'' = Some demo_index"
  "sheets demo_world (srs_overview_title 1) = Some demo_overview"
  "sheets demo_world (pm_tasks_title 1) = Some demo_pm"
  "sheets demo_world (srs_tasks_title 1) = Some demo_tasks"
  "faults demo_world = []"
  using demo_titles by (simp_all add: demo_world_def)

lemma demo_tasks_wf: "well_formed TASK_HEADERS demo_tasks" "ws_header demo_tasks \<noteq> []"
  by (simp_all add: well_formed_def demo_tasks_def TASK_HEADERS_def)

lemma demo_tasks_ids: "mapE (\<lambda>r. py_int (hd r)) (ws_body demo_tasks) = Inr [1]"
  by (simp add: demo_tasks_def)

lemma demo_tasks_alloc: "allocate_id (records_of demo_tasks) = Inr 2"
proof -
  have "row_ids (records_of demo_tasks) = Inr [1]"
    using row_ids_wellformed [OF demo_tasks_wf(1) distinct_TASK_HEADERS(1) TASK_HEADERS_id]
    by (simp add: demo_tasks_ids)
  moreover have "records_of demo_tasks \<noteq> []"
    by (simp add: records_of_def demo_tasks_def)
  ultimately show ?thesis
    using allocate_id_nonempty [of "records_of demo_tasks" "[1]"] by simp
qed

lemma str_int_demo: "str_int 1 = ''1''" "str_int 2 = ''2''" "str_int 1700000000 = ''1700000000''"
  by (simp_all add: str_int_def str_nat.simps digit_char_def)

lemma demo_upload_urls:
  "upload_results demo_upload 1 2 (result_files demo_report)
     = Inr [''https://dl.example/pm_system/srs_result/SRS_1/2_1700000000_out.csv?raw=1'']"
  by (simp add: demo_report_def demo_upload_def str_int_demo)

lemma demo_load_pm:
  "load_pm_subtasks 1 demo_world = (Inr ([], ([CStr ''subtask''], [[CStr ''Design API'']])), demo_world)"
  using load_pm_subtasks_found [OF demo_sheets(5) demo_sheets(3)]
  by (simp add: values_of_def demo_pm_def)

lemma demo_report_run:
  "page_engineer_report demo_upload 1 demo_report demo_world
    = (Inr [StSuccess msg_reported],
       demo_world\<lparr>sheets := (sheets demo_world)(srs_tasks_title 1 \<mapsto>
         \<lparr>ws_header = TASK_HEADERS,
          ws_body = ws_body demo_tasks @ [report_new_row 2 (CStr ''Design API'') zh_understood demo_report
            ''https://dl.example/pm_system/srs_result/SRS_1/2_1700000000_out.csv?raw=1'']\<rparr>)\<rparr>)"
proof -
  have s: "submitted demo_report" by (simp add: demo_report_def)
  have p: "pick_subtask demo_report = 0" "pick_understand demo_report = 0"
    by (simp_all add: demo_report_def)
  show ?thesis
    using page_engineer_report_clear [OF demo_sheets(5) demo_load_pm demo_sheets(4) demo_tasks_wf(2)
        demo_tasks_alloc demo_upload_urls task_rows_roundtrip [OF demo_tasks_wf(1)] s]
    by (simp add: p pm_subtasks_of_def df_empty_def first_cell_def subtask_options_def
          st_selectbox_def result_url_of_def)
qed

section \<open>Task creation frame\<close>

lemma page_engineer_report_total:
  assumes "faults w = []"
    and "sheets w (srs_tasks_title srs_id) = Some s" and "well_formed TASK_HEADERS s"
    and "list_all (\<lambda>r. \<exists>i. py_int (hd r) = Inr i) (ws_body s)"
    and "\<forall>n. \<exists>urls. upload_results up srs_id n (result_files f) = Inr urls"
    and "submitted f"
  shows "\<exists>msgs w'. page_engineer_report up srs_id f w = (Inr msgs, w')"
proof -
  from load_pm_subtasks_clear [OF assms(1)] obtain pm where
    pm: "load_pm_subtasks srs_id w = (Inr pm, w)" by blast
  from assms(3) have h: "ws_header s \<noteq> []"
    by (simp add: well_formed_def TASK_HEADERS_def)
  from allocate_id_wellformed [OF assms(3) distinct_TASK_HEADERS(1) TASK_HEADERS_id assms(4)]
  obtain new_id where a: "allocate_id (records_of s) = Inr new_id" by blast
  from assms(5) obtain urls where u: "upload_results up srs_id new_id (result_files f) = Inr urls"
    by blast
  from page_engineer_report_clear [OF assms(1) pm assms(2) h a u task_rows_roundtrip [OF assms(3)] assms(6)]
  show ?thesis by blast
qed

lemma page_engineer_report_appends:
  assumes "sheets w (srs_tasks_title srs_id) = Some s" and "well_formed TASK_HEADERS s"
    and "submitted f" and "page_engineer_report up srs_id f w = (Inr msgs, w')"
  shows "\<exists>pm new_id urls.
           allocate_id (records_of s) = Inr new_id
         \<and> sheets w' = (sheets w)(srs_tasks_title srs_id \<mapsto>
              s\<lparr>ws_body := ws_body s @ [report_new_row new_id
                 (st_selectbox (subtask_options (pm_subtasks_of (snd pm))) (pick_subtask f))
                 (st_selectbox [zh_understood, zh_need_more] (pick_understand f)) f
                 (result_url_of urls)]\<rparr>)"
proof -
  from assms(2) have h: "ws_header s \<noteq> []" and hs: "ws_header s = TASK_HEADERS"
    by (simp_all add: well_formed_def TASK_HEADERS_def)
  have same: "rows = ws_body s" if "mapE task_row (records_of s) = Inr rows" for rows
    using that task_rows_roundtrip [OF assms(2)] by simp
  from page_engineer_report_table [OF assms(4) assms(3) assms(1) h]
  show ?thesis
    by (auto simp: worksheet_body_update [OF hs] dest!: same)
qed

lemma task_row_all_fields:
  assumes "task_row t = Inr r"
  shows "list_all (\<lambda>h. field TASK_HEADERS h r = t h) TASK_HEADERS"
  using task_row_field [OF assms] by (simp add: list_all_iff)

text \<open>
  C6. Task creation frame. On a Task table whose rows fill the fixed columns, a report
  that goes through, whatever calls were retried, leaves the table as it was with one
  row appended, and every other worksheet as it was. Without backend failures the report
  does go through when the stored ids convert and the uploads succeed. Every prior
  record is written back cell by cell as it was read, \<open>client_status\<close> and
  \<open>result_url\<close> included.
\<close>

theorem task_creation_frame:
  assumes "sheets w (srs_tasks_title srs_id) = Some s" and "well_formed TASK_HEADERS s"
    and "submitted f"
  shows "(page_engineer_report up srs_id f w = (Inr msgs, w') \<longrightarrow>
            (\<exists>new. sheets w' = (sheets w)(srs_tasks_title srs_id \<mapsto> s\<lparr>ws_body := ws_body s @ [new]\<rparr>)))
       \<and> (faults w = [] \<and> list_all (\<lambda>r. \<exists>i. py_int (hd r) = Inr i) (ws_body s)
            \<and> (\<forall>n. \<exists>urls. upload_results up srs_id n (result_files f) = Inr urls) \<longrightarrow>
            (\<exists>msgs w'. page_engineer_report up srs_id f w = (Inr msgs, w')))
       \<and> (task_row t = Inr r \<longrightarrow>
            r = map (\<lambda>h. the (t h)) TASK_HEADERS \<and> list_all (\<lambda>h. field TASK_HEADERS h r = t h) TASK_HEADERS)"
proof (intro conjI impI)
  assume "page_engineer_report up srs_id f w = (Inr msgs, w')"
  from page_engineer_report_appends [OF assms this]
  show "\<exists>new. sheets w' = (sheets w)(srs_tasks_title srs_id \<mapsto> s\<lparr>ws_body := ws_body s @ [new]\<rparr>)"
    by blast
next
  assume a: "faults w = [] \<and> list_all (\<lambda>r. \<exists>i. py_int (hd r) = Inr i) (ws_body s)
            \<and> (\<forall>n. \<exists>urls. upload_results up srs_id n (result_files f) = Inr urls)"
  then show "\<exists>msgs w'. page_engineer_report up srs_id f w = (Inr msgs, w')"
    using page_engineer_report_total [OF _ assms(1,2) _ _ assms(3)] by blast
next
  assume "task_row t = Inr r"
  then show "r = map (\<lambda>h. the (t h)) TASK_HEADERS"
    using task_row_cells by blast
next
  assume "task_row t = Inr r"
  then show "list_all (\<lambda>h. field TASK_HEADERS h r = t h) TASK_HEADERS"
    by (rule task_row_all_fields)
qed

theorem task_creation_frame_witness:
  "sheets demo_world (srs_tasks_title 1) = Some demo_tasks
   \<and> well_formed TASK_HEADERS demo_tasks
   \<and> submitted demo_report
   \<and> fst (page_engineer_report demo_upload 1 demo_report demo_world) = Inr [StSuccess msg_reported]
   \<and> (\<exists>new. sheets (snd (page_engineer_report demo_upload 1 demo_report demo_world))
          = (sheets demo_world)(srs_tasks_title 1 \<mapsto> demo_tasks\<lparr>ws_body := ws_body demo_tasks @ [new]\<rparr>))"
proof -
  have s: "submitted demo_report" by (simp add: demo_report_def)
  obtain msgs w' where run: "page_engineer_report demo_upload 1 demo_report demo_world = (Inr msgs, w')"
    and m: "msgs = [StSuccess msg_reported]"
    using demo_report_run by blast
  from task_creation_frame [OF demo_sheets(4) demo_tasks_wf(1) s, of demo_upload msgs w'] run
  have "\<exists>new. sheets w' = (sheets demo_world)(srs_tasks_title 1 \<mapsto> demo_tasks\<lparr>ws_body := ws_body demo_tasks @ [new]\<rparr>)"
    by blast
  with run m s demo_sheets(4) demo_tasks_wf(1) show ?thesis by simp
qed

section \<open>Identifier allocation, the engineer column\<close>

text \<open>
  C1. The allocated id is 1 for an empty table and the largest existing id plus one
  otherwise. It is a function of the records read alone, it exists whenever every
  stored id converts to an integer, and it lies strictly above the integer value of
  every existing id, so it equals none of them.
\<close>

theorem allocate_id_spec:
  "allocate_id [] = Inr 1
   \<and> (existing \<noteq> [] \<and> row_ids existing = Inr ids \<longrightarrow>
        allocate_id existing = Inr (Max (set ids) + 1))
   \<and> ((\<forall>m \<in> set existing. \<exists>c i. m ''id'' = Some c \<and> py_int c = Inr i) \<longrightarrow>
        (\<exists>n. allocate_id existing = Inr n))
   \<and> (existing = existing' \<longrightarrow> allocate_id existing = allocate_id existing')
   \<and> (allocate_id existing = Inr n \<longrightarrow>
        (\<forall>m \<in> set existing. \<forall>c i. m ''id'' = Some c \<and> py_int c = Inr i \<longrightarrow> i < n \<and> c \<noteq> CInt n))"
proof (intro conjI impI ballI allI)
  show "allocate_id [] = Inr 1"
    by (simp add: allocate_id_def)
next
  assume "existing \<noteq> [] \<and> row_ids existing = Inr ids"
  then show "allocate_id existing = Inr (Max (set ids) + 1)"
    using allocate_id_nonempty by blast
next
  assume all: "\<forall>m \<in> set existing. \<exists>c i. m ''id'' = Some c \<and> py_int c = Inr i"
  then obtain ids where ids: "row_ids existing = Inr ids"
    using row_ids_total [of existing] by blast
  then show "\<exists>n. allocate_id existing = Inr n"
    by (rule allocate_id_of_row_ids)
next
  assume "existing = existing'"
  then show "allocate_id existing = allocate_id existing'" by simp
next
  fix m c i
  assume a: "allocate_id existing = Inr n" "m \<in> set existing"
    "m ''id'' = Some c \<and> py_int c = Inr i"
  then show "i < n"
    using allocate_id_above by blast
next
  fix m c i
  assume a: "allocate_id existing = Inr n" "m \<in> set existing"
    "m ''id'' = Some c \<and> py_int c = Inr i"
  then have "i < n"
    using allocate_id_above by blast
  with a(3) show "c \<noteq> CInt n" by auto
qed

theorem allocate_id_spec_witness:
  "allocate_id [] = Inr 1
   \<and> row_ids [[''id'' \<mapsto> CInt 3], [''id'' \<mapsto> CInt 7], [''id'' \<mapsto> CInt 2]] = Inr [3, 7, 2]
   \<and> allocate_id [[''id'' \<mapsto> CInt 3], [''id'' \<mapsto> CInt 7], [''id'' \<mapsto> CInt 2]] = Inr 8"
  using allocate_id_spec [of "[[''id'' \<mapsto> CInt 3], [''id'' \<mapsto> CInt 7], [''id'' \<mapsto> CInt 2]]"
      "[3, 7, 2]" "[[''id'' \<mapsto> CInt 3], [''id'' \<mapsto> CInt 7], [''id'' \<mapsto> CInt 2]]" 8]
  by (simp add: dict_getitem_def)

lemma page_engineer_report_new_row:
  assumes "submitted f" and "page_engineer_report up srs_id f w = (Inr msgs, w')"
  shows "\<exists>rows new_id name url.
           sheets w' (srs_tasks_title srs_id) = Some
             \<lparr>ws_header = TASK_HEADERS,
              ws_body = rows @ [report_new_row new_id name
                (st_selectbox [zh_understood, zh_need_more] (pick_understand f)) f url]\<rparr>"
  using page_engineer_report_writes [OF assms(2) assms(1)] by blast

text \<open>
  C9. The row an engineer report appends holds the literal \<open>Engineer\<close> in the column
  \<open>engineer\<close> and the empty string in the column \<open>description\<close>, whatever the inputs
  are; no input of the report names the engineer.
\<close>

theorem engineer_field_constant:
  "field TASK_HEADERS ''engineer'' (report_new_row new_id name us f url) = Some (CStr ''Engineer'')
   \<and> field TASK_HEADERS ''description'' (report_new_row new_id name us f url) = Some (CStr '''')
   \<and> (submitted f \<and> page_engineer_report up srs_id f w = (Inr msgs, w') \<longrightarrow>
        (\<exists>rows new. sheets w' (srs_tasks_title srs_id) = Some \<lparr>ws_header = TASK_HEADERS, ws_body = rows @ [new]\<rparr>
           \<and> field TASK_HEADERS ''engineer'' new = Some (CStr ''Engineer'')
           \<and> field TASK_HEADERS ''description'' new = Some (CStr '''')))"
proof (intro conjI impI)
  show "field TASK_HEADERS ''engineer'' (report_new_row new_id name us f url) = Some (CStr ''Engineer'')"
    by (rule report_new_row_fields)
  show "field TASK_HEADERS ''description'' (report_new_row new_id name us f url) = Some (CStr '''')"
    by (rule report_new_row_fields)
next
  assume "submitted f \<and> page_engineer_report up srs_id f w = (Inr msgs, w')"
  then obtain rows n nm u where
    "sheets w' (srs_tasks_title srs_id) = Some
       \<lparr>ws_header = TASK_HEADERS,
        ws_body = rows @ [report_new_row n nm
          (st_selectbox [zh_understood, zh_need_more] (pick_understand f)) f u]\<rparr>"
    using page_engineer_report_new_row by blast
  then show "\<exists>rows new. sheets w' (srs_tasks_title srs_id) = Some \<lparr>ws_header = TASK_HEADERS, ws_body = rows @ [new]\<rparr>
           \<and> field TASK_HEADERS ''engineer'' new = Some (CStr ''Engineer'')
           \<and> field TASK_HEADERS ''description'' new = Some (CStr '''')"
    using report_new_row_fields(3,4) by blast
qed

theorem engineer_field_constant_witness:
  "submitted demo_report
   \<and> fst (page_engineer_report demo_upload 1 demo_report demo_world) = Inr [StSuccess msg_reported]
   \<and> (\<exists>rows new.
          sheets (snd (page_engineer_report demo_upload 1 demo_report demo_world)) (srs_tasks_title 1)
            = Some \<lparr>ws_header = TASK_HEADERS, ws_body = rows @ [new]\<rparr>
        \<and> field TASK_HEADERS ''engineer'' new = Some (CStr ''Engineer'')
        \<and> field TASK_HEADERS ''description'' new = Some (CStr ''''))"
proof -
  have s: "submitted demo_report" by (simp add: demo_report_def)
  obtain msgs w' where run: "page_engineer_report demo_upload 1 demo_report demo_world = (Inr msgs, w')"
    and m: "msgs = [StSuccess msg_reported]"
    using demo_report_run by blast
  from engineer_field_constant [of 0 CNone "[]" demo_report "[]" demo_upload 1 demo_world msgs w'] s run
  have "\<exists>rows new. sheets w' (srs_tasks_title 1) = Some \<lparr>ws_header = TASK_HEADERS, ws_body = rows @ [new]\<rparr>
           \<and> field TASK_HEADERS ''engineer'' new = Some (CStr ''Engineer'')
           \<and> field TASK_HEADERS ''description'' new = Some (CStr '''')"
    by blast
  with run m s show ?thesis by simp
qed

section \<open>The derived done_status\<close>

lemma records_of_wellformed:
  assumes "well_formed hs s"
  shows "records_of s = map (\<lambda>r. Map.empty(hs [\<mapsto>] r)) (ws_body s)"
  using assms by (auto simp: records_of_def well_formed_def list_all_iff)

lemma task_review_rows_wellformed:
  assumes "well_formed TASK_HEADERS s"
    and "list_all (\<lambda>r. \<exists>i. py_int (hd r) = Inr i) (ws_body s)"
  shows "mapE (task_review_row pick) (records_of s)
    = Inr (map (\<lambda>r. case py_int (hd r) of
                       Inl e \<Rightarrow> r
                     | Inr tid \<Rightarrow> r[0 := CInt tid, 9 := CStr (st_selectbox [zh_pending, zh_approved] (pick tid))])
             (ws_body s))"
  unfolding records_of_wellformed [OF assms(1)]
proof (rule mapE_map2)
  fix r assume r: "r \<in> set (ws_body s)"
  with assms(1) have l: "length r = 11"
    by (simp add: well_formed_def list_all_iff distinct_TASK_HEADERS(2))
  from r assms(2) obtain i where i: "py_int (hd r) = Inr i"
    by (auto simp: list_all_iff)
  show "task_review_row pick (Map.empty(TASK_HEADERS [\<mapsto>] r))
    = Inr (case py_int (hd r) of
             Inl e \<Rightarrow> r
           | Inr tid \<Rightarrow> r[0 := CInt tid, 9 := CStr (st_selectbox [zh_pending, zh_approved] (pick tid))])"
    using task_review_row_wellformed [OF l i, of pick] i by simp
qed

lemma demo_tasks_convert: "list_all (\<lambda>r. \<exists>i. py_int (hd r) = Inr i) (ws_body demo_tasks)"
  by (simp add: demo_tasks_def)

lemma demo_review_run:
  "\<exists>rows. page_client_task_review 1 (\<lambda>tid. 1) True demo_world
    = (Inr [StSuccess msg_task_review_saved],
       demo_world\<lparr>sheets := (sheets demo_world)(srs_tasks_title 1 \<mapsto>
          \<lparr>ws_header = TASK_HEADERS, ws_body = rows\<rparr>)\<rparr>)"
  using page_client_task_review_clear [OF demo_sheets(5) demo_sheets(4)
      task_review_rows_wellformed [OF demo_tasks_wf(1) demo_tasks_convert]]
  by blast

lemma page_client_task_review_saved:
  assumes "page_client_task_review srs_id pick True w = (Inr [StSuccess msg_task_review_saved], w')"
  shows "\<exists>s rows. sheets w (srs_tasks_title srs_id) = Some s
            \<and> mapE (task_review_row pick) (records_of s) = Inr rows
            \<and> sheets w' = (sheets w)(srs_tasks_title srs_id \<mapsto>
                 \<lparr>ws_header = TASK_HEADERS, ws_body = rows\<rparr>)"
  using page_client_task_review_Inr [OF assms] by auto

text \<open>
  C5. The row an engineer report appends holds, as \<open>done_status\<close>, the in-progress value
  when the understanding picked in the form is the understood value, and the
  waiting-for-information value otherwise; the understanding is one of the two options
  of the form. The two operations that rewrite a Task table afterwards, a later report
  and the batch task review, write the \<open>done_status\<close> of every existing record back
  as it was read.
\<close>

theorem done_status_spec:
  "(submitted f \<and> page_engineer_report up srs_id f w = (Inr msgs, w') \<longrightarrow>
      (\<exists>rows new. sheets w' (srs_tasks_title srs_id) = Some \<lparr>ws_header = TASK_HEADERS, ws_body = rows @ [new]\<rparr>
         \<and> field TASK_HEADERS ''engineer_understand_status'' new
              = Some (CStr (st_selectbox [zh_understood, zh_need_more] (pick_understand f)))
         \<and> field TASK_HEADERS ''done_status'' new
              = Some (CStr (if st_selectbox [zh_understood, zh_need_more] (pick_understand f) = zh_understood
                            then zh_in_progress else zh_waiting))))
   \<and> (st_selectbox [zh_understood, zh_need_more] (pick_understand f) = zh_understood
        \<or> st_selectbox [zh_understood, zh_need_more] (pick_understand f) = zh_need_more)
   \<and> zh_understood \<noteq> zh_need_more \<and> zh_in_progress \<noteq> zh_waiting
   \<and> (task_row t = Inr r \<longrightarrow> field TASK_HEADERS ''done_status'' r = t ''done_status'')
   \<and> (task_review_row pick t = Inr r' \<longrightarrow>
        field TASK_HEADERS ''done_status'' r' = Some (dict_get t ''done_status'' (CStr '''')))
   \<and> (sheets v (srs_tasks_title srs_id) = Some s \<and> well_formed TASK_HEADERS s
        \<and> page_client_task_review srs_id pick True v = (Inr [StSuccess msg_task_review_saved], v') \<longrightarrow>
        (\<exists>rows. sheets v' (srs_tasks_title srs_id) = Some \<lparr>ws_header = TASK_HEADERS, ws_body = rows\<rparr>
           \<and> map (field TASK_HEADERS ''done_status'') rows
               = map (field TASK_HEADERS ''done_status'') (ws_body s)))"
proof (intro conjI impI)
  assume "submitted f \<and> page_engineer_report up srs_id f w = (Inr msgs, w')"
  then obtain rows n nm u where
    "sheets w' (srs_tasks_title srs_id) = Some
       \<lparr>ws_header = TASK_HEADERS,
        ws_body = rows @ [report_new_row n nm
          (st_selectbox [zh_understood, zh_need_more] (pick_understand f)) f u]\<rparr>"
    using page_engineer_report_new_row by blast
  then show "\<exists>rows new. sheets w' (srs_tasks_title srs_id) = Some \<lparr>ws_header = TASK_HEADERS, ws_body = rows @ [new]\<rparr>
         \<and> field TASK_HEADERS ''engineer_understand_status'' new
              = Some (CStr (st_selectbox [zh_understood, zh_need_more] (pick_understand f)))
         \<and> field TASK_HEADERS ''done_status'' new
              = Some (CStr (if st_selectbox [zh_understood, zh_need_more] (pick_understand f) = zh_understood
                            then zh_in_progress else zh_waiting))"
    using report_new_row_fields(5,6) by blast
next
  show "st_selectbox [zh_understood, zh_need_more] (pick_understand f) = zh_understood
        \<or> st_selectbox [zh_understood, zh_need_more] (pick_understand f) = zh_need_more"
    by (rule selectbox_two)
next
  show "zh_understood \<noteq> zh_need_more" "zh_in_progress \<noteq> zh_waiting"
    by (rule zh_distinct)+
next
  assume "task_row t = Inr r"
  then show "field TASK_HEADERS ''done_status'' r = t ''done_status''"
    by (rule task_row_field) (simp add: TASK_HEADERS_def)
next
  assume "task_review_row pick t = Inr r'"
  then show "field TASK_HEADERS ''done_status'' r' = Some (dict_get t ''done_status'' (CStr ''''))"
    by (rule task_review_row_fields(1))
next
  assume a: "sheets v (srs_tasks_title srs_id) = Some s \<and> well_formed TASK_HEADERS s
        \<and> page_client_task_review srs_id pick True v = (Inr [StSuccess msg_task_review_saved], v')"
  with page_client_task_review_saved [of srs_id pick v v'] obtain rows where
    m: "mapE (task_review_row pick) (records_of s) = Inr rows" and
    w: "sheets v' = (sheets v)(srs_tasks_title srs_id \<mapsto> \<lparr>ws_header = TASK_HEADERS, ws_body = rows\<rparr>)"
    by auto
  from a m have "map (field TASK_HEADERS ''done_status'') rows
      = map (field TASK_HEADERS ''done_status'') (ws_body s)"
    using review_keeps_done_status by blast
  with w show "\<exists>rows. sheets v' (srs_tasks_title srs_id) = Some \<lparr>ws_header = TASK_HEADERS, ws_body = rows\<rparr>
           \<and> map (field TASK_HEADERS ''done_status'') rows
               = map (field TASK_HEADERS ''done_status'') (ws_body s)"
    by simp
qed

theorem done_status_spec_witness:
  "submitted demo_report
   \<and> fst (page_engineer_report demo_upload 1 demo_report demo_world) = Inr [StSuccess msg_reported]
   \<and> (\<exists>rows new.
          sheets (snd (page_engineer_report demo_upload 1 demo_report demo_world)) (srs_tasks_title 1)
            = Some \<lparr>ws_header = TASK_HEADERS, ws_body = rows @ [new]\<rparr>
        \<and> field TASK_HEADERS ''engineer_understand_status'' new = Some (CStr zh_understood)
        \<and> field TASK_HEADERS ''done_status'' new = Some (CStr zh_in_progress))
   \<and> sheets demo_world (srs_tasks_title 1) = Some demo_tasks \<and> well_formed TASK_HEADERS demo_tasks
   \<and> fst (page_client_task_review 1 (\<lambda>tid. 1) True demo_world) = Inr [StSuccess msg_task_review_saved]
   \<and> (\<exists>rows. sheets (snd (page_client_task_review 1 (\<lambda>tid. 1) True demo_world)) (srs_tasks_title 1)
                = Some \<lparr>ws_header = TASK_HEADERS, ws_body = rows\<rparr>
        \<and> map (field TASK_HEADERS ''done_status'') rows = [Some (CStr zh_waiting)])"
proof -
  have s: "submitted demo_report" and p: "pick_understand demo_report = 0"
    by (simp_all add: demo_report_def)
  have u: "st_selectbox [zh_understood, zh_need_more] (pick_understand demo_report) = zh_understood"
    by (simp add: p st_selectbox_def)
  have d: "map (field TASK_HEADERS ''done_status'') (ws_body demo_tasks) = [Some (CStr zh_waiting)]"
    by (simp add: demo_tasks_def field_def TASK_HEADERS_def)
  obtain msgs w' where run: "page_engineer_report demo_upload 1 demo_report demo_world = (Inr msgs, w')"
    and m: "msgs = [StSuccess msg_reported]"
    using demo_report_run by blast
  obtain v' where rev: "page_client_task_review 1 (\<lambda>tid. 1) True demo_world
      = (Inr [StSuccess msg_task_review_saved], v')"
    using demo_review_run by blast
  note t = done_status_spec [where f = demo_report and up = demo_upload and srs_id = 1
      and w = demo_world and msgs = msgs and w' = w' and pick = "\<lambda>tid. 1"
      and v = demo_world and s = demo_tasks and v' = v']
  from t s run u
  have a: "\<exists>rows new. sheets w' (srs_tasks_title 1) = Some \<lparr>ws_header = TASK_HEADERS, ws_body = rows @ [new]\<rparr>
        \<and> field TASK_HEADERS ''engineer_understand_status'' new = Some (CStr zh_understood)
        \<and> field TASK_HEADERS ''done_status'' new = Some (CStr zh_in_progress)"
    by simp
  from t demo_sheets(4) demo_tasks_wf(1) rev d
  have b: "\<exists>rows. sheets v' (srs_tasks_title 1) = Some \<lparr>ws_header = TASK_HEADERS, ws_body = rows\<rparr>
        \<and> map (field TASK_HEADERS ''done_status'') rows = [Some (CStr zh_waiting)]"
    by simp
  from a b run m rev s demo_sheets(4) demo_tasks_wf(1) show ?thesis by simp
qed

section \<open>The client_status column\<close>

text \<open>
  C10. The row an engineer report appends holds the pending value as \<open>client_status\<close>.
  A batch task review that is saved writes, for every task, the option picked in its
  selectbox, which is the pending or the approved value. A report on a Task table whose
  rows all hold one of the two values leaves a table whose rows all hold one of the two.
\<close>

theorem client_status_spec:
  "(submitted f \<and> page_engineer_report up srs_id f w = (Inr msgs, w') \<longrightarrow>
      (\<exists>rows new. sheets w' (srs_tasks_title srs_id) = Some \<lparr>ws_header = TASK_HEADERS, ws_body = rows @ [new]\<rparr>
         \<and> field TASK_HEADERS ''client_status'' new = Some (CStr zh_pending)))
   \<and> (page_client_task_review srs_id pick True v = (Inr [StSuccess msg_task_review_saved], v') \<longrightarrow>
      (\<exists>rows. sheets v' (srs_tasks_title srs_id) = Some \<lparr>ws_header = TASK_HEADERS, ws_body = rows\<rparr>
         \<and> list_all (\<lambda>r. field TASK_HEADERS ''client_status'' r = Some (CStr zh_pending)
                         \<or> field TASK_HEADERS ''client_status'' r = Some (CStr zh_approved)) rows))
   \<and> (submitted f \<and> sheets w (srs_tasks_title srs_id) = Some s \<and> well_formed TASK_HEADERS s
        \<and> list_all (\<lambda>r. field TASK_HEADERS ''client_status'' r = Some (CStr zh_pending)
                        \<or> field TASK_HEADERS ''client_status'' r = Some (CStr zh_approved)) (ws_body s)
        \<and> page_engineer_report up srs_id f w = (Inr msgs, w') \<longrightarrow>
      (\<exists>s'. sheets w' (srs_tasks_title srs_id) = Some s'
         \<and> list_all (\<lambda>r. field TASK_HEADERS ''client_status'' r = Some (CStr zh_pending)
                         \<or> field TASK_HEADERS ''client_status'' r = Some (CStr zh_approved)) (ws_body s')))"
proof (intro conjI impI)
  assume "submitted f \<and> page_engineer_report up srs_id f w = (Inr msgs, w')"
  then obtain rows n nm u where
    "sheets w' (srs_tasks_title srs_id) = Some
       \<lparr>ws_header = TASK_HEADERS,
        ws_body = rows @ [report_new_row n nm
          (st_selectbox [zh_understood, zh_need_more] (pick_understand f)) f u]\<rparr>"
    using page_engineer_report_new_row by blast
  then show "\<exists>rows new. sheets w' (srs_tasks_title srs_id) = Some \<lparr>ws_header = TASK_HEADERS, ws_body = rows @ [new]\<rparr>
         \<and> field TASK_HEADERS ''client_status'' new = Some (CStr zh_pending)"
    using report_new_row_fields(7) by blast
next
  assume "page_client_task_review srs_id pick True v = (Inr [StSuccess msg_task_review_saved], v')"
  from page_client_task_review_saved [OF this] obtain s0 rows where
    m: "mapE (task_review_row pick) (records_of s0) = Inr rows" and
    w: "sheets v' = (sheets v)(srs_tasks_title srs_id \<mapsto> \<lparr>ws_header = TASK_HEADERS, ws_body = rows\<rparr>)"
    by blast
  from review_client_status [OF m] w
  show "\<exists>rows. sheets v' (srs_tasks_title srs_id) = Some \<lparr>ws_header = TASK_HEADERS, ws_body = rows\<rparr>
         \<and> list_all (\<lambda>r. field TASK_HEADERS ''client_status'' r = Some (CStr zh_pending)
                         \<or> field TASK_HEADERS ''client_status'' r = Some (CStr zh_approved)) rows"
    by simp
next
  assume a: "submitted f \<and> sheets w (srs_tasks_title srs_id) = Some s \<and> well_formed TASK_HEADERS s
        \<and> list_all (\<lambda>r. field TASK_HEADERS ''client_status'' r = Some (CStr zh_pending)
                        \<or> field TASK_HEADERS ''client_status'' r = Some (CStr zh_approved)) (ws_body s)
        \<and> page_engineer_report up srs_id f w = (Inr msgs, w')"
  then have "\<exists>pm new_id urls.
           allocate_id (records_of s) = Inr new_id
         \<and> sheets w' = (sheets w)(srs_tasks_title srs_id \<mapsto>
              s\<lparr>ws_body := ws_body s @ [report_new_row new_id
                 (st_selectbox (subtask_options (pm_subtasks_of (snd pm))) (pick_subtask f))
                 (st_selectbox [zh_understood, zh_need_more] (pick_understand f)) f
                 (result_url_of urls)]\<rparr>)"
    using page_engineer_report_appends [of w srs_id s f up msgs w'] by blast
  with a show "\<exists>s'. sheets w' (srs_tasks_title srs_id) = Some s'
         \<and> list_all (\<lambda>r. field TASK_HEADERS ''client_status'' r = Some (CStr zh_pending)
                         \<or> field TASK_HEADERS ''client_status'' r = Some (CStr zh_approved)) (ws_body s')"
    using report_new_row_fields(7) by auto
qed

theorem client_status_spec_witness:
  "submitted demo_report
   \<and> sheets demo_world (srs_tasks_title 1) = Some demo_tasks \<and> well_formed TASK_HEADERS demo_tasks
   \<and> list_all (\<lambda>r. field TASK_HEADERS ''client_status'' r = Some (CStr zh_pending)
                   \<or> field TASK_HEADERS ''client_status'' r = Some (CStr zh_approved)) (ws_body demo_tasks)
   \<and> fst (page_engineer_report demo_upload 1 demo_report demo_world) = Inr [StSuccess msg_reported]
   \<and> (\<exists>s'. sheets (snd (page_engineer_report demo_upload 1 demo_report demo_world)) (srs_tasks_title 1) = Some s'
         \<and> list_all (\<lambda>r. field TASK_HEADERS ''client_status'' r = Some (CStr zh_pending)
                         \<or> field TASK_HEADERS ''client_status'' r = Some (CStr zh_approved)) (ws_body s'))
   \<and> fst (page_client_task_review 1 (\<lambda>tid. 1) True demo_world) = Inr [StSuccess msg_task_review_saved]
   \<and> (\<exists>rows. sheets (snd (page_client_task_review 1 (\<lambda>tid. 1) True demo_world)) (srs_tasks_title 1)
                = Some \<lparr>ws_header = TASK_HEADERS, ws_body = rows\<rparr>
        \<and> list_all (\<lambda>r. field TASK_HEADERS ''client_status'' r = Some (CStr zh_pending)
                        \<or> field TASK_HEADERS ''client_status'' r = Some (CStr zh_approved)) rows)"
proof -
  have s: "submitted demo_report" by (simp add: demo_report_def)
  have ok: "list_all (\<lambda>r. field TASK_HEADERS ''client_status'' r = Some (CStr zh_pending)
                   \<or> field TASK_HEADERS ''client_status'' r = Some (CStr zh_approved)) (ws_body demo_tasks)"
    by (simp add: demo_tasks_def field_def TASK_HEADERS_def)
  obtain msgs w' where run: "page_engineer_report demo_upload 1 demo_report demo_world = (Inr msgs, w')"
    and m: "msgs = [StSuccess msg_reported]"
    using demo_report_run by blast
  obtain v' where rev: "page_client_task_review 1 (\<lambda>tid. 1) True demo_world
      = (Inr [StSuccess msg_task_review_saved], v')"
    using demo_review_run by blast
  note t = client_status_spec [where f = demo_report and up = demo_upload and srs_id = 1
      and w = demo_world and msgs = msgs and w' = w' and pick = "\<lambda>tid. 1"
      and v = demo_world and s = demo_tasks and v' = v']
  from t s run demo_sheets(4) demo_tasks_wf(1) ok
  have a: "\<exists>s'. sheets w' (srs_tasks_title 1) = Some s'
         \<and> list_all (\<lambda>r. field TASK_HEADERS ''client_status'' r = Some (CStr zh_pending)
                         \<or> field TASK_HEADERS ''client_status'' r = Some (CStr zh_approved)) (ws_body s')"
    by blast
  from t rev
  have b: "\<exists>rows. sheets v' (srs_tasks_title 1) = Some \<lparr>ws_header = TASK_HEADERS, ws_body = rows\<rparr>
        \<and> list_all (\<lambda>r. field TASK_HEADERS ''client_status'' r = Some (CStr zh_pending)
                        \<or> field TASK_HEADERS ''client_status'' r = Some (CStr zh_approved)) rows"
    by blast
  from a b run m rev s demo_sheets(4) demo_tasks_wf(1) ok show ?thesis by simp
qed

section \<open>Reporting without a listed subtask\<close>

lemma subtask_name_listed:
  "pm_subtasks \<noteq> [] \<Longrightarrow> st_selectbox (subtask_options pm_subtasks) pick \<in> set pm_subtasks"
  by (simp add: subtask_options_def st_selectbox_mem)

lemma subtask_name_placeholder:
  "st_selectbox (subtask_options []) pick = CStr zh_no_subtask"
  by (simp add: subtask_options_def st_selectbox_def)

lemma demo_no_subtasks_sheets:
  "sheets demo_world_no_subtasks (pm_tasks_title 1) = Some \<lparr>ws_header = [''subtask''], ws_body = []\<rparr>"
  "sheets demo_world_no_subtasks (srs_tasks_title 1) = Some demo_tasks"
  "faults demo_world_no_subtasks = []"
  using demo_titles by (simp_all add: demo_world_no_subtasks_def)

lemma demo_no_subtasks_load:
  "load_pm_subtasks 1 demo_world_no_subtasks
     = (Inr ([StInfo msg_no_pm_subtasks], ([], [])), demo_world_no_subtasks)"
  using load_pm_subtasks_found [OF demo_no_subtasks_sheets(3) demo_no_subtasks_sheets(1)]
  by (simp add: values_of_def)

text \<open>
  C2. With no subtask name listed the report is not blocked: the page shows the note
  that no subtask exists, offers the placeholder as the only option, and a submitted
  form appends a task whose name is the placeholder and reports success.
\<close>

theorem report_without_subtasks:
  "fst (load_pm_subtasks 1 demo_world_no_subtasks) = Inr ([StInfo msg_no_pm_subtasks], ([], []))
   \<and> pm_subtasks_of ([], []) = []
   \<and> fst (page_engineer_report demo_upload 1 demo_report demo_world_no_subtasks)
        = Inr [StInfo msg_no_pm_subtasks, StSuccess msg_reported]
   \<and> sheets (snd (page_engineer_report demo_upload 1 demo_report demo_world_no_subtasks)) (srs_tasks_title 1)
        = Some \<lparr>ws_header = TASK_HEADERS,
                ws_body = ws_body demo_tasks @ [report_new_row 2 (CStr zh_no_subtask) zh_understood demo_report
                  ''https://dl.example/pm_system/srs_result/SRS_1/2_1700000000_out.csv?raw=1'']\<rparr>
   \<and> field TASK_HEADERS ''name'' (report_new_row 2 (CStr zh_no_subtask) zh_understood demo_report
          ''https://dl.example/pm_system/srs_result/SRS_1/2_1700000000_out.csv?raw=1'')
        = Some (CStr zh_no_subtask)"
proof -
  have s: "submitted demo_report" by (simp add: demo_report_def)
  have p: "pick_subtask demo_report = 0" "pick_understand demo_report = 0"
    by (simp_all add: demo_report_def)
  have e: "pm_subtasks_of ([], []) = []"
    by (simp add: pm_subtasks_of_def df_empty_def)
  have "page_engineer_report demo_upload 1 demo_report demo_world_no_subtasks
    = (Inr [StInfo msg_no_pm_subtasks, StSuccess msg_reported],
       demo_world_no_subtasks\<lparr>sheets := (sheets demo_world_no_subtasks)(srs_tasks_title 1 \<mapsto>
         \<lparr>ws_header = TASK_HEADERS,
          ws_body = ws_body demo_tasks @ [report_new_row 2 (CStr zh_no_subtask) zh_understood demo_report
            ''https://dl.example/pm_system/srs_result/SRS_1/2_1700000000_out.csv?raw=1'']\<rparr>)\<rparr>)"
    using page_engineer_report_clear [OF demo_no_subtasks_sheets(3) demo_no_subtasks_load
        demo_no_subtasks_sheets(2) demo_tasks_wf(2) demo_tasks_alloc demo_upload_urls
        task_rows_roundtrip [OF demo_tasks_wf(1)] s]
    by (simp add: p e subtask_options_def st_selectbox_def result_url_of_def)
  then show ?thesis
    by (simp add: demo_no_subtasks_load e report_new_row_fields(2))
qed

section \<open>The retry wrapper and the calls made outside it\<close>

lemma retry_delay_step: "retry_delay (Suc i) = retry_delay i + 1"
  by (simp add: retry_delay_def)

lemma with_retry_returns:
  "func w = (Inr v, w1) \<Longrightarrow> with_retry func w = (Inr v, w1)"
  by (rule with_retry_first) simp_all

lemma with_retry_propagates:
  "func w = (Inl e, w1) \<Longrightarrow> \<not> rate_limit_signal e \<Longrightarrow> with_retry func w = (Inl e, w1)"
  by (rule with_retry_first) simp_all

text \<open>
  The wrapper of lines 114-124. A call made through \<open>with_retry\<close> is attempted at most
  five times. A result or a failure that is no rate-limit signal ends the loop at once:
  the result is returned, the failure propagates. After the i-th failure with a
  rate-limit signal (i = 0..4) the wrapper sleeps \<open>1.2 + i\<close> seconds, each delay one second
  longer than the one before; after the fifth it raises a generic exception that asks to
  try again later. The attempts are counted on the script of coming API outcomes.
\<close>

theorem with_retry_policy:
  assumes "list_all rate_limit_signal es"
  shows "(func w = (Inr v, w1) \<longrightarrow> with_retry func w = (Inr v, w1))
       \<and> (func w = (Inl e, w1) \<and> \<not> rate_limit_signal e \<longrightarrow> with_retry func w = (Inl e, w1))
       \<and> (length es < 5 \<and> faults w = map Some es @ None # rest \<and> op (sheets w) = Inr (x, b) \<longrightarrow>
            with_retry (api_call op) w
              = (Inr x, w\<lparr>sheets := b, faults := rest, slept := slept w @ map retry_delay [0..<length es]\<rparr>))
       \<and> (length es < 5 \<and> faults w = map Some es @ Some e # rest \<and> \<not> rate_limit_signal e \<longrightarrow>
            with_retry (api_call op) w
              = (Inl e, w\<lparr>faults := rest, slept := slept w @ map retry_delay [0..<length es]\<rparr>))
       \<and> (length es = 5 \<and> faults w = map Some es @ rest \<longrightarrow>
            with_retry (api_call op) w
              = (Inl (Exception msg_retry_exhausted),
                 w\<lparr>faults := rest, slept := slept w @ [12 / 10, 22 / 10, 32 / 10, 42 / 10, 52 / 10]\<rparr>))
       \<and> retry_delay 0 = 12 / 10 \<and> retry_delay (Suc i) = retry_delay i + 1"
proof (intro conjI impI)
  assume "func w = (Inr v, w1)"
  then show "with_retry func w = (Inr v, w1)" by (rule with_retry_returns)
next
  assume "func w = (Inl e, w1) \<and> \<not> rate_limit_signal e"
  then show "with_retry func w = (Inl e, w1)" using with_retry_propagates by blast
next
  assume "length es < 5 \<and> faults w = map Some es @ None # rest \<and> op (sheets w) = Inr (x, b)"
  then have "length es < 5" "faults w = map Some es @ None # rest" "op (sheets w) = Inr (x, b)"
    by simp_all
  then show "with_retry (api_call op) w
      = (Inr x, w\<lparr>sheets := b, faults := rest, slept := slept w @ map retry_delay [0..<length es]\<rparr>)"
    by (rule with_retry_success_after [OF assms])
next
  assume "length es < 5 \<and> faults w = map Some es @ Some e # rest \<and> \<not> rate_limit_signal e"
  then have "length es < 5" "faults w = map Some es @ Some e # rest" "\<not> rate_limit_signal e"
    by simp_all
  then show "with_retry (api_call op) w
      = (Inl e, w\<lparr>faults := rest, slept := slept w @ map retry_delay [0..<length es]\<rparr>)"
    by (rule with_retry_other_failure [OF assms])
next
  assume "length es = 5 \<and> faults w = map Some es @ rest"
  then have "length es = 5" "faults w = map Some es @ rest"
    by simp_all
  then show "with_retry (api_call op) w
      = (Inl (Exception msg_retry_exhausted),
         w\<lparr>faults := rest, slept := slept w @ [12 / 10, 22 / 10, 32 / 10, 42 / 10, 52 / 10]\<rparr>)"
    by (rule with_retry_exhausted [OF assms])
next
  show "retry_delay 0 = 12 / 10" by (simp add: retry_delay_def)
  show "retry_delay (Suc i) = retry_delay i + 1" by (rule retry_delay_step)
qed

lemma demo_signals:
  "rate_limit_signal (APIError ''429 Too Many Requests'')"
  "rate_limit_signal (APIError ''Quota exceeded for quota metric'')"
  "\<not> rate_limit_signal (APIError ''500 Internal error'')"
  by (simp_all add: rate_limit_signal_def)

theorem with_retry_policy_witness:
  "list_all rate_limit_signal [APIError ''429 Too Many Requests'', APIError ''Quota exceeded for quota metric'']
   \<and> with_retry (sh_worksheet ''srs_index'')
        (demo_world\<lparr>faults := [Some (APIError ''429 Too Many Requests''),
                                Some (APIError ''Quota exceeded for quota metric''), None]\<rparr>)
      = (Inr ''srs_index'', demo_world\<lparr>slept := [12 / 10, 22 / 10]\<rparr>)
   \<and> with_retry (sh_worksheet ''srs_index'')
        (demo_world\<lparr>faults := [Some (APIError ''429 Too Many Requests''),
                                Some (APIError ''500 Internal error''), None]\<rparr>)
      = (Inl (APIError ''500 Internal error''), demo_world\<lparr>faults := [None], slept := [12 / 10]\<rparr>)
   \<and> with_retry (sh_worksheet ''srs_index'')
        (demo_world\<lparr>faults := replicate 5 (Some (APIError ''429 Too Many Requests'')) @ [None]\<rparr>)
      = (Inl (Exception msg_retry_exhausted),
         demo_world\<lparr>faults := [None], slept := [12 / 10, 22 / 10, 32 / 10, 42 / 10, 52 / 10]\<rparr>)"
proof -
  let ?a = "APIError ''429 Too Many Requests''" and ?q = "APIError ''Quota exceeded for quota metric''"
  let ?o = "APIError ''500 Internal error''"
  have l2: "list_all rate_limit_signal [?a, ?q]" and l1: "list_all rate_limit_signal [?a]"
    and l5: "list_all rate_limit_signal (replicate 5 ?a)"
    using demo_signals by (simp_all add: list_all_iff)
  have g: "gs_worksheet ''srs_index'' (sheets demo_world) = Inr (''srs_index'', sheets demo_world)"
    by (simp add: gs_worksheet_def demo_sheets(1))
  have d: "slept demo_world = []" "faults demo_world = []" by (simp_all add: demo_world_def)
  have w0: "demo_world\<lparr>sheets := sheets demo_world, faults := [], slept := s\<rparr> = demo_world\<lparr>slept := s\<rparr>" for s
    using d by simp
  let ?W2 = "demo_world\<lparr>faults := [Some ?a, Some ?q, None]\<rparr>"
  let ?W1 = "demo_world\<lparr>faults := [Some ?a, Some ?o, None]\<rparr>"
  let ?W5 = "demo_world\<lparr>faults := replicate 5 (Some ?a) @ [None]\<rparr>"
  have "length [?a, ?q] < 5 \<and> faults ?W2 = map Some [?a, ?q] @ None # []
          \<and> gs_worksheet ''srs_index'' (sheets ?W2) = Inr (''srs_index'', sheets demo_world) \<longrightarrow>
        with_retry (api_call (gs_worksheet ''srs_index'')) ?W2
          = (Inr ''srs_index'', ?W2\<lparr>sheets := sheets demo_world, faults := [],
               slept := slept ?W2 @ map retry_delay [0..<length [?a, ?q]]\<rparr>)"
    by (rule with_retry_policy [OF l2, THEN conjunct2, THEN conjunct2, THEN conjunct1])
  then have a: "with_retry (sh_worksheet ''srs_index'') ?W2
      = (Inr ''srs_index'', demo_world\<lparr>slept := [12 / 10, 22 / 10]\<rparr>)"
    using g d by (simp add: sh_worksheet_def retry_delay_def upt_rec)
  have "length [?a] < 5 \<and> faults ?W1 = map Some [?a] @ Some ?o # [None] \<and> \<not> rate_limit_signal ?o \<longrightarrow>
        with_retry (api_call (gs_worksheet ''srs_index'')) ?W1
          = (Inl ?o, ?W1\<lparr>faults := [None], slept := slept ?W1 @ map retry_delay [0..<length [?a]]\<rparr>)"
    by (rule with_retry_policy [OF l1, THEN conjunct2, THEN conjunct2, THEN conjunct2, THEN conjunct1])
  then have b: "with_retry (sh_worksheet ''srs_index'') ?W1
      = (Inl ?o, demo_world\<lparr>faults := [None], slept := [12 / 10]\<rparr>)"
    using demo_signals(3) d by (simp add: sh_worksheet_def retry_delay_def)
  have "length (replicate 5 ?a) = 5 \<and> faults ?W5 = map Some (replicate 5 ?a) @ [None] \<longrightarrow>
        with_retry (api_call (gs_worksheet ''srs_index'')) ?W5
          = (Inl (Exception msg_retry_exhausted),
             ?W5\<lparr>faults := [None], slept := slept ?W5 @ [12 / 10, 22 / 10, 32 / 10, 42 / 10, 52 / 10]\<rparr>)"
    by (rule with_retry_policy [OF l5, THEN conjunct2, THEN conjunct2, THEN conjunct2, THEN conjunct2,
          THEN conjunct1])
  then have c: "with_retry (sh_worksheet ''srs_index'') ?W5
      = (Inl (Exception msg_retry_exhausted),
         demo_world\<lparr>faults := [None], slept := [12 / 10, 22 / 10, 32 / 10, 42 / 10, 52 / 10]\<rparr>)"
    using d by (simp add: sh_worksheet_def)
  from l2 a b c show ?thesis by simp
qed

text \<open>
  C8. Not every call of the spreadsheet API is retried. The lookup of the PM-Subtask
  worksheet on the engineer page (line 445) calls \<open>sh.worksheet\<close> directly, where
  \<open>ensure_worksheet\<close> (line 132) makes the same lookup through \<open>with_retry\<close>. A
  rate-limit failure of that call is propagated at once, without a sleep and without a
  second attempt: the next outcome of the script, a call that goes through, is left
  unused. The same lookup made through \<open>with_retry\<close> sleeps 1.2 seconds and returns.
\<close>

theorem unwrapped_call_not_retried:
  "rate_limit_signal (APIError ''429 Too Many Requests'')
   \<and> load_pm_subtasks 1 (demo_world\<lparr>faults := [Some (APIError ''429 Too Many Requests''), None]\<rparr>)
      = (Inl (APIError ''429 Too Many Requests''), demo_world\<lparr>faults := [None]\<rparr>)
   \<and> slept demo_world = []
   \<and> with_retry (sh_worksheet (pm_tasks_title 1))
        (demo_world\<lparr>faults := [Some (APIError ''429 Too Many Requests''), None]\<rparr>)
      = (Inr (pm_tasks_title 1), demo_world\<lparr>slept := [12 / 10]\<rparr>)"
proof -
  let ?a = "APIError ''429 Too Many Requests''"
  let ?W = "demo_world\<lparr>faults := [Some ?a, None]\<rparr>"
  have d: "slept demo_world = []" "faults demo_world = []" by (simp_all add: demo_world_def)
  have "sh_worksheet (pm_tasks_title 1) ?W = (Inl ?a, demo_world\<lparr>faults := [None]\<rparr>)"
    by (simp add: sh_worksheet_def api_call_fault)
  then have a: "load_pm_subtasks 1 ?W = (Inl ?a, demo_world\<lparr>faults := [None]\<rparr>)"
    by (simp add: load_pm_subtasks_def try_except_def bindE_def)
  have g: "gs_worksheet (pm_tasks_title 1) (sheets demo_world) = Inr (pm_tasks_title 1, sheets demo_world)"
    by (simp add: gs_worksheet_def demo_sheets(3))
  have "with_retry (api_call (gs_worksheet (pm_tasks_title 1))) ?W
      = (Inr (pm_tasks_title 1),
         ?W\<lparr>sheets := sheets demo_world, faults := [],
           slept := slept ?W @ map retry_delay [0..<length [?a]]\<rparr>)"
    by (rule with_retry_success_after [where es = "[?a]" and rest = "[]"])
       (simp_all add: demo_signals(1) g)
  then have b: "with_retry (sh_worksheet (pm_tasks_title 1)) ?W
      = (Inr (pm_tasks_title 1), demo_world\<lparr>slept := [12 / 10]\<rparr>)"
    using d by (simp add: sh_worksheet_def retry_delay_def)
  show ?thesis
    by (intro conjI) (rule demo_signals(1) a d b)+
qed

section \<open>The spec review: rows written\<close>

lemma mapE_map_eq:
  "mapE f (map g xs) = Inr ys \<Longrightarrow> (\<And>x y. x \<in> set xs \<Longrightarrow> f (g x) = Inr y \<Longrightarrow> y = h x)
   \<Longrightarrow> ys = map h xs"
proof (induction xs arbitrary: ys)
  case Nil
  then show ?case by simp
next
  case (Cons x xs)
  from Cons.prems(1) obtain y ys' where y: "f (g x) = Inr y" and ys': "mapE f (map g xs) = Inr ys'"
    and ys: "ys = y # ys'"
    by (auto split: sum.splits)
  have "y = h x" using Cons.prems(2) [of x y] y by simp
  moreover have "ys' = map h xs"
    using ys' Cons.prems(2) by (intro Cons.IH) auto
  ultimately show ?case using ys by simp
qed

lemma srs_record_id:
  assumes "length r = 13"
  shows "dict_getitem (Map.empty(SRS_INDEX_HEADERS [\<mapsto>] r)) ''id'' = Inr (hd r)"
proof -
  have "(Map.empty(SRS_INDEX_HEADERS [\<mapsto>] r)) (SRS_INDEX_HEADERS ! 0) = Some (r ! 0)"
    using assms by (intro map_upds_nth) (simp_all add: distinct_SRS_INDEX_HEADERS)
  moreover have "r ! 0 = hd r" using assms by (cases r) simp_all
  ultimately show ?thesis
    by (simp add: dict_getitem_def SRS_INDEX_HEADERS_def)
qed

lemma review_row_wellformed_result:
  assumes "length r = 13"
    and "review_row srs_id st c (Map.empty(SRS_INDEX_HEADERS [\<mapsto>] r)) = Inr y"
  shows "y = (if py_int (hd r) = Inr srs_id then take 11 r @ [CStr st, CStr c] else r)"
proof (cases "py_int (hd r)")
  case (Inl e)
  with assms(2) srs_record_id [OF assms(1)] show ?thesis
    by (simp add: review_row_def)
next
  case (Inr i)
  from review_row_wellformed [OF assms(1) Inr, of srs_id st c] assms(2) Inr show ?thesis
    by auto
qed

lemma review_rows_result:
  assumes "well_formed SRS_INDEX_HEADERS s"
    and "mapE (review_row srs_id st c) (records_of s) = Inr rows"
  shows "rows = map (\<lambda>r. if py_int (hd r) = Inr srs_id then take 11 r @ [CStr st, CStr c] else r) (ws_body s)"
  using assms(2) unfolding records_of_wellformed [OF assms(1)]
proof (rule mapE_map_eq)
  fix r y
  assume "r \<in> set (ws_body s)"
  with assms(1) have "length r = 13"
    by (simp add: well_formed_def list_all_iff distinct_SRS_INDEX_HEADERS(2))
  moreover assume "review_row srs_id st c (Map.empty(SRS_INDEX_HEADERS [\<mapsto>] r)) = Inr y"
  ultimately show "y = (if py_int (hd r) = Inr srs_id then take 11 r @ [CStr st, CStr c] else r)"
    by (rule review_row_wellformed_result)
qed

lemma overview_row_wellformed:
  assumes "length r = 2"
  shows "overview_row st c (Map.empty(SRS_OVERVIEW_HEADERS [\<mapsto>] r))
     = (if hd r = CStr zh_review_status then [hd r, CStr st]
        else if hd r = CStr zh_review_comment then [hd r, CStr c]
        else r)"
proof -
  from assms obtain a b where r: "r = [a, b]"
    by (auto simp: numeral_eq_Suc length_Suc_conv)
  show ?thesis
    using overview_headers_distinct
    by (simp add: r overview_row_def SRS_OVERVIEW_HEADERS_def dict_get_def Let_def)
qed

lemma overview_rows_wellformed:
  assumes "well_formed SRS_OVERVIEW_HEADERS ov"
  shows "map (overview_row st c) (records_of ov)
     = map (\<lambda>r. if hd r = CStr zh_review_status then [hd r, CStr st]
                 else if hd r = CStr zh_review_comment then [hd r, CStr c]
                 else r) (ws_body ov)"
proof -
  have "overview_row st c (Map.empty(SRS_OVERVIEW_HEADERS [\<mapsto>] r))
     = (if hd r = CStr zh_review_status then [hd r, CStr st]
        else if hd r = CStr zh_review_comment then [hd r, CStr c]
        else r)" if "r \<in> set (ws_body ov)" for r
  proof (rule overview_row_wellformed)
    from assms that show "length r = 2"
      by (simp add: well_formed_def list_all_iff SRS_OVERVIEW_HEADERS_def)
  qed
  then show ?thesis
    unfolding records_of_wellformed [OF assms] by simp
qed

lemma srs_review_save_wellformed:
  assumes "faults w = []" and "sheets w ''srs_index'' = Some s"
    and "well_formed SRS_INDEX_HEADERS s"
    and "list_all (\<lambda>r. \<exists>i. py_int (hd r) = Inr i) (ws_body s)"
    and "sheets w (srs_overview_title srs_id) = Some ov"
    and "well_formed SRS_OVERVIEW_HEADERS ov"
    and "st = st_selectbox [zh_pending, zh_approved] pick"
  shows "srs_review_save srs_id pick c w
    = (Inr (StSuccess msg_review_saved),
       w\<lparr>sheets := (sheets w)
          (''srs_index'' \<mapsto> s\<lparr>ws_body :=
              map (\<lambda>r. if py_int (hd r) = Inr srs_id then take 11 r @ [CStr st, CStr c] else r) (ws_body s)\<rparr>,
           srs_overview_title srs_id \<mapsto> ov\<lparr>ws_body :=
              map (\<lambda>r. if hd r = CStr zh_review_status then [hd r, CStr st]
                        else if hd r = CStr zh_review_comment then [hd r, CStr c]
                        else r) (ws_body ov)\<rparr>)\<rparr>)"
proof -
  from assms(3) have hs: "ws_header s = SRS_INDEX_HEADERS" by (simp add: well_formed_def)
  from assms(6) have ho: "ws_header ov = SRS_OVERVIEW_HEADERS" by (simp add: well_formed_def)
  show ?thesis
    using srs_review_save_clear [OF assms(1,2)
        review_rows_wellformed [OF assms(3,4), of srs_id "st_selectbox [zh_pending, zh_approved] pick" c]
        assms(5)]
    unfolding assms(7) worksheet_body_update [OF hs] worksheet_body_update [OF ho]
      overview_rows_wellformed [OF assms(6)] .
qed

section \<open>The spec review: the Overview copy\<close>

lemma list13:
  "length (r :: 'a list) = 13 \<Longrightarrow>
   \<exists>a0 a1 a2 a3 a4 a5 a6 a7 a8 a9 a10 a11 a12. r = [a0, a1, a2, a3, a4, a5, a6, a7, a8, a9, a10, a11, a12]"
  by (auto simp: numeral_eq_Suc length_Suc_conv)

lemma reviewed_row_fields:
  assumes "length r = 13"
  shows "field SRS_INDEX_HEADERS ''status'' (take 11 r @ [CStr st, CStr c]) = Some (CStr st)"
    and "field SRS_INDEX_HEADERS ''review_comment'' (take 11 r @ [CStr st, CStr c]) = Some (CStr c)"
    and "h \<noteq> ''status'' \<Longrightarrow> h \<noteq> ''review_comment'' \<Longrightarrow>
         field SRS_INDEX_HEADERS h (take 11 r @ [CStr st, CStr c]) = field SRS_INDEX_HEADERS h r"
proof -
  from list13 [OF assms] obtain a0 a1 a2 a3 a4 a5 a6 a7 a8 a9 a10 a11 a12
    where r: "r = [a0, a1, a2, a3, a4, a5, a6, a7, a8, a9, a10, a11, a12]" by blast
  show "field SRS_INDEX_HEADERS ''status'' (take 11 r @ [CStr st, CStr c]) = Some (CStr st)"
    by (simp add: r field_def SRS_INDEX_HEADERS_def)
  show "field SRS_INDEX_HEADERS ''review_comment'' (take 11 r @ [CStr st, CStr c]) = Some (CStr c)"
    by (simp add: r field_def SRS_INDEX_HEADERS_def)
  show "field SRS_INDEX_HEADERS h (take 11 r @ [CStr st, CStr c]) = field SRS_INDEX_HEADERS h r"
    if "h \<noteq> ''status''" "h \<noteq> ''review_comment''"
    using that by (simp add: r field_def SRS_INDEX_HEADERS_def)
qed

lemma mirror_overview_cases:
  assumes "mirror_overview srs_id st c w = (r, w')"
  shows "r = Inr () \<and> ((\<exists>u. mirror_overview_body srs_id st c w = (Inr u, w'))
                        \<or> (\<exists>e. mirror_overview_body srs_id st c w = (Inl e, w')))"
proof -
  obtain r1 w1 where b: "mirror_overview_body srs_id st c w = (r1, w1)" by force
  with assms show ?thesis
    unfolding mirror_overview_def try_except_def
    by (cases r1) (auto simp: returnE_def)
qed

lemma srs_review_save_overview:
  assumes "srs_review_save srs_id pick c w = (Inr msg, w')"
  shows "\<exists>s rows w2.
           sheets w ''srs_index'' = Some s
         \<and> mapE (review_row srs_id (st_selectbox [zh_pending, zh_approved] pick) c) (records_of s) = Inr rows
         \<and> sheets w' ''srs_index'' = Some \<lparr>ws_header = SRS_INDEX_HEADERS, ws_body = rows\<rparr>
         \<and> sheets w2 = (sheets w)(''srs_index'' \<mapsto> \<lparr>ws_header = SRS_INDEX_HEADERS, ws_body = rows\<rparr>)
         \<and> ((\<exists>ov. mirror_overview_body srs_id (st_selectbox [zh_pending, zh_approved] pick) c w2 = (Inr (), w')
                  \<and> sheets w (srs_overview_title srs_id) = Some ov
                  \<and> sheets w' = (sheets w)
                       (''srs_index'' \<mapsto> \<lparr>ws_header = SRS_INDEX_HEADERS, ws_body = rows\<rparr>,
                        srs_overview_title srs_id \<mapsto>
                          \<lparr>ws_header = SRS_OVERVIEW_HEADERS,
                           ws_body = map (overview_row (st_selectbox [zh_pending, zh_approved] pick) c)
                                       (records_of ov)\<rparr>))
            \<or> (\<exists>e. mirror_overview_body srs_id (st_selectbox [zh_pending, zh_approved] pick) c w2 = (Inl e, w')))"
proof -
  let ?st = "st_selectbox [zh_pending, zh_approved] pick"
  from srs_review_save_Inr [OF assms] obtain s rows w2 where
    s: "sheets w ''srs_index'' = Some s" and
    r: "mapE (review_row srs_id ?st c) (records_of s) = Inr rows" and
    s2: "sheets w2 = (sheets w)(''srs_index'' \<mapsto> \<lparr>ws_header = SRS_INDEX_HEADERS, ws_body = rows\<rparr>)" and
    m: "mirror_overview srs_id ?st c w2 = (Inr (), w')" and
    s': "sheets w' ''srs_index'' = Some \<lparr>ws_header = SRS_INDEX_HEADERS, ws_body = rows\<rparr>"
    by blast
  from s2 have t: "sheets w2 (srs_overview_title srs_id) = sheets w (srs_overview_title srs_id)"
    using overview_title_not_index [of srs_id] by simp
  from mirror_overview_cases [OF m]
  consider u where "mirror_overview_body srs_id ?st c w2 = (Inr u, w')"
    | e where "mirror_overview_body srs_id ?st c w2 = (Inl e, w')"
    by auto
  then have "(\<exists>ov. mirror_overview_body srs_id ?st c w2 = (Inr (), w')
                  \<and> sheets w (srs_overview_title srs_id) = Some ov
                  \<and> sheets w' = (sheets w)
                       (''srs_index'' \<mapsto> \<lparr>ws_header = SRS_INDEX_HEADERS, ws_body = rows\<rparr>,
                        srs_overview_title srs_id \<mapsto>
                          \<lparr>ws_header = SRS_OVERVIEW_HEADERS,
                           ws_body = map (overview_row ?st c) (records_of ov)\<rparr>))
            \<or> (\<exists>e. mirror_overview_body srs_id ?st c w2 = (Inl e, w'))"
  proof cases
    case 1
    from mirror_overview_body_Inr [OF 1] t s2 obtain ov where
      "sheets w (srs_overview_title srs_id) = Some ov"
      "sheets w' = (sheets w)
         (''srs_index'' \<mapsto> \<lparr>ws_header = SRS_INDEX_HEADERS, ws_body = rows\<rparr>,
          srs_overview_title srs_id \<mapsto>
            \<lparr>ws_header = SRS_OVERVIEW_HEADERS, ws_body = map (overview_row ?st c) (records_of ov)\<rparr>)"
      by auto
    with 1 show ?thesis by simp
  next
    case 2
    then show ?thesis by blast
  qed
  with s r s' s2 show ?thesis by blast
qed

lemma read_all_through:
  assumes "faults w = None # fs" and "sheets w ws = Some s"
  shows "read_all ws w = (Inr (records_of s), w\<lparr>faults := fs\<rparr>)"
proof -
  have "ws_get_all_records ws w = (Inr (records_of s), w\<lparr>faults := fs\<rparr>)"
    using assms by (simp add: ws_get_all_records_def api_call_through on_sheet_Some fun_upd_idem)
  then show ?thesis
    unfolding read_all_def by (simp add: with_retry_first)
qed

lemma rewrite_sheet_through:
  assumes "faults w = None # None # None # fs" and "sheets w ws = Some s" and "rows \<noteq> []"
  shows "rewrite_sheet ws headers rows w
    = (Inr (), w\<lparr>sheets := (sheets w)(ws \<mapsto> \<lparr>ws_header = headers, ws_body = rows\<rparr>), faults := fs\<rparr>)"
proof -
  let ?w1 = "w\<lparr>sheets := (sheets w)(ws \<mapsto> \<lparr>ws_header = [], ws_body = []\<rparr>), faults := None # None # fs\<rparr>"
  let ?w2 = "w\<lparr>sheets := (sheets w)(ws \<mapsto> \<lparr>ws_header = headers, ws_body = []\<rparr>), faults := None # fs\<rparr>"
  let ?w3 = "w\<lparr>sheets := (sheets w)(ws \<mapsto> \<lparr>ws_header = headers, ws_body = rows\<rparr>), faults := fs\<rparr>"
  have "ws_clear ws w = (Inr (), ?w1)"
    using assms by (simp add: ws_clear_def api_call_through on_sheet_Some)
  then have c: "with_retry (ws_clear ws) w = (Inr (), ?w1)"
    by (simp add: with_retry_first)
  have "ws_update_A1 ws headers ?w1 = (Inr (), ?w2)"
    by (simp add: ws_update_A1_def api_call_through [where fs = "None # fs"] on_sheet_Some)
  then have h: "with_retry (ws_update_A1 ws headers) ?w1 = (Inr (), ?w2)"
    by (simp add: with_retry_first)
  have "ws_update_A2 ws rows ?w2 = (Inr (), ?w3)"
    by (simp add: ws_update_A2_def api_call_through [where fs = fs] on_sheet_Some)
  then have b: "with_retry (ws_update_A2 ws rows) ?w2 = (Inr (), ?w3)"
    by (simp add: with_retry_first)
  show ?thesis
    unfolding rewrite_sheet_def
    by (simp add: bindE_def c h b assms(3))
qed

section \<open>The spec review\<close>

lemma demo_index_wf:
  "well_formed SRS_INDEX_HEADERS demo_index"
  "list_all (\<lambda>r. \<exists>i. py_int (hd r) = Inr i) (ws_body demo_index)"
  by (simp_all add: well_formed_def demo_index_def SRS_INDEX_HEADERS_def)

lemma demo_index_reviewed:
  "map (\<lambda>r. if py_int (hd r) = Inr 1 then take 11 r @ [CStr zh_approved, CStr ''looks good''] else r)
     (ws_body demo_index)
   = [[CInt 1, CInt 1, CStr ''Export CSV'', CStr '''', CStr ''Need a report export feature'',
       CStr '''', CStr '''', CStr '''', CStr ''v0.1'', CStr '''', CStr ''2024-01-02 10:00:00'',
       CStr zh_approved, CStr ''looks good'']]"
  by (simp add: demo_index_def)

lemma demo_overview_wf: "well_formed SRS_OVERVIEW_HEADERS demo_overview"
  by (simp add: well_formed_def demo_overview_def SRS_OVERVIEW_HEADERS_def)

lemma demo_overview_reviewed:
  "map (\<lambda>r. if hd r = CStr zh_review_status then [hd r, CStr zh_approved]
             else if hd r = CStr zh_review_comment then [hd r, CStr ''looks good'']
             else r) (ws_body demo_overview)
   = [[CStr ''SRS ID'', CInt 1],
      [CStr zh_review_status, CStr zh_approved],
      [CStr zh_review_comment, CStr ''looks good'']]"
proof -
  have "''SRS ID'' \<noteq> zh_review_status" "''SRS ID'' \<noteq> zh_review_comment"
    by (simp_all add: zh_review_status_def zh_review_comment_def)
  then show ?thesis
    using overview_key_distinct by (simp add: demo_overview_def)
qed

text \<open>
  C3, as amended. A review-save that returns has shown the success message and has
  rewritten the RequirementSpec table from the records it read: on a table whose rows
  fill the thirteen columns, every row whose id is the reviewed one keeps its first
  eleven fields and gets the picked status and the comment as \<open>status\<close> and
  \<open>review_comment\<close>, and every other row is written back as it was. When the Overview
  step of that save went through, the Overview table is rewritten too: on an Overview
  whose rows fill the two columns, the row with the review-status key holds the picked
  status, the row with the review-comment key holds the comment, the two values the
  RequirementSpec row now has, and every other row is as it was. When the Overview step
  failed, the failure is dropped: the step always returns normally, so the save reports
  success whenever the RequirementSpec rewrite went through. Without backend failures
  both tables are updated.
\<close>

theorem spec_review_spec:
  assumes "st = st_selectbox [zh_pending, zh_approved] pick"
  shows
  "(srs_review_save srs_id pick c w = (Inr msg, w') \<longrightarrow>
      msg = StSuccess msg_review_saved
      \<and> (\<exists>s rows w2. sheets w ''srs_index'' = Some s
            \<and> mapE (review_row srs_id st c) (records_of s) = Inr rows
            \<and> sheets w' ''srs_index'' = Some \<lparr>ws_header = SRS_INDEX_HEADERS, ws_body = rows\<rparr>
            \<and> (well_formed SRS_INDEX_HEADERS s \<longrightarrow>
                 rows = map (\<lambda>r. if py_int (hd r) = Inr srs_id
                                  then take 11 r @ [CStr st, CStr c] else r) (ws_body s))
            \<and> sheets w2 = (sheets w)(''srs_index'' \<mapsto> \<lparr>ws_header = SRS_INDEX_HEADERS, ws_body = rows\<rparr>)
            \<and> ((\<exists>ov. mirror_overview_body srs_id st c w2 = (Inr (), w')
                     \<and> sheets w (srs_overview_title srs_id) = Some ov
                     \<and> sheets w' = (sheets w)
                          (''srs_index'' \<mapsto> \<lparr>ws_header = SRS_INDEX_HEADERS, ws_body = rows\<rparr>,
                           srs_overview_title srs_id \<mapsto>
                             \<lparr>ws_header = SRS_OVERVIEW_HEADERS,
                              ws_body = map (overview_row st c) (records_of ov)\<rparr>)
                     \<and> (well_formed SRS_OVERVIEW_HEADERS ov \<longrightarrow>
                          sheets w' (srs_overview_title srs_id)
                            = Some \<lparr>ws_header = SRS_OVERVIEW_HEADERS,
                                    ws_body =
                                      map (\<lambda>r. if hd r = CStr zh_review_status then [hd r, CStr st]
                                                else if hd r = CStr zh_review_comment then [hd r, CStr c]
                                                else r) (ws_body ov)\<rparr>))
               \<or> (\<exists>e. mirror_overview_body srs_id st c w2 = (Inl e, w')))))
   \<and> (length r = 13 \<longrightarrow>
        field SRS_INDEX_HEADERS ''status'' (take 11 r @ [CStr st, CStr c]) = Some (CStr st)
        \<and> field SRS_INDEX_HEADERS ''review_comment'' (take 11 r @ [CStr st, CStr c]) = Some (CStr c)
        \<and> (\<forall>h. h \<noteq> ''status'' \<and> h \<noteq> ''review_comment'' \<longrightarrow>
              field SRS_INDEX_HEADERS h (take 11 r @ [CStr st, CStr c]) = field SRS_INDEX_HEADERS h r))
   \<and> (length x = 2 \<longrightarrow>
        overview_row st c (Map.empty(SRS_OVERVIEW_HEADERS [\<mapsto>] x))
          = (if hd x = CStr zh_review_status then [hd x, CStr st]
             else if hd x = CStr zh_review_comment then [hd x, CStr c]
             else x))
   \<and> (\<exists>v'. mirror_overview srs_id st c v = (Inr (), v'))
   \<and> (read_all ''srs_index'' w = (Inr srs, w1) \<and> mapE (review_row srs_id st c) srs = Inr rows1
        \<and> rewrite_sheet ''srs_index'' SRS_INDEX_HEADERS rows1 w1 = (Inr (), w3) \<longrightarrow>
        (\<exists>w4. srs_review_save srs_id pick c w = (Inr (StSuccess msg_review_saved), w4)))
   \<and> (faults w = [] \<and> sheets w ''srs_index'' = Some si \<and> well_formed SRS_INDEX_HEADERS si
        \<and> list_all (\<lambda>r. \<exists>i. py_int (hd r) = Inr i) (ws_body si)
        \<and> sheets w (srs_overview_title srs_id) = Some so \<and> well_formed SRS_OVERVIEW_HEADERS so \<longrightarrow>
        srs_review_save srs_id pick c w
          = (Inr (StSuccess msg_review_saved),
             w\<lparr>sheets := (sheets w)
                (''srs_index'' \<mapsto> si\<lparr>ws_body :=
                    map (\<lambda>r. if py_int (hd r) = Inr srs_id
                              then take 11 r @ [CStr st, CStr c] else r) (ws_body si)\<rparr>,
                 srs_overview_title srs_id \<mapsto> so\<lparr>ws_body :=
                    map (\<lambda>r. if hd r = CStr zh_review_status then [hd r, CStr st]
                              else if hd r = CStr zh_review_comment then [hd r, CStr c]
                              else r) (ws_body so)\<rparr>)\<rparr>))
   \<and> (st = zh_pending \<or> st = zh_approved)"
proof (intro conjI impI allI)
  assume a: "srs_review_save srs_id pick c w = (Inr msg, w')"
  from srs_review_save_Inr [OF a] show "msg = StSuccess msg_review_saved" by blast
  from srs_review_save_overview [OF a] obtain s rows w2 where
    s: "sheets w ''srs_index'' = Some s" and
    m: "mapE (review_row srs_id st c) (records_of s) = Inr rows" and
    s': "sheets w' ''srs_index'' = Some \<lparr>ws_header = SRS_INDEX_HEADERS, ws_body = rows\<rparr>" and
    s2: "sheets w2 = (sheets w)(''srs_index'' \<mapsto> \<lparr>ws_header = SRS_INDEX_HEADERS, ws_body = rows\<rparr>)" and
    d: "(\<exists>ov. mirror_overview_body srs_id st c w2 = (Inr (), w')
              \<and> sheets w (srs_overview_title srs_id) = Some ov
              \<and> sheets w' = (sheets w)
                   (''srs_index'' \<mapsto> \<lparr>ws_header = SRS_INDEX_HEADERS, ws_body = rows\<rparr>,
                    srs_overview_title srs_id \<mapsto>
                      \<lparr>ws_header = SRS_OVERVIEW_HEADERS,
                       ws_body = map (overview_row st c) (records_of ov)\<rparr>))
         \<or> (\<exists>e. mirror_overview_body srs_id st c w2 = (Inl e, w'))"
    unfolding assms [symmetric] by blast
  have r: "rows = map (\<lambda>r. if py_int (hd r) = Inr srs_id
                         then take 11 r @ [CStr st, CStr c] else r) (ws_body s)"
    if "well_formed SRS_INDEX_HEADERS s"
    using that m by (rule review_rows_result)
  have o: "sheets w' (srs_overview_title srs_id)
             = Some \<lparr>ws_header = SRS_OVERVIEW_HEADERS,
                     ws_body = map (\<lambda>r. if hd r = CStr zh_review_status then [hd r, CStr st]
                                         else if hd r = CStr zh_review_comment then [hd r, CStr c]
                                         else r) (ws_body ov)\<rparr>"
    if "sheets w' = (sheets w)
          (''srs_index'' \<mapsto> \<lparr>ws_header = SRS_INDEX_HEADERS, ws_body = rows\<rparr>,
           srs_overview_title srs_id \<mapsto>
             \<lparr>ws_header = SRS_OVERVIEW_HEADERS, ws_body = map (overview_row st c) (records_of ov)\<rparr>)"
      and "well_formed SRS_OVERVIEW_HEADERS ov" for ov
    using that(1) unfolding overview_rows_wellformed [OF that(2)] by simp
  from d o
  have d': "(\<exists>ov. mirror_overview_body srs_id st c w2 = (Inr (), w')
              \<and> sheets w (srs_overview_title srs_id) = Some ov
              \<and> sheets w' = (sheets w)
                   (''srs_index'' \<mapsto> \<lparr>ws_header = SRS_INDEX_HEADERS, ws_body = rows\<rparr>,
                    srs_overview_title srs_id \<mapsto>
                      \<lparr>ws_header = SRS_OVERVIEW_HEADERS,
                       ws_body = map (overview_row st c) (records_of ov)\<rparr>)
              \<and> (well_formed SRS_OVERVIEW_HEADERS ov \<longrightarrow>
                   sheets w' (srs_overview_title srs_id)
                     = Some \<lparr>ws_header = SRS_OVERVIEW_HEADERS,
                             ws_body =
                               map (\<lambda>r. if hd r = CStr zh_review_status then [hd r, CStr st]
                                         else if hd r = CStr zh_review_comment then [hd r, CStr c]
                                         else r) (ws_body ov)\<rparr>))
         \<or> (\<exists>e. mirror_overview_body srs_id st c w2 = (Inl e, w'))"
    by blast
  from s m s' r s2 d'
  show "\<exists>s rows w2. sheets w ''srs_index'' = Some s
            \<and> mapE (review_row srs_id st c) (records_of s) = Inr rows
            \<and> sheets w' ''srs_index'' = Some \<lparr>ws_header = SRS_INDEX_HEADERS, ws_body = rows\<rparr>
            \<and> (well_formed SRS_INDEX_HEADERS s \<longrightarrow>
                 rows = map (\<lambda>r. if py_int (hd r) = Inr srs_id
                                  then take 11 r @ [CStr st, CStr c] else r) (ws_body s))
            \<and> sheets w2 = (sheets w)(''srs_index'' \<mapsto> \<lparr>ws_header = SRS_INDEX_HEADERS, ws_body = rows\<rparr>)
            \<and> ((\<exists>ov. mirror_overview_body srs_id st c w2 = (Inr (), w')
                     \<and> sheets w (srs_overview_title srs_id) = Some ov
                     \<and> sheets w' = (sheets w)
                          (''srs_index'' \<mapsto> \<lparr>ws_header = SRS_INDEX_HEADERS, ws_body = rows\<rparr>,
                           srs_overview_title srs_id \<mapsto>
                             \<lparr>ws_header = SRS_OVERVIEW_HEADERS,
                              ws_body = map (overview_row st c) (records_of ov)\<rparr>)
                     \<and> (well_formed SRS_OVERVIEW_HEADERS ov \<longrightarrow>
                          sheets w' (srs_overview_title srs_id)
                            = Some \<lparr>ws_header = SRS_OVERVIEW_HEADERS,
                                    ws_body =
                                      map (\<lambda>r. if hd r = CStr zh_review_status then [hd r, CStr st]
                                                else if hd r = CStr zh_review_comment then [hd r, CStr c]
                                                else r) (ws_body ov)\<rparr>))
               \<or> (\<exists>e. mirror_overview_body srs_id st c w2 = (Inl e, w')))"
    by (intro exI [of _ s] exI [of _ rows] exI [of _ w2] conjI impI) assumption+
next
  assume "length r = 13"
  then show "field SRS_INDEX_HEADERS ''status'' (take 11 r @ [CStr st, CStr c]) = Some (CStr st)"
    by (rule reviewed_row_fields(1))
next
  assume "length r = 13"
  then show "field SRS_INDEX_HEADERS ''review_comment'' (take 11 r @ [CStr st, CStr c]) = Some (CStr c)"
    by (rule reviewed_row_fields(2))
next
  fix h
  assume "length r = 13" and "h \<noteq> ''status'' \<and> h \<noteq> ''review_comment''"
  then show "field SRS_INDEX_HEADERS h (take 11 r @ [CStr st, CStr c]) = field SRS_INDEX_HEADERS h r"
    using reviewed_row_fields(3) by blast
next
  assume "length x = 2"
  then show "overview_row st c (Map.empty(SRS_OVERVIEW_HEADERS [\<mapsto>] x))
          = (if hd x = CStr zh_review_status then [hd x, CStr st]
             else if hd x = CStr zh_review_comment then [hd x, CStr c]
             else x)"
    by (rule overview_row_wellformed)
next
  show "\<exists>v'. mirror_overview srs_id st c v = (Inr (), v')"
    by (rule mirror_overview_swallows)
next
  assume b: "read_all ''srs_index'' w = (Inr srs, w1) \<and> mapE (review_row srs_id st c) srs = Inr rows1
        \<and> rewrite_sheet ''srs_index'' SRS_INDEX_HEADERS rows1 w1 = (Inr (), w3)"
  then have "read_all ''srs_index'' w = (Inr srs, w1)"
    "mapE (review_row srs_id (st_selectbox [zh_pending, zh_approved] pick) c) srs = Inr rows1"
    "rewrite_sheet ''srs_index'' SRS_INDEX_HEADERS rows1 w1 = (Inr (), w3)"
    by (simp_all add: assms)
  then show "\<exists>w4. srs_review_save srs_id pick c w = (Inr (StSuccess msg_review_saved), w4)"
    by (rule srs_review_save_succeeds)
next
  assume d: "faults w = [] \<and> sheets w ''srs_index'' = Some si \<and> well_formed SRS_INDEX_HEADERS si
        \<and> list_all (\<lambda>r. \<exists>i. py_int (hd r) = Inr i) (ws_body si)
        \<and> sheets w (srs_overview_title srs_id) = Some so \<and> well_formed SRS_OVERVIEW_HEADERS so"
  then have "faults w = []" "sheets w ''srs_index'' = Some si" "well_formed SRS_INDEX_HEADERS si"
    "list_all (\<lambda>r. \<exists>i. py_int (hd r) = Inr i) (ws_body si)"
    "sheets w (srs_overview_title srs_id) = Some so" "well_formed SRS_OVERVIEW_HEADERS so"
    by simp_all
  then show "srs_review_save srs_id pick c w
          = (Inr (StSuccess msg_review_saved),
             w\<lparr>sheets := (sheets w)
                (''srs_index'' \<mapsto> si\<lparr>ws_body :=
                    map (\<lambda>r. if py_int (hd r) = Inr srs_id
                              then take 11 r @ [CStr st, CStr c] else r) (ws_body si)\<rparr>,
                 srs_overview_title srs_id \<mapsto> so\<lparr>ws_body :=
                    map (\<lambda>r. if hd r = CStr zh_review_status then [hd r, CStr st]
                              else if hd r = CStr zh_review_comment then [hd r, CStr c]
                              else r) (ws_body so)\<rparr>)\<rparr>)"
    using assms by (rule srs_review_save_wellformed)
next
  show "st = zh_pending \<or> st = zh_approved"
    unfolding assms by (rule selectbox_two)
qed

section \<open>The spec review on the example tables\<close>

theorem spec_review_spec_witness:
  "st_selectbox [zh_pending, zh_approved] 1 = zh_approved
   \<and> faults demo_world = [] \<and> sheets demo_world ''srs_index'' = Some demo_index
   \<and> well_formed SRS_INDEX_HEADERS demo_index
   \<and> list_all (\<lambda>r. \<exists>i. py_int (hd r) = Inr i) (ws_body demo_index)
   \<and> sheets demo_world (srs_overview_title 1) = Some demo_overview
   \<and> well_formed SRS_OVERVIEW_HEADERS demo_overview
   \<and> fst (srs_review_save 1 1 ''looks good'' demo_world) = Inr (StSuccess msg_review_saved)
   \<and> sheets (snd (srs_review_save 1 1 ''looks good'' demo_world)) ''srs_index''
       = Some \<lparr>ws_header = SRS_INDEX_HEADERS,
              ws_body = [[CInt 1, CInt 1, CStr ''Export CSV'', CStr '''',
                          CStr ''Need a report export feature'', CStr '''', CStr '''', CStr '''',
                          CStr ''v0.1'', CStr '''', CStr ''2024-01-02 10:00:00'',
                          CStr zh_approved, CStr ''looks good'']]\<rparr>
   \<and> sheets (snd (srs_review_save 1 1 ''looks good'' demo_world)) (srs_overview_title 1)
       = Some \<lparr>ws_header = SRS_OVERVIEW_HEADERS,
              ws_body = [[CStr ''SRS ID'', CInt 1],
                         [CStr zh_review_status, CStr zh_approved],
                         [CStr zh_review_comment, CStr ''looks good'']]\<rparr>"
proof -
  have st: "st_selectbox [zh_pending, zh_approved] 1 = zh_approved"
    by (simp add: st_selectbox_def)
  have h: "ws_header demo_index = SRS_INDEX_HEADERS"
    using demo_index_wf(1) by (simp add: well_formed_def)
  have ho: "ws_header demo_overview = SRS_OVERVIEW_HEADERS"
    using demo_overview_wf by (simp add: well_formed_def)
  have hyp: "faults demo_world = [] \<and> sheets demo_world ''srs_index'' = Some demo_index
      \<and> well_formed SRS_INDEX_HEADERS demo_index
      \<and> list_all (\<lambda>r. \<exists>i. py_int (hd r) = Inr i) (ws_body demo_index)
      \<and> sheets demo_world (srs_overview_title 1) = Some demo_overview
      \<and> well_formed SRS_OVERVIEW_HEADERS demo_overview"
    by (intro conjI) (rule demo_sheets demo_index_wf demo_overview_wf)+
  note t = spec_review_spec [OF st [symmetric], where srs_id = 1 and c = "''looks good''"
      and w = demo_world and si = demo_index and so = demo_overview]
  have run: "srs_review_save 1 1 ''looks good'' demo_world
      = (Inr (StSuccess msg_review_saved),
         demo_world\<lparr>sheets := (sheets demo_world)
            (''srs_index'' \<mapsto> demo_index\<lparr>ws_body :=
                map (\<lambda>r. if py_int (hd r) = Inr 1
                          then take 11 r @ [CStr zh_approved, CStr ''looks good''] else r)
                  (ws_body demo_index)\<rparr>,
             srs_overview_title 1 \<mapsto> demo_overview\<lparr>ws_body :=
                map (\<lambda>r. if hd r = CStr zh_review_status then [hd r, CStr zh_approved]
                          else if hd r = CStr zh_review_comment then [hd r, CStr ''looks good'']
                          else r) (ws_body demo_overview)\<rparr>)\<rparr>)"
    by (rule t [THEN conjunct2, THEN conjunct2, THEN conjunct2, THEN conjunct2, THEN conjunct2,
          THEN conjunct1, THEN mp, OF hyp])
  have i: "demo_index\<lparr>ws_body := map (\<lambda>r. if py_int (hd r) = Inr 1
                          then take 11 r @ [CStr zh_approved, CStr ''looks good''] else r)
                  (ws_body demo_index)\<rparr>
      = \<lparr>ws_header = SRS_INDEX_HEADERS,
         ws_body = [[CInt 1, CInt 1, CStr ''Export CSV'', CStr '''',
                     CStr ''Need a report export feature'', CStr '''', CStr '''', CStr '''',
                     CStr ''v0.1'', CStr '''', CStr ''2024-01-02 10:00:00'',
                     CStr zh_approved, CStr ''looks good'']]\<rparr>"
    unfolding demo_index_reviewed using h by simp
  have o: "demo_overview\<lparr>ws_body :=
                map (\<lambda>r. if hd r = CStr zh_review_status then [hd r, CStr zh_approved]
                          else if hd r = CStr zh_review_comment then [hd r, CStr ''looks good'']
                          else r) (ws_body demo_overview)\<rparr>
      = \<lparr>ws_header = SRS_OVERVIEW_HEADERS,
         ws_body = [[CStr ''SRS ID'', CInt 1],
                    [CStr zh_review_status, CStr zh_approved],
                    [CStr zh_review_comment, CStr ''looks good'']]\<rparr>"
    unfolding demo_overview_reviewed using ho by simp
  have a: "fst (srs_review_save 1 1 ''looks good'' demo_world) = Inr (StSuccess msg_review_saved)"
    unfolding run by simp
  have b: "sheets (snd (srs_review_save 1 1 ''looks good'' demo_world)) ''srs_index''
       = Some \<lparr>ws_header = SRS_INDEX_HEADERS,
              ws_body = [[CInt 1, CInt 1, CStr ''Export CSV'', CStr '''',
                          CStr ''Need a report export feature'', CStr '''', CStr '''', CStr '''',
                          CStr ''v0.1'', CStr '''', CStr ''2024-01-02 10:00:00'',
                          CStr zh_approved, CStr ''looks good'']]\<rparr>"
    unfolding run i using overview_title_not_index [of 1] by simp
  have d: "sheets (snd (srs_review_save 1 1 ''looks good'' demo_world)) (srs_overview_title 1)
       = Some \<lparr>ws_header = SRS_OVERVIEW_HEADERS,
              ws_body = [[CStr ''SRS ID'', CInt 1],
                         [CStr zh_review_status, CStr zh_approved],
                         [CStr zh_review_comment, CStr ''looks good'']]\<rparr>"
    unfolding run o by simp
  show ?thesis
    by (intro conjI) (rule st demo_sheets demo_index_wf demo_overview_wf a b d)+
qed

text \<open>
  C3, as stated, fails in its second clause. The Overview lookup of the save
  (line 660) is the fifth call of the spreadsheet API; when that call fails, the failure
  is dropped and the save shows the success message: the RequirementSpec row then holds
  the approved value and the comment, while the Overview still holds the pending value
  and the empty comment.
\<close>

theorem review_save_stale_overview:
  "fst (srs_review_save 1 1 ''looks good''
          (demo_world\<lparr>faults := [None, None, None, None, Some (APIError ''503 Service Unavailable'')]\<rparr>))
     = Inr (StSuccess msg_review_saved)
   \<and> sheets (snd (srs_review_save 1 1 ''looks good''
          (demo_world\<lparr>faults := [None, None, None, None, Some (APIError ''503 Service Unavailable'')]\<rparr>)))
        ''srs_index''
       = Some \<lparr>ws_header = SRS_INDEX_HEADERS,
              ws_body = [[CInt 1, CInt 1, CStr ''Export CSV'', CStr '''',
                          CStr ''Need a report export feature'', CStr '''', CStr '''', CStr '''',
                          CStr ''v0.1'', CStr '''', CStr ''2024-01-02 10:00:00'',
                          CStr zh_approved, CStr ''looks good'']]\<rparr>
   \<and> sheets (snd (srs_review_save 1 1 ''looks good''
          (demo_world\<lparr>faults := [None, None, None, None, Some (APIError ''503 Service Unavailable'')]\<rparr>)))
        (srs_overview_title 1)
       = Some \<lparr>ws_header = SRS_OVERVIEW_HEADERS,
              ws_body = [[CStr ''SRS ID'', CInt 1],
                         [CStr zh_review_status, CStr zh_pending],
                         [CStr zh_review_comment, CStr '''']]\<rparr>
   \<and> zh_pending \<noteq> zh_approved"
proof -
  let ?e = "APIError ''503 Service Unavailable''"
  let ?W = "demo_world\<lparr>faults := [None, None, None, None, Some ?e]\<rparr>"
  let ?rows = "[[CInt 1, CInt 1, CStr ''Export CSV'', CStr '''',
                 CStr ''Need a report export feature'', CStr '''', CStr '''', CStr '''',
                 CStr ''v0.1'', CStr '''', CStr ''2024-01-02 10:00:00'',
                 CStr zh_approved, CStr ''looks good'']]"
  let ?W1 = "demo_world\<lparr>faults := [None, None, None, Some ?e]\<rparr>"
  let ?W2 = "demo_world\<lparr>sheets := (sheets demo_world)(''srs_index'' \<mapsto>
               \<lparr>ws_header = SRS_INDEX_HEADERS, ws_body = ?rows\<rparr>), faults := [Some ?e]\<rparr>"
  let ?W3 = "demo_world\<lparr>sheets := (sheets demo_world)(''srs_index'' \<mapsto>
               \<lparr>ws_header = SRS_INDEX_HEADERS, ws_body = ?rows\<rparr>), faults := []\<rparr>"
  have st: "st_selectbox [zh_pending, zh_approved] 1 = zh_approved"
    by (simp add: st_selectbox_def)
  have a: "read_all ''srs_index'' ?W = (Inr (records_of demo_index), ?W1)"
    using read_all_through [of ?W "[None, None, None, Some ?e]" "''srs_index''" demo_index]
    by (simp add: demo_sheets(1))
  have m: "mapE (review_row 1 zh_approved ''looks good'') (records_of demo_index) = Inr ?rows"
    using review_rows_wellformed [OF demo_index_wf, of 1 zh_approved "''looks good''"]
    unfolding demo_index_reviewed .
  have b: "rewrite_sheet ''srs_index'' SRS_INDEX_HEADERS ?rows ?W1 = (Inr (), ?W2)"
    using rewrite_sheet_through [of ?W1 "[Some ?e]" "''srs_index''" demo_index ?rows SRS_INDEX_HEADERS]
    by (simp add: demo_sheets(1))
  have "mirror_overview_body 1 zh_approved ''looks good'' ?W2 = (Inl ?e, ?W3)"
    unfolding mirror_overview_body_def
    by (simp add: bindE_def sh_worksheet_def api_call_fault)
  then have o: "mirror_overview 1 zh_approved ''looks good'' ?W2 = (Inr (), ?W3)"
    unfolding mirror_overview_def try_except_def by (simp add: returnE_def)
  have run: "srs_review_save 1 1 ''looks good'' ?W = (Inr (StSuccess msg_review_saved), ?W3)"
    unfolding srs_review_save_def st
    by (simp add: bindE_def liftE_def returnE_def a m b o)
  have x: "fst (srs_review_save 1 1 ''looks good'' ?W) = Inr (StSuccess msg_review_saved)"
    unfolding run by simp
  have y: "sheets (snd (srs_review_save 1 1 ''looks good'' ?W)) ''srs_index''
      = Some \<lparr>ws_header = SRS_INDEX_HEADERS, ws_body = ?rows\<rparr>"
    unfolding run by simp
  have z: "sheets (snd (srs_review_save 1 1 ''looks good'' ?W)) (srs_overview_title 1)
      = Some \<lparr>ws_header = SRS_OVERVIEW_HEADERS,
              ws_body = [[CStr ''SRS ID'', CInt 1],
                         [CStr zh_review_status, CStr zh_pending],
                         [CStr zh_review_comment, CStr '''']]\<rparr>"
    unfolding run using overview_title_not_index [of 1] demo_sheets(2)
    by (simp add: demo_overview_def)
  show ?thesis
    by (intro conjI) (rule x y z zh_distinct)+
qed

section \<open>RequirementSpec creation\<close>

lemma demo_index_alloc: "allocate_id (records_of demo_index) = Inr 2"
proof -
  have "mapE (\<lambda>r. py_int (hd r)) (ws_body demo_index) = Inr [1]"
    by (simp add: demo_index_def)
  then have "row_ids (records_of demo_index) = Inr [1]"
    using row_ids_wellformed [OF demo_index_wf(1) distinct_SRS_INDEX_HEADERS(1) SRS_INDEX_HEADERS_id]
    by simp
  moreover have "records_of demo_index \<noteq> []"
    by (simp add: records_of_def demo_index_def)
  ultimately show ?thesis
    using allocate_id_nonempty [of "records_of demo_index" "[1]"] by simp
qed

lemma demo_title_not_blank: "\<not> py_blank (srs_title demo_srs_form)"
  unfolding py_blank_def demo_srs_form_def
  by (subst all_space.simps) (simp add: space_len_def)

lemma srs_creation_wellformed:
  assumes "\<not> py_blank (srs_title f)"
    and "faults w = []" and "sheets w ''srs_index'' = Some s"
    and "well_formed SRS_INDEX_HEADERS s"
    and "list_all (\<lambda>r. \<exists>i. py_int (hd r) = Inr i) (ws_body s)"
    and "sel_meeting ''raw_requirement'' = Some problem"
    and "sel_meeting ''id'' = Some mid" and "py_int mid = Inr meeting_id"
  shows "\<exists>new_id. allocate_id (records_of s) = Inr new_id
           \<and> srs_form_submit sel_meeting f created w
               = (Inr (Written (srs_new_row new_id meeting_id f problem created)),
                  w\<lparr>sheets := (sheets w)(''srs_index'' \<mapsto>
                     \<lparr>ws_header = SRS_INDEX_HEADERS,
                      ws_body = ws_body s @ [srs_new_row new_id meeting_id f problem created]\<rparr>)\<rparr>)"
proof -
  from allocate_id_wellformed [OF assms(4) distinct_SRS_INDEX_HEADERS(1) SRS_INDEX_HEADERS_id assms(5)]
  obtain n where n: "allocate_id (records_of s) = Inr n" by blast
  from srs_form_submit_clear [OF assms(1-3) n assms(6-8) srs_rows_roundtrip [OF assms(4)]] n
  show ?thesis by blast
qed

text \<open>
  C4. For a form whose title is not blank: a creation that returns has rewritten the
  RequirementSpec table to the rows serialised from the records it read, followed by one
  new row, and nothing else in the spreadsheet; the new row's \<open>problem\<close> is the
  \<open>raw_requirement\<close> of the selected Meeting as it is at that moment, its \<open>status\<close> the
  pending value and its \<open>review_comment\<close> the empty string; on a table whose rows fill the
  thirteen columns the serialised rows are the rows that were there. Without backend
  failures, on such a table with convertible ids and a Meeting that has its
  \<open>raw_requirement\<close> and a convertible \<open>id\<close>, the creation does return.
\<close>

theorem srs_creation_spec:
  assumes "\<not> py_blank (srs_title f)"
  shows
  "(srs_form_submit sel_meeting f created w = (Inr out, w') \<longrightarrow>
      (\<exists>s rows new. sheets w ''srs_index'' = Some s
          \<and> mapE srs_index_row (records_of s) = Inr rows
          \<and> (well_formed SRS_INDEX_HEADERS s \<longrightarrow> rows = ws_body s)
          \<and> out = Written new
          \<and> sheets w' = (sheets w)(''srs_index'' \<mapsto>
               \<lparr>ws_header = SRS_INDEX_HEADERS, ws_body = rows @ [new]\<rparr>)
          \<and> field SRS_INDEX_HEADERS ''problem'' new = sel_meeting ''raw_requirement''
          \<and> field SRS_INDEX_HEADERS ''status'' new = Some (CStr zh_pending)
          \<and> field SRS_INDEX_HEADERS ''review_comment'' new = Some (CStr '''')))
   \<and> (faults w = [] \<and> sheets w ''srs_index'' = Some si \<and> well_formed SRS_INDEX_HEADERS si
        \<and> list_all (\<lambda>r. \<exists>i. py_int (hd r) = Inr i) (ws_body si)
        \<and> sel_meeting ''raw_requirement'' = Some problem
        \<and> sel_meeting ''id'' = Some mid \<and> py_int mid = Inr meeting_id \<longrightarrow>
        (\<exists>new_id. allocate_id (records_of si) = Inr new_id
           \<and> srs_form_submit sel_meeting f created w
               = (Inr (Written (srs_new_row new_id meeting_id f problem created)),
                  w\<lparr>sheets := (sheets w)(''srs_index'' \<mapsto>
                     \<lparr>ws_header = SRS_INDEX_HEADERS,
                      ws_body = ws_body si @ [srs_new_row new_id meeting_id f problem created]\<rparr>)\<rparr>)))"
proof (intro conjI impI)
  assume a: "srs_form_submit sel_meeting f created w = (Inr out, w')"
  from srs_form_submit_Inr [OF assms a] obtain s new_id mid meeting_id problem rows where
    s: "sheets w ''srs_index'' = Some s" and
    p: "sel_meeting ''raw_requirement'' = Some problem" and
    m: "mapE srs_index_row (records_of s) = Inr rows" and
    o: "out = Written (srs_new_row new_id meeting_id f problem created)" and
    w': "sheets w' = (sheets w)(''srs_index'' \<mapsto>
              \<lparr>ws_header = SRS_INDEX_HEADERS,
               ws_body = rows @ [srs_new_row new_id meeting_id f problem created]\<rparr>)"
    by blast
  have r: "rows = ws_body s" if "well_formed SRS_INDEX_HEADERS s"
    using srs_rows_roundtrip [OF that] m by simp
  let ?new = "srs_new_row new_id meeting_id f problem created"
  have "sheets w ''srs_index'' = Some s
          \<and> mapE srs_index_row (records_of s) = Inr rows
          \<and> (well_formed SRS_INDEX_HEADERS s \<longrightarrow> rows = ws_body s)
          \<and> out = Written ?new
          \<and> sheets w' = (sheets w)(''srs_index'' \<mapsto>
               \<lparr>ws_header = SRS_INDEX_HEADERS, ws_body = rows @ [?new]\<rparr>)
          \<and> field SRS_INDEX_HEADERS ''problem'' ?new = sel_meeting ''raw_requirement''
          \<and> field SRS_INDEX_HEADERS ''status'' ?new = Some (CStr zh_pending)
          \<and> field SRS_INDEX_HEADERS ''review_comment'' ?new = Some (CStr '''')"
    using s m r o w' p by (simp only: srs_new_row_fields) simp
  then show "\<exists>s rows new. sheets w ''srs_index'' = Some s
          \<and> mapE srs_index_row (records_of s) = Inr rows
          \<and> (well_formed SRS_INDEX_HEADERS s \<longrightarrow> rows = ws_body s)
          \<and> out = Written new
          \<and> sheets w' = (sheets w)(''srs_index'' \<mapsto>
               \<lparr>ws_header = SRS_INDEX_HEADERS, ws_body = rows @ [new]\<rparr>)
          \<and> field SRS_INDEX_HEADERS ''problem'' new = sel_meeting ''raw_requirement''
          \<and> field SRS_INDEX_HEADERS ''status'' new = Some (CStr zh_pending)
          \<and> field SRS_INDEX_HEADERS ''review_comment'' new = Some (CStr '''')"
    by (intro exI [of _ s] exI [of _ rows] exI [of _ ?new])
next
  assume d: "faults w = [] \<and> sheets w ''srs_index'' = Some si \<and> well_formed SRS_INDEX_HEADERS si
        \<and> list_all (\<lambda>r. \<exists>i. py_int (hd r) = Inr i) (ws_body si)
        \<and> sel_meeting ''raw_requirement'' = Some problem
        \<and> sel_meeting ''id'' = Some mid \<and> py_int mid = Inr meeting_id"
  then have "faults w = []" "sheets w ''srs_index'' = Some si" "well_formed SRS_INDEX_HEADERS si"
    "list_all (\<lambda>r. \<exists>i. py_int (hd r) = Inr i) (ws_body si)"
    "sel_meeting ''raw_requirement'' = Some problem"
    "sel_meeting ''id'' = Some mid" "py_int mid = Inr meeting_id"
    by simp_all
  with assms show "\<exists>new_id. allocate_id (records_of si) = Inr new_id
           \<and> srs_form_submit sel_meeting f created w
               = (Inr (Written (srs_new_row new_id meeting_id f problem created)),
                  w\<lparr>sheets := (sheets w)(''srs_index'' \<mapsto>
                     \<lparr>ws_header = SRS_INDEX_HEADERS,
                      ws_body = ws_body si @ [srs_new_row new_id meeting_id f problem created]\<rparr>)\<rparr>)"
    by (rule srs_creation_wellformed)
qed

theorem srs_creation_spec_witness:
  "\<not> py_blank (srs_title demo_srs_form)
   \<and> faults demo_world = [] \<and> sheets demo_world ''srs_index'' = Some demo_index
   \<and> well_formed SRS_INDEX_HEADERS demo_index
   \<and> list_all (\<lambda>r. \<exists>i. py_int (hd r) = Inr i) (ws_body demo_index)
   \<and> demo_meeting ''raw_requirement'' = Some (CStr ''Need a report export feature'')
   \<and> demo_meeting ''id'' = Some (CInt 1) \<and> py_int (CInt 1) = Inr 1
   \<and> srs_form_submit demo_meeting demo_srs_form ''2024-01-03 09:00:00'' demo_world
       = (Inr (Written [CInt 2, CInt 1, CStr ''Export PDF'', CStr '''',
                        CStr ''Need a report export feature'', CStr '''', CStr '''', CStr '''',
                        CStr ''v0.1'', CStr '''', CStr ''2024-01-03 09:00:00'',
                        CStr zh_pending, CStr '''']),
          demo_world\<lparr>sheets := (sheets demo_world)(''srs_index'' \<mapsto>
             \<lparr>ws_header = SRS_INDEX_HEADERS,
              ws_body =
                [[CInt 1, CInt 1, CStr ''Export CSV'', CStr '''', CStr ''Need a report export feature'',
                  CStr '''', CStr '''', CStr '''', CStr ''v0.1'', CStr '''', CStr ''2024-01-02 10:00:00'',
                  CStr zh_pending, CStr ''''],
                 [CInt 2, CInt 1, CStr ''Export PDF'', CStr '''',
                  CStr ''Need a report export feature'', CStr '''', CStr '''', CStr '''',
                  CStr ''v0.1'', CStr '''', CStr ''2024-01-03 09:00:00'',
                  CStr zh_pending, CStr '''']]\<rparr>)\<rparr>)"
proof -
  have m: "demo_meeting ''raw_requirement'' = Some (CStr ''Need a report export feature'')"
    "demo_meeting ''id'' = Some (CInt 1)" "py_int (CInt 1) = Inr 1"
    by (simp_all add: demo_meeting_def)
  have hyp: "faults demo_world = [] \<and> sheets demo_world ''srs_index'' = Some demo_index
      \<and> well_formed SRS_INDEX_HEADERS demo_index
      \<and> list_all (\<lambda>r. \<exists>i. py_int (hd r) = Inr i) (ws_body demo_index)
      \<and> demo_meeting ''raw_requirement'' = Some (CStr ''Need a report export feature'')
      \<and> demo_meeting ''id'' = Some (CInt 1) \<and> py_int (CInt 1) = Inr 1"
    by (intro conjI) (rule demo_sheets demo_index_wf m)+
  have "\<exists>new_id. allocate_id (records_of demo_index) = Inr new_id
           \<and> srs_form_submit demo_meeting demo_srs_form ''2024-01-03 09:00:00'' demo_world
               = (Inr (Written (srs_new_row new_id 1 demo_srs_form
                     (CStr ''Need a report export feature'') ''2024-01-03 09:00:00'')),
                  demo_world\<lparr>sheets := (sheets demo_world)(''srs_index'' \<mapsto>
                     \<lparr>ws_header = SRS_INDEX_HEADERS,
                      ws_body = ws_body demo_index @ [srs_new_row new_id 1 demo_srs_form
                     (CStr ''Need a report export feature'') ''2024-01-03 09:00:00'']\<rparr>)\<rparr>)"
    by (rule srs_creation_spec [OF demo_title_not_blank, THEN conjunct2, THEN mp, OF hyp])
  then have run: "srs_form_submit demo_meeting demo_srs_form ''2024-01-03 09:00:00'' demo_world
               = (Inr (Written (srs_new_row 2 1 demo_srs_form
                     (CStr ''Need a report export feature'') ''2024-01-03 09:00:00'')),
                  demo_world\<lparr>sheets := (sheets demo_world)(''srs_index'' \<mapsto>
                     \<lparr>ws_header = SRS_INDEX_HEADERS,
                      ws_body = ws_body demo_index @ [srs_new_row 2 1 demo_srs_form
                     (CStr ''Need a report export feature'') ''2024-01-03 09:00:00'']\<rparr>)\<rparr>)"
    unfolding demo_index_alloc by simp
  have r: "srs_new_row 2 1 demo_srs_form (CStr ''Need a report export feature'') ''2024-01-03 09:00:00''
      = [CInt 2, CInt 1, CStr ''Export PDF'', CStr '''',
         CStr ''Need a report export feature'', CStr '''', CStr '''', CStr '''',
         CStr ''v0.1'', CStr '''', CStr ''2024-01-03 09:00:00'', CStr zh_pending, CStr '''']"
    by (simp add: srs_new_row_def demo_srs_form_def)
  have b: "ws_body demo_index
      = [[CInt 1, CInt 1, CStr ''Export CSV'', CStr '''', CStr ''Need a report export feature'',
          CStr '''', CStr '''', CStr '''', CStr ''v0.1'', CStr '''', CStr ''2024-01-02 10:00:00'',
          CStr zh_pending, CStr '''']]"
    by (simp add: demo_index_def)
  have e: "srs_form_submit demo_meeting demo_srs_form ''2024-01-03 09:00:00'' demo_world
       = (Inr (Written [CInt 2, CInt 1, CStr ''Export PDF'', CStr '''',
                        CStr ''Need a report export feature'', CStr '''', CStr '''', CStr '''',
                        CStr ''v0.1'', CStr '''', CStr ''2024-01-03 09:00:00'',
                        CStr zh_pending, CStr '''']),
          demo_world\<lparr>sheets := (sheets demo_world)(''srs_index'' \<mapsto>
             \<lparr>ws_header = SRS_INDEX_HEADERS,
              ws_body =
                [[CInt 1, CInt 1, CStr ''Export CSV'', CStr '''', CStr ''Need a report export feature'',
                  CStr '''', CStr '''', CStr '''', CStr ''v0.1'', CStr '''', CStr ''2024-01-02 10:00:00'',
                  CStr zh_pending, CStr ''''],
                 [CInt 2, CInt 1, CStr ''Export PDF'', CStr '''',
                  CStr ''Need a report export feature'', CStr '''', CStr '''', CStr '''',
                  CStr ''v0.1'', CStr '''', CStr ''2024-01-03 09:00:00'',
                  CStr zh_pending, CStr '''']]\<rparr>)\<rparr>)"
    unfolding run r b by simp
  show ?thesis
    by (intro conjI) (rule demo_title_not_blank demo_sheets demo_index_wf m e)+
qed

section \<open>The overdue flag\<close>

lemma date_fromisoformat_demo:
  "date_fromisoformat (CStr ''2020-01-01'') = Inr (Date 2020 1 1)"
  "\<exists>e. date_fromisoformat (CStr '''') = Inl e"
  by (simp_all add: is_digit_def digit_val_def days_in_month_def)

lemma overdue_unparseable:
  "fromisoformat (dict_get t ''end_date'' CNone) = Inl e \<Longrightarrow> task_overdue fromisoformat today t = ''''"
  by (simp add: task_overdue_def Let_def)

text \<open>
  C7. \<open>fromisoformat\<close> stands for \<open>datetime.date.fromisoformat\<close>, of which only this is
  used: it raises on a cell that Python reads as false (\<open>None\<close>, the empty string, zero).
  The flag of a task is the overdue mark exactly when its \<open>end_date\<close> parses as a date, its
  \<open>done_status\<close> is not the completion marker and the parsed date is strictly before
  today. The flag is always the overdue mark or the empty text, never an error; it is the
  empty text when the \<open>end_date\<close> does not parse, and when the field is missing.
\<close>

theorem overdue_spec:
  assumes "\<forall>c. \<not> truthy c \<longrightarrow> (\<exists>e. fromisoformat c = Inl e)"
  shows
  "((task_overdue fromisoformat today t = zh_overdue)
      = (\<exists>d. fromisoformat (dict_get t ''end_date'' CNone) = Inr d
            \<and> dict_get t ''done_status'' (CStr '''') \<noteq> CStr zh_done
            \<and> date_lt d today))
   \<and> (task_overdue fromisoformat today t = zh_overdue \<or> task_overdue fromisoformat today t = '''')
   \<and> zh_overdue \<noteq> ''''
   \<and> ((\<exists>e. fromisoformat (dict_get t ''end_date'' CNone) = Inl e) \<longrightarrow>
        task_overdue fromisoformat today t = '''')
   \<and> (t ''end_date'' = None \<longrightarrow> task_overdue fromisoformat today t = '''')"
proof (intro conjI impI)
  from assms have a: "\<exists>e. fromisoformat c = Inl e" if "\<not> truthy c" for c
    using that by blast
  show "(task_overdue fromisoformat today t = zh_overdue)
      = (\<exists>d. fromisoformat (dict_get t ''end_date'' CNone) = Inr d
            \<and> dict_get t ''done_status'' (CStr '''') \<noteq> CStr zh_done
            \<and> date_lt d today)"
    by (rule overdue_iff) (rule a)
  show "task_overdue fromisoformat today t = zh_overdue \<or> task_overdue fromisoformat today t = ''''"
    by (rule overdue_total)
  show "zh_overdue \<noteq> ''''" by (simp add: zh_overdue_def)
  show "task_overdue fromisoformat today t = ''''"
    if "\<exists>e. fromisoformat (dict_get t ''end_date'' CNone) = Inl e"
    using that overdue_unparseable by blast
  show "task_overdue fromisoformat today t = ''''" if "t ''end_date'' = None"
    using that by (simp add: task_overdue_def Let_def dict_get_def truthy_def)
qed

theorem overdue_spec_witness:
  "date_fromisoformat (CStr ''2020-01-01'') = Inr (Date 2020 1 1)
   \<and> date_lt (Date 2020 1 1) (Date 2020 1 2)
   \<and> CStr zh_in_progress \<noteq> CStr zh_done
   \<and> task_overdue date_fromisoformat (Date 2020 1 2)
        [''end_date'' \<mapsto> CStr ''2020-01-01'', ''done_status'' \<mapsto> CStr zh_in_progress] = zh_overdue
   \<and> task_overdue date_fromisoformat (Date 2020 1 2)
        [''end_date'' \<mapsto> CStr '''', ''done_status'' \<mapsto> CStr zh_in_progress] = ''''
   \<and> task_overdue date_fromisoformat (Date 2020 1 2)
        [''done_status'' \<mapsto> CStr zh_in_progress] = ''''"
proof -
  have p: "\<forall>c. \<not> truthy c \<longrightarrow> (\<exists>e. date_fromisoformat c = Inl e)"
    using date_fromisoformat_falsy by blast
  have l: "date_lt (Date 2020 1 1) (Date 2020 1 2)" by (simp add: date_lt_def)
  have n: "CStr zh_in_progress \<noteq> CStr zh_done" by (simp add: zh_in_progress_def zh_done_def)
  let ?t = "[''end_date'' \<mapsto> CStr ''2020-01-01'', ''done_status'' \<mapsto> CStr zh_in_progress]"
  have "\<exists>d. date_fromisoformat (dict_get ?t ''end_date'' CNone) = Inr d
            \<and> dict_get ?t ''done_status'' (CStr '''') \<noteq> CStr zh_done
            \<and> date_lt d (Date 2020 1 2)"
    using l n date_fromisoformat_demo(1) by (simp add: dict_get_def)
  then have a: "task_overdue date_fromisoformat (Date 2020 1 2) ?t = zh_overdue"
    by (simp only: overdue_spec [OF p, THEN conjunct1])
  let ?u = "[''end_date'' \<mapsto> CStr '''', ''done_status'' \<mapsto> CStr zh_in_progress]"
  have "\<exists>e. date_fromisoformat (dict_get ?u ''end_date'' CNone) = Inl e"
    by (simp add: dict_get_def)
  then have b: "task_overdue date_fromisoformat (Date 2020 1 2) ?u = ''''"
    by (rule overdue_spec [OF p, THEN conjunct2, THEN conjunct2, THEN conjunct2, THEN conjunct1, THEN mp])
  let ?v = "[''done_status'' \<mapsto> CStr zh_in_progress]"
  have "?v ''end_date'' = None" by simp
  then have d: "task_overdue date_fromisoformat (Date 2020 1 2) ?v = ''''"
    by (rule overdue_spec [OF p, THEN conjunct2, THEN conjunct2, THEN conjunct2, THEN conjunct2, THEN mp])
  show ?thesis
    by (intro conjI) (rule date_fromisoformat_demo(1) l n a b d)+
qed

section \<open>Calls of the spreadsheet API and the wrapper: two more runs\<close>

text \<open>
  \<open>ensure_worksheet\<close> reads the header row with a direct \<open>ws.row_values(1)\<close> (line 134),
  between two calls that go through \<open>with_retry\<close>: a rate-limit failure of that read is
  propagated at once.
\<close>

lemma row_values_not_retried:
  "ensure_worksheet (srs_tasks_title 1) TASK_HEADERS
     (demo_world\<lparr>faults := [None, Some (APIError ''429 Too Many Requests''), None]\<rparr>)
   = (Inl (APIError ''429 Too Many Requests''), demo_world\<lparr>faults := [None]\<rparr>)"
proof -
  let ?a = "APIError ''429 Too Many Requests''"
  let ?W = "demo_world\<lparr>faults := [None, Some ?a, None]\<rparr>"
  let ?W1 = "demo_world\<lparr>faults := [Some ?a, None]\<rparr>"
  have "sh_worksheet (srs_tasks_title 1) ?W = (Inr (srs_tasks_title 1), ?W1)"
    using api_call_through [of ?W "[Some ?a, None]" "gs_worksheet (srs_tasks_title 1)"]
    by (simp add: sh_worksheet_def gs_worksheet_def demo_sheets(4) demo_world_def)
  then have a: "with_retry (sh_worksheet (srs_tasks_title 1)) ?W = (Inr (srs_tasks_title 1), ?W1)"
    by (rule with_retry_returns)
  have b: "ws_row_values_1 (srs_tasks_title 1) ?W1 = (Inl ?a, demo_world\<lparr>faults := [None]\<rparr>)"
    by (simp add: ws_row_values_1_def api_call_fault)
  have h: "TASK_HEADERS \<noteq> []" by (rule TASK_HEADERS_id(1))
  show ?thesis
    unfolding ensure_worksheet_def try_except_def
    by (simp add: bindE_def a b h)
qed

text \<open>
  The wrapper recognises a rate limit by the text of the exception (line 119). The text of
  \<open>WorksheetNotFound\<close> is the title that was looked up, so the lookup of the missing
  worksheet \<open>SRS_TASKS_429\<close> is repeated five times with the five delays and ends in the
  generic failure, which the handler of line 138 does not catch: the worksheet is not
  created.
\<close>

lemma title_429_signal:
  "srs_tasks_title 429 = ''SRS_TASKS_429''"
  "rate_limit_signal (WorksheetNotFound ''SRS_TASKS_429'')"
  by (simp_all add: srs_tasks_title_def str_int_def str_nat.simps digit_char_def rate_limit_signal_def)

lemma title_429_retried:
  "ensure_worksheet (srs_tasks_title 429) TASK_HEADERS demo_world
   = (Inl (Exception msg_retry_exhausted),
      demo_world\<lparr>slept := [12 / 10, 22 / 10, 32 / 10, 42 / 10, 52 / 10]\<rparr>)"
proof -
  have n: "sheets demo_world ''SRS_TASKS_429'' = None"
    by (simp add: demo_world_def srs_overview_title_def pm_tasks_title_def srs_tasks_title_def
        str_int_demo)
  have c: "sh_worksheet ''SRS_TASKS_429'' w = (Inl (WorksheetNotFound ''SRS_TASKS_429''), w)"
    if "faults w = []" "sheets w = sheets demo_world" for w
    using that n by (simp add: sh_worksheet_def api_call_clear gs_worksheet_def)
  have d: "faults demo_world = []" "slept demo_world = []" by (simp_all add: demo_world_def)
  have "with_retry (sh_worksheet ''SRS_TASKS_429'') demo_world
      = (Inl (Exception msg_retry_exhausted),
         demo_world\<lparr>slept := [12 / 10, 22 / 10, 32 / 10, 42 / 10, 52 / 10]\<rparr>)"
    unfolding with_retry_def upt_5
    by (simp add: c d title_429_signal(2) time_sleep_def retry_delay_def)
  then show ?thesis
    unfolding ensure_worksheet_def try_except_def title_429_signal(1)
    by (simp add: bindE_def)
qed

end
